(* ===== verification/Prelude.thy ===== *)
theory Prelude
  imports Main "HOL-Library.Multiset" "HOL-Library.Word"
begin

text \<open>
  Shared vocabulary of the development: the types that stand for Go's basic types, the
  collections of simplification rules, the treatment of Go's \<^verbatim>\<open>range\<close> over a map, and the
  generic lemmas on lists and maps that several components use.

  Go strings and byte slices are sequences of bytes. Both are \<open>string\<close> (a list of \<open>char\<close>,
  one \<open>char\<close> per byte) where the code compares or prints them, and lists of \<open>8 word\<close> where it
  does arithmetic on them.
\<close>

type_synonym byte = "8 word"
type_synonym int64 = "64 word"
type_synonym uint64 = "64 word"
type_synonym duration = "64 word"
type_synonym time = int

text \<open>\<open>wf_intros\<close> collects the preservation lemmas of the components' invariants, \<open>abs_simps\<close>
  the equations that relate an operation to its abstract specification.\<close>

named_theorems wf_intros
named_theorems abs_simps

section \<open>Ranging over a Go map\<close>

text \<open>
  A Go map is a finite partial function. The order in which \<^verbatim>\<open>range\<close> visits its keys is
  unspecified, so every loop over a map takes the list of keys in the order visited; the
  list is any enumeration of the domain. A property that holds for every enumeration holds for
  every run of the code.
\<close>

definition enumerates :: "'k list \<Rightarrow> ('k \<rightharpoonup> 'v) \<Rightarrow> bool" where
  "enumerates ks m \<longleftrightarrow> distinct ks \<and> set ks = dom m"

lemma enumerates_dom: "enumerates ks m \<Longrightarrow> set ks = dom m"
  by (simp add: enumerates_def)

lemma enumerates_distinct: "enumerates ks m \<Longrightarrow> distinct ks"
  by (simp add: enumerates_def)

lemma enumerates_finite: "enumerates ks m \<Longrightarrow> finite (dom m)"
  by (metis enumerates_def List.finite_set)

lemma enumerates_exists: "finite (dom m) \<Longrightarrow> \<exists>ks. enumerates ks m"
  unfolding enumerates_def by (metis finite_distinct_list)

lemma enumerates_length: "enumerates ks m \<Longrightarrow> length ks = card (dom m)"
  by (metis enumerates_def distinct_card)

lemma enumerates_empty [simp]: "enumerates ks Map.empty \<longleftrightarrow> ks = []"
  by (auto simp: enumerates_def)

text \<open>Where a handler ranges over tables that only exist while it runs, the order is given by a
  priority list of keys.\<close>

definition range_order :: "'k list \<Rightarrow> ('k \<rightharpoonup> 'v) \<Rightarrow> 'k list" where
  "range_order ord m = filter (\<lambda>k. m k \<noteq> None) ord"

definition covers :: "'k list \<Rightarrow> ('k \<rightharpoonup> 'v) \<Rightarrow> bool" where
  "covers ord m \<longleftrightarrow> distinct ord \<and> dom m \<subseteq> set ord"

lemma range_order_enum: "covers ord m \<Longrightarrow> enumerates (range_order ord m) m"
  by (auto simp: covers_def enumerates_def range_order_def)

lemma range_order_self: "enumerates ks m \<Longrightarrow> range_order ks m = ks \<and> covers ks m"
  by (auto simp: covers_def enumerates_def range_order_def filter_id_conv)

lemma covers_mono: "covers ord m \<Longrightarrow> dom m' \<subseteq> dom m \<Longrightarrow> covers ord m'"
  by (auto simp: covers_def)

text \<open>A loop that rewrites each entry of a map by itself, deleting the entries for which the
  body yields \<open>None\<close>.\<close>

fun map_loop :: "('k \<Rightarrow> 'v \<Rightarrow> 'v option) \<Rightarrow> 'k list \<Rightarrow> ('k \<rightharpoonup> 'v) \<Rightarrow> ('k \<rightharpoonup> 'v)" where
  "map_loop f [] m = m"
| "map_loop f (k # ks) m =
     map_loop f ks (case m k of None \<Rightarrow> m | Some v \<Rightarrow> m(k := f k v))"

lemma map_loop_apply:
  "distinct ks \<Longrightarrow> map_loop f ks m k =
     (if k \<in> set ks then Option.bind (m k) (f k) else m k)"
  by (induction ks arbitrary: m) (auto split: option.splits)

lemma map_loop_enum:
  "enumerates ks m \<Longrightarrow> map_loop f ks m = (\<lambda>k. Option.bind (m k) (f k))"
  by (rule ext) (auto simp: map_loop_apply enumerates_def domIff)

section \<open>Panics\<close>

text \<open>The outcome of a Go call that may panic (an index out of range, a slice bound out of range).\<close>

datatype 'a go = Panic | Ret 'a

fun go_bind :: "'a go \<Rightarrow> ('a \<Rightarrow> 'b go) \<Rightarrow> 'b go" where
  "go_bind Panic f = Panic"
| "go_bind (Ret x) f = f x"

lemma go_bind_Ret [simp]: "go_bind m Ret = m"
  by (cases m) auto

lemma go_bind_eq_Ret: "go_bind m f = Ret y \<longleftrightarrow> (\<exists>x. m = Ret x \<and> f x = Ret y)"
  by (cases m) auto

lemma go_bind_cong [fundef_cong]:
  "m = m' \<Longrightarrow> (\<And>x. m' = Ret x \<Longrightarrow> f x = f' x) \<Longrightarrow> go_bind m f = go_bind m' f'"
  by (cases m') auto

section \<open>Lists\<close>

lemma filter_mset_eq: "mset xs = mset ys \<Longrightarrow> mset (filter P xs) = mset (filter P ys)"
  by simp

lemma distinct_map_filter_list: "distinct (map f xs) \<Longrightarrow> distinct (map f (filter P xs))"
  by (induction xs) auto

lemma take_drop_remove:
  "i < length xs \<Longrightarrow> set (take i xs @ drop (Suc i) xs) \<subseteq> set xs"
  by (auto dest: in_set_takeD in_set_dropD)

text \<open>Deleting by position from the end of a list backwards, the shape of the deletion loops in
  the code: position \<open>idx\<close> is tested and, when it matches, cut out.\<close>

fun cut_back :: "('a \<Rightarrow> bool) \<Rightarrow> nat \<Rightarrow> 'a list \<Rightarrow> 'a list" where
  "cut_back P 0 xs = xs"
| "cut_back P (Suc i) xs =
     cut_back P i (if P (xs ! i) then take i xs @ drop (Suc i) xs else xs)"

lemma cut_back_prefix:
  "i \<le> length xs \<Longrightarrow> cut_back P i xs = filter (\<lambda>x. \<not> P x) (take i xs) @ drop i xs"
proof (induction i arbitrary: xs)
  case 0
  then show ?case by simp
next
  case (Suc i)
  have t: "take (Suc i) xs = take i xs @ [xs ! i]" and d: "drop i xs = xs ! i # drop (Suc i) xs"
    using Suc.prems by (simp_all add: take_Suc_conv_app_nth Cons_nth_drop_Suc)
  show ?case
    using Suc.prems by (simp add: Suc.IH t d)
qed

lemma cut_back_all: "cut_back P (length xs) xs = filter (\<lambda>x. \<not> P x) xs"
  by (simp add: cut_back_prefix)

section \<open>Maps\<close>

lemma map_upd_apply: "(m(k \<mapsto> v)) j = (if j = k then Some v else m j)"
  by simp

lemma dom_del_subset: "dom (m(k := None)) \<subseteq> dom m"
  by auto

lemma map_option_agree:
  "(x = None \<longleftrightarrow> y = None) \<Longrightarrow> (\<And>r s. x = Some r \<Longrightarrow> y = Some s \<Longrightarrow> f r = f s) \<Longrightarrow>
   map_option f x = map_option f y"
  by (cases x; cases y) auto

section \<open>Words\<close>

lemma sint_pos_word: "0 < sint (d :: int64) \<Longrightarrow> d \<noteq> 0"
  by auto

end
