(* ===== verification/GoStd.thy ===== *)
theory GoStd
  imports Prelude
begin

unbundle bit_operations_syntax

text \<open>
  The parts of Go's standard library that the code calls and whose results matter for it: package
  strings (byte strings; case mapping on ASCII letters), UTF-8 validity, hexadecimal text, MD5, and
  decimal formatting. They are executable, and the laws the components use are proved here.
\<close>

section \<open>Package strings\<close>

definition HasPrefix :: "string \<Rightarrow> string \<Rightarrow> bool" where
  "HasPrefix s p = (take (length p) s = p)"

definition HasSuffix :: "string \<Rightarrow> string \<Rightarrow> bool" where
  "HasSuffix s p = (length p \<le> length s \<and> drop (length s - length p) s = p)"

text \<open>\<^verbatim>\<open>SplitN (s, sep, 2)\<close> for a one-byte separator: the text before the first separator and all the
  text after it, or the whole text.\<close>

fun SplitN2 :: "char \<Rightarrow> string \<Rightarrow> string list" where
  "SplitN2 c s =
     (case dropWhile (\<lambda>x. x \<noteq> c) s of
        [] \<Rightarrow> [s]
      | _ # r \<Rightarrow> [takeWhile (\<lambda>x. x \<noteq> c) s, r])"

text \<open>\<^verbatim>\<open>Split (s, sep)\<close> for a one-byte separator; never empty.\<close>

fun Split :: "char \<Rightarrow> string \<Rightarrow> string list" where
  "Split c [] = [[]]"
| "Split c (x # xs) =
     (if x = c then [] # Split c xs
      else (case Split c xs of [] \<Rightarrow> [[x]] | p # ps \<Rightarrow> (x # p) # ps))"

fun Join :: "string list \<Rightarrow> string \<Rightarrow> string" where
  "Join [] sep = []"
| "Join [s] sep = s"
| "Join (s # t # ss) sep = s @ sep @ Join (t # ss) sep"

definition upper_char :: "char \<Rightarrow> char" where
  "upper_char c =
     (let n = of_char c :: nat in if 97 \<le> n \<and> n \<le> 122 then char_of (n - 32) else c)"

definition ToUpper :: "string \<Rightarrow> string" where
  "ToUpper s = map upper_char s"

text \<open>\<^verbatim>\<open>Replace (s, old, new, -1)\<close> for a one-byte \<^verbatim>\<open>old\<close>.\<close>

definition ReplaceAll :: "char \<Rightarrow> string \<Rightarrow> string \<Rightarrow> string" where
  "ReplaceAll c new s = concat (map (\<lambda>x. if x = c then new else [x]) s)"

text \<open>\<^verbatim>\<open>TrimSpace\<close>: the white space of Unicode, as the bytes of its encodings. Cutting their bytes off is cutting the runes off,
  since no encoding is the beginning or the end of another one.\<close>

definition spaces :: "string list" where
  "spaces = map (map char_of)
     ([[9], [10], [11], [12], [13], [32], [0xC2, 0x85], [0xC2, 0xA0], [0xE1, 0x9A, 0x80]] @
      map (\<lambda>b. [0xE2, 0x80, b]) ([0x80..<0x8B] @ [0xA8, 0xA9, 0xAF]) @
      [[0xE2, 0x81, 0x9F], [0xE3, 0x80, 0x80 :: nat]])"

lemma spaces_nonempty: "p \<in> set spaces \<Longrightarrow> 0 < length p"
  by (auto simp: spaces_def)

function TrimLeft :: "string \<Rightarrow> string" where
  "TrimLeft s = (case find (HasPrefix s) spaces of None \<Rightarrow> s | Some p \<Rightarrow> TrimLeft (drop (length p) s))"
  by pat_completeness auto

termination TrimLeft
proof (relation "measure length")
  fix s p
  assume "find (HasPrefix s) spaces = Some p"
  then have "HasPrefix s p" "p \<in> set spaces"
    by (auto simp: find_Some_iff)
  then have "0 < length p" "length p \<le> length s"
    using spaces_nonempty unfolding HasPrefix_def by (auto, metis length_take min.cobounded1)
  then show "(drop (length p) s, s) \<in> measure length" by (simp del: length_greater_0_conv)
qed simp

function TrimRight :: "string \<Rightarrow> string" where
  "TrimRight s = (case find (HasSuffix s) spaces of None \<Rightarrow> s | Some p \<Rightarrow> TrimRight (take (length s - length p) s))"
  by pat_completeness auto

termination TrimRight
proof (relation "measure length")
  fix s p
  assume "find (HasSuffix s) spaces = Some p"
  then have "HasSuffix s p" "p \<in> set spaces"
    by (auto simp: find_Some_iff)
  then have "0 < length p" "length p \<le> length s"
    using spaces_nonempty unfolding HasSuffix_def by auto
  then show "(take (length s - length p) s, s) \<in> measure length" by (simp del: length_greater_0_conv)
qed simp

declare TrimLeft.simps [simp del] TrimRight.simps [simp del]

definition TrimSpace :: "string \<Rightarrow> string" where
  "TrimSpace s = TrimRight (TrimLeft s)"

section \<open>UTF-8\<close>

text \<open>The ranges of the bytes that must follow a first byte (table 3-7 of the Unicode standard).\<close>

definition utf8_rest :: "nat \<Rightarrow> (nat \<times> nat) list option" where
  "utf8_rest b =
     (let c = (0x80, 0xBF) in
      if b < 0x80 then Some []
      else if 0xC2 \<le> b \<and> b \<le> 0xDF then Some [c]
      else if b = 0xE0 then Some [(0xA0, 0xBF), c]
      else if b = 0xED then Some [(0x80, 0x9F), c]
      else if 0xE1 \<le> b \<and> b \<le> 0xEF then Some [c, c]
      else if b = 0xF0 then Some [(0x90, 0xBF), c, c]
      else if 0xF1 \<le> b \<and> b \<le> 0xF3 then Some [c, c, c]
      else if b = 0xF4 then Some [(0x80, 0x8F), c, c]
      else None)"

function utf8_bytes :: "nat list \<Rightarrow> bool" where
  "utf8_bytes [] = True"
| "utf8_bytes (b # bs) =
     (case utf8_rest b of
        None \<Rightarrow> False
      | Some rs \<Rightarrow> list_all2 (\<lambda>x (lo, hi). lo \<le> x \<and> x \<le> hi) (take (length rs) bs) rs \<and> utf8_bytes (drop (length rs) bs))"
  by pat_completeness auto

termination utf8_bytes
  by (relation "measure length") auto

definition ValidString :: "string \<Rightarrow> bool" where
  "ValidString s = utf8_bytes (map of_char s)"

lemma HasPrefix_append [simp]: "HasPrefix (p @ s) p"
  by (simp add: HasPrefix_def)

lemma HasPrefix_split: "HasPrefix s p \<Longrightarrow> s = p @ drop (length p) s"
  unfolding HasPrefix_def by (metis append_take_drop_id)

lemma Split_nonempty [simp]: "Split c s \<noteq> []"
  by (induction s) (auto split: list.splits)

lemma Split_no_sep: "p \<in> set (Split c s) \<Longrightarrow> c \<notin> set p"
  by (induction s arbitrary: p) (fastforce split: list.splits if_splits)+

lemma Join_Cons: "ss \<noteq> [] \<Longrightarrow> Join (s # ss) sep = s @ sep @ Join ss sep"
  by (cases ss) auto

lemma Join_Split: "Join (Split c s) [c] = s"
proof (induction s)
  case Nil
  then show ?case by simp
next
  case (Cons x xs)
  obtain p ps where s: "Split c xs = p # ps"
    by (meson Split_nonempty neq_Nil_conv)
  show ?case
    using Cons.IH s by (cases ps) (auto simp: Join_Cons)
qed

lemma Split_single: "c \<notin> set p \<Longrightarrow> Split c p = [p]"
  by (induction p) auto

lemma Split_append: "c \<notin> set p \<Longrightarrow> Split c (p @ c # r) = p # Split c r"
  by (induction p) auto

lemma Split_Join:
  "ps \<noteq> [] \<Longrightarrow> (\<And>p. p \<in> set ps \<Longrightarrow> c \<notin> set p) \<Longrightarrow> Split c (Join ps [c]) = ps"
  by (induction ps "[c]" rule: Join.induct) (auto simp: Split_single Split_append)

lemma SplitN2_found: "c \<notin> set k \<Longrightarrow> SplitN2 c (k @ c # v) = [k, v]"
  by (simp add: dropWhile_append takeWhile_append)

lemma SplitN2_absent: "c \<notin> set s \<Longrightarrow> SplitN2 c s = [s]"
  by (metis (mono_tags, lifting) SplitN2.simps dropWhile_eq_Nil_conv list.simps(4))

lemma SplitN2_cases:
  obtains (one) "c \<notin> set s" "SplitN2 c s = [s]"
  | (two) k v where "s = k @ c # v" "c \<notin> set k" "SplitN2 c s = [k, v]"
proof (cases "c \<in> set s")
  case True
  then obtain k v where "s = k @ c # v" "c \<notin> set k"
    by (meson split_list_first)
  then show thesis using two SplitN2_found by blast
next
  case False
  then show thesis using one SplitN2_absent by blast
qed

declare SplitN2.simps [simp del]

section \<open>Decimal and hexadecimal text\<close>

definition digit_char :: "nat \<Rightarrow> char" where
  "digit_char n = (if n < 10 then char_of (48 + n) else char_of (87 + n))"

fun show_nat :: "nat \<Rightarrow> string" where
  "show_nat n = (if n < 10 then [digit_char n] else show_nat (n div 10) @ [digit_char (n mod 10)])"

declare show_nat.simps [simp del]

definition show_int :: "int \<Rightarrow> string" where
  "show_int i = (if i < 0 then ''-'' @ show_nat (nat (- i)) else show_nat (nat i))"

definition hex_byte :: "byte \<Rightarrow> string" where
  "hex_byte b = [digit_char (unat b div 16), digit_char (unat b mod 16)]"

definition hex_EncodeToString :: "byte list \<Rightarrow> string" where
  "hex_EncodeToString bs = concat (map hex_byte bs)"

lemma of_char_digit:
  "k < 16 \<Longrightarrow> of_char (digit_char k) = (if k < 10 then 48 + k else 87 + k)" for k :: nat
  by (simp add: digit_char_def)

lemma digit_char_inj:
  assumes "m < 16" and "n < 16"
  shows "digit_char m = digit_char n \<longleftrightarrow> m = n"
proof
  assume "digit_char m = digit_char n"
  then have "(if m < 10 then 48 + m else 87 + m) = (if n < 10 then 48 + n else 87 + n)"
    using of_char_digit [OF assms(1)] of_char_digit [OF assms(2)] by metis
  then show "m = n" by (simp split: if_splits)
qed simp

lemma hex_byte_inj: "hex_byte a = hex_byte b \<longleftrightarrow> a = b"
proof
  assume h: "hex_byte a = hex_byte b"
  have l: "unat a < 256" "unat b < 256"
    using unsigned_less [of a] unsigned_less [of b] by simp_all
  then have "unat a div 16 < 16" "unat b div 16 < 16"
    by auto
  with h have "unat a div 16 = unat b div 16" "unat a mod 16 = unat b mod 16"
    by (simp_all add: hex_byte_def digit_char_inj)
  then have "unat a = unat b"
    by (metis div_mult_mod_eq)
  then show "a = b" by (simp add: unsigned_word_eqI)
qed simp

lemma hex_byte_length [simp]: "length (hex_byte b) = 2"
  by (simp add: hex_byte_def)

lemma hex_length: "length (hex_EncodeToString bs) = 2 * length bs"
  by (induction bs) (auto simp: hex_EncodeToString_def)

lemma hex_inj: "hex_EncodeToString as = hex_EncodeToString bs \<longleftrightarrow> as = bs"
proof
  assume "hex_EncodeToString as = hex_EncodeToString bs"
  then show "as = bs"
  proof (induction as arbitrary: bs)
    case Nil
    then show ?case by (cases bs) (auto simp: hex_EncodeToString_def hex_byte_def)
  next
    case (Cons a as)
    then obtain b bs' where bs: "bs = b # bs'"
      by (cases bs) (auto simp: hex_EncodeToString_def hex_byte_def)
    then have "hex_byte a @ hex_EncodeToString as = hex_byte b @ hex_EncodeToString bs'"
      using Cons.prems by (simp add: hex_EncodeToString_def)
    then have "hex_byte a = hex_byte b" "hex_EncodeToString as = hex_EncodeToString bs'"
      by (simp_all add: append_eq_append_conv)
    with Cons.IH bs show ?case by (simp add: hex_byte_inj)
  qed
qed simp

section \<open>MD5\<close>

type_synonym u32 = "32 word"

definition md5_K :: "u32 list" where
  "md5_K = [
    0xd76aa478, 0xe8c7b756, 0x242070db, 0xc1bdceee,
    0xf57c0faf, 0x4787c62a, 0xa8304613, 0xfd469501,
    0x698098d8, 0x8b44f7af, 0xffff5bb1, 0x895cd7be,
    0x6b901122, 0xfd987193, 0xa679438e, 0x49b40821,
    0xf61e2562, 0xc040b340, 0x265e5a51, 0xe9b6c7aa,
    0xd62f105d, 0x02441453, 0xd8a1e681, 0xe7d3fbc8,
    0x21e1cde6, 0xc33707d6, 0xf4d50d87, 0x455a14ed,
    0xa9e3e905, 0xfcefa3f8, 0x676f02d9, 0x8d2a4c8a,
    0xfffa3942, 0x8771f681, 0x6d9d6122, 0xfde5380c,
    0xa4beea44, 0x4bdecfa9, 0xf6bb4b60, 0xbebfbc70,
    0x289b7ec6, 0xeaa127fa, 0xd4ef3085, 0x04881d05,
    0xd9d4d039, 0xe6db99e5, 0x1fa27cf8, 0xc4ac5665,
    0xf4292244, 0x432aff97, 0xab9423a7, 0xfc93a039,
    0x655b59c3, 0x8f0ccc92, 0xffeff47d, 0x85845dd1,
    0x6fa87e4f, 0xfe2ce6e0, 0xa3014314, 0x4e0811a1,
    0xf7537e82, 0xbd3af235, 0x2ad7d2bb, 0xeb86d391
  ]"

definition md5_shift :: "nat list" where
  "md5_shift =
     concat (replicate 4 [7, 12, 17, 22]) @ concat (replicate 4 [5, 9, 14, 20]) @
     concat (replicate 4 [4, 11, 16, 23]) @ concat (replicate 4 [6, 10, 15, 21])"

fun le_word :: "byte list \<Rightarrow> u32" where
  "le_word [] = 0"
| "le_word (b # bs) = ucast b OR push_bit 8 (le_word bs)"

definition le_bytes :: "nat \<Rightarrow> 'a::len word \<Rightarrow> byte list" where
  "le_bytes n x = map (\<lambda>i. ucast (drop_bit (8 * i) x)) [0..<n]"

definition md5_words :: "byte list \<Rightarrow> u32 list" where
  "md5_words bs = map (\<lambda>i. le_word (take 4 (drop (4 * i) bs))) [0..<16]"

definition md5_step :: "u32 list \<Rightarrow> nat \<Rightarrow> u32 \<times> u32 \<times> u32 \<times> u32 \<Rightarrow> u32 \<times> u32 \<times> u32 \<times> u32" where
  "md5_step M i = (\<lambda>(a, b, c, d).
     let (f, g) =
       (if i < 16 then ((b AND c) OR (NOT b AND d), i)
        else if i < 32 then ((d AND b) OR (NOT d AND c), (5 * i + 1) mod 16)
        else if i < 48 then (b XOR c XOR d, (3 * i + 5) mod 16)
        else (c XOR (b OR NOT d), (7 * i) mod 16))
     in (d, b + word_rotl (md5_shift ! i) (f + a + md5_K ! i + M ! g), b, c))"

definition md5_block :: "byte list \<Rightarrow> u32 \<times> u32 \<times> u32 \<times> u32 \<Rightarrow> u32 \<times> u32 \<times> u32 \<times> u32" where
  "md5_block bs = (\<lambda>(a0, b0, c0, d0).
     let (a, b, c, d) = fold (md5_step (md5_words bs)) [0..<64] (a0, b0, c0, d0)
     in (a0 + a, b0 + b, c0 + c, d0 + d))"

function md5_blocks :: "byte list \<Rightarrow> u32 \<times> u32 \<times> u32 \<times> u32 \<Rightarrow> u32 \<times> u32 \<times> u32 \<times> u32" where
  "md5_blocks bs st =
     (if bs = [] then st else md5_blocks (drop 64 bs) (md5_block (take 64 bs) st))"
  by pat_completeness auto
termination
  by (relation "measure (\<lambda>(bs, st). length bs)") auto

declare md5_blocks.simps [simp del]

definition md5_pad :: "byte list \<Rightarrow> byte list" where
  "md5_pad bs =
     bs @ [0x80] @ replicate (nat ((55 - int (length bs)) mod 64)) 0 @ le_bytes 8 (word_of_nat (8 * length bs) :: 64 word)"

definition md5_Sum :: "byte list \<Rightarrow> byte list" where
  "md5_Sum bs =
     (let (a, b, c, d) =
        md5_blocks (md5_pad bs) (0x67452301, 0xefcdab89, 0x98badcfe, 0x10325476)
      in le_bytes 4 a @ le_bytes 4 b @ le_bytes 4 c @ le_bytes 4 d)"

definition bytes_of :: "string \<Rightarrow> byte list" where
  "bytes_of s = map of_char s"

lemma le_bytes_length [simp]: "length (le_bytes n x) = n"
  by (simp add: le_bytes_def)

lemma md5_Sum_length [simp]: "length (md5_Sum bs) = 16"
  by (simp add: md5_Sum_def split: prod.splits)

end
