(* ===== verification/Api.thy ===== *)
theory Api
  imports GoStd
begin

text \<open>
  The data exchanged by the discovery layer, \<^verbatim>\<open>discoverd/api/service.go\<close> and
  \<^verbatim>\<open>discoverd/api/error.go\<close>: applications, the services they provide and consume, and the
  routers (one per service, with the addresses that provide it and a 16-byte checksum).
\<close>

record MicroApp =
  ma_Addr :: string
  ma_Providers :: "string list"
  ma_Consumers :: "string list"

record AppService =
  as_Addr :: string
  as_Services :: "string list"

record AppStatus =
  IsLive :: bool
  RouterCS :: string

record NodeAddr =
  na_Node :: string
  na_Addr :: string

lemma NodeAddr_eta [simp]: "\<lparr>na_Node = na_Node a, na_Addr = na_Addr a\<rparr> = a"
  by (cases a) simp

record Router =
  r_Service :: string
  r_Addrs :: "NodeAddr list"
  r_Checksum :: "byte list"

record RouterTable =
  rt_Routers :: "Router list"
  rt_Checksum :: string

record InnerAppService =
  ias_NodeAddr :: NodeAddr
  ias_Services :: "string list"

record ApiError =
  err_Error :: string

definition NewError :: "string \<Rightarrow> ApiError" where
  "NewError msg = \<lparr>err_Error = msg\<rparr>"

end
