(* ===== verification/Cache.thy ===== *)
theory Cache
  imports Prelude
begin

text \<open>
  The expiring key-value store of \<^verbatim>\<open>discoverd/util/cache/cache.go\<close>.

  State: \<open>cache\<close> (default expiration, the item map, the janitor, the registered expiry handler).
  Durations are Go's \<^verbatim>\<open>int64\<close> nanoseconds, kept as 64-bit words and read with \<open>sint\<close>; instants are
  integers. Every call of \<^verbatim>\<open>time.Now\<close> in the code is one argument of the model, so an operation
  that reads the clock twice takes two readings and the sweep takes one reading per key.

  The locale \<open>lease_store\<close> is what the repository of registered applications relies on: entries
  live for a lease, can be renewed while they live, and are reported once when they are swept.
\<close>

section \<open>Items and the cache\<close>

record 'a item =
  Object :: 'a
  Expiration :: "time option"

text \<open>\<^verbatim>\<open>Expired\<close>: a nil expiration never expires; otherwise the expiration lies strictly before now.\<close>

definition item_Expired :: "'a item \<Rightarrow> time \<Rightarrow> bool" where
  "item_Expired it now = (case Expiration it of None \<Rightarrow> False | Some e \<Rightarrow> e < now)"

definition NoExpiration :: duration where
  "NoExpiration = - 1"

definition DefaultExpiration :: duration where
  "DefaultExpiration = 0"

record janitor =
  Interval :: duration

text \<open>The handler is a function value in the code; the model keeps its identity (type \<open>'h\<close>) and
  returns the call to it as a value.\<close>

record ('a, 'h) cache =
  defaultExpiration :: duration
  items :: "string \<rightharpoonup> 'a item"
  cache_janitor :: "janitor option"
  expiredHandler :: "'h option"

definition cache_RegExpiredHandler :: "'h \<Rightarrow> ('a, 'h) cache \<Rightarrow> ('a, 'h) cache" where
  "cache_RegExpiredHandler eh c = c\<lparr>expiredHandler := Some eh\<rparr>"

section \<open>Operations\<close>

definition cache_set :: "string \<Rightarrow> 'a \<Rightarrow> duration \<Rightarrow> time \<Rightarrow> ('a, 'h) cache \<Rightarrow> ('a, 'h) cache" where
  "cache_set k x d now c =
     (let d' = (if d = DefaultExpiration then defaultExpiration c else d);
          e = (if 0 < sint d' then Some (now + sint d') else None)
      in c\<lparr>items := (items c)(k \<mapsto> \<lparr>Object = x, Expiration = e\<rparr>)\<rparr>)"

definition cache_Set :: "string \<Rightarrow> 'a \<Rightarrow> duration \<Rightarrow> time \<Rightarrow> ('a, 'h) cache \<Rightarrow> ('a, 'h) cache" where
  "cache_Set k x d now c = cache_set k x d now c"

definition cache_get :: "string \<Rightarrow> time \<Rightarrow> ('a, 'h) cache \<Rightarrow> 'a option" where
  "cache_get k now c =
     (case items c k of
        None \<Rightarrow> None
      | Some it \<Rightarrow> if item_Expired it now then None else Some (Object it))"

definition cache_Get :: "string \<Rightarrow> time \<Rightarrow> ('a, 'h) cache \<Rightarrow> 'a option" where
  "cache_Get k now c = cache_get k now c"

text \<open>\<^verbatim>\<open>Add\<close> reads the clock once in \<^verbatim>\<open>get\<close> and once in \<^verbatim>\<open>set\<close>. \<open>Inl\<close> is the returned error.\<close>

definition cache_Add ::
  "string \<Rightarrow> 'a \<Rightarrow> duration \<Rightarrow> time \<Rightarrow> time \<Rightarrow> ('a, 'h) cache \<Rightarrow> (string + unit) \<times> ('a, 'h) cache" where
  "cache_Add k x d now1 now2 c =
     (case cache_get k now1 c of
        Some _ \<Rightarrow> (Inl (''Item '' @ k @ '' already exists''), c)
      | None \<Rightarrow> (Inr (), cache_set k x d now2 c))"

definition cache_Refresh ::
  "string \<Rightarrow> duration \<Rightarrow> time \<Rightarrow> time \<Rightarrow> ('a, 'h) cache \<Rightarrow> bool \<times> ('a, 'h) cache" where
  "cache_Refresh k d now1 now2 c =
     (case items c k of
        None \<Rightarrow> (False, c)
      | Some it \<Rightarrow>
          if item_Expired it now1 then (False, c)
          else
            (let d' = (if d = DefaultExpiration then defaultExpiration c else d);
                 e = (if 0 < sint d' then Some (now2 + sint d') else None)
             in (True, c\<lparr>items := (items c)(k \<mapsto> it\<lparr>Expiration := e\<rparr>)\<rparr>)))"

definition cache_delete :: "string \<Rightarrow> ('a, 'h) cache \<Rightarrow> ('a, 'h) cache" where
  "cache_delete k c = c\<lparr>items := (items c)(k := None)\<rparr>"

definition cache_Delete :: "string \<Rightarrow> ('a, 'h) cache \<Rightarrow> ('a, 'h) cache" where
  "cache_Delete k c = cache_delete k c"

text \<open>The loop of \<^verbatim>\<open>DeleteExpired\<close>: \<open>dm\<close> is \<open>None\<close> until the first expired item is met (the nil
  map); \<open>nowf k\<close> is the clock when key \<open>k\<close> is visited.\<close>

fun delete_expired_loop ::
  "(string \<Rightarrow> time) \<Rightarrow> string list \<Rightarrow> ('a, 'h) cache \<Rightarrow> (string \<rightharpoonup> 'a) option \<Rightarrow>
   ('a, 'h) cache \<times> (string \<rightharpoonup> 'a) option" where
  "delete_expired_loop nowf [] c dm = (c, dm)"
| "delete_expired_loop nowf (k # ks) c dm =
     (case items c k of
        None \<Rightarrow> delete_expired_loop nowf ks c dm
      | Some v \<Rightarrow>
          if item_Expired v (nowf k) then
            (let dm1 = (case dm of None \<Rightarrow> Map.empty | Some m \<Rightarrow> m)
             in delete_expired_loop nowf ks (cache_delete k c) (Some (dm1(k \<mapsto> Object v))))
          else delete_expired_loop nowf ks c dm)"

text \<open>The second component is the handler call that is spawned, if any: the handler and the map of
  what was deleted.\<close>

definition cache_DeleteExpired ::
  "string list \<Rightarrow> (string \<Rightarrow> time) \<Rightarrow> ('a, 'h) cache \<Rightarrow>
   ('a, 'h) cache \<times> ('h \<times> (string \<rightharpoonup> 'a)) option" where
  "cache_DeleteExpired ks nowf c =
     (let (c', dm) = delete_expired_loop nowf ks c None
      in (c', (case dm of
                 None \<Rightarrow> None
               | Some m \<Rightarrow> (case expiredHandler c' of None \<Rightarrow> None | Some h \<Rightarrow> Some (h, m)))))"

text \<open>\<^verbatim>\<open>Load\<close>: the decoder (package gob) is a parameter, its outcome on the reader an error or the
  decoded items.\<close>

fun load_loop ::
  "(string \<Rightarrow> time) \<Rightarrow> (string \<rightharpoonup> 'a item) \<Rightarrow> string list \<Rightarrow> ('a, 'h) cache \<Rightarrow> ('a, 'h) cache" where
  "load_loop nowf m [] c = c"
| "load_loop nowf m (k # ks) c =
     (case m k of
        None \<Rightarrow> load_loop nowf m ks c
      | Some v \<Rightarrow>
          (case items c k of
             None \<Rightarrow> load_loop nowf m ks (c\<lparr>items := (items c)(k \<mapsto> v)\<rparr>)
           | Some ov \<Rightarrow>
               if item_Expired ov (nowf k)
               then load_loop nowf m ks (c\<lparr>items := (items c)(k \<mapsto> v)\<rparr>)
               else load_loop nowf m ks c))"

definition cache_Load ::
  "('r \<Rightarrow> string + (string \<rightharpoonup> 'a item)) \<Rightarrow> 'r \<Rightarrow> string list \<Rightarrow> (string \<Rightarrow> time) \<Rightarrow>
   ('a, 'h) cache \<Rightarrow> (string + unit) \<times> ('a, 'h) cache" where
  "cache_Load decode r ks nowf c =
     (case decode r of
        Inl err \<Rightarrow> (Inl err, c)
      | Inr m \<Rightarrow> (Inr (), load_loop nowf m ks c))"

definition cache_Items :: "('a, 'h) cache \<Rightarrow> (string \<rightharpoonup> 'a item)" where
  "cache_Items c = items c"

definition cache_ItemCount :: "('a, 'h) cache \<Rightarrow> nat" where
  "cache_ItemCount c = card (dom (items c))"

definition cache_Flush :: "('a, 'h) cache \<Rightarrow> ('a, 'h) cache" where
  "cache_Flush c = c\<lparr>items := Map.empty\<rparr>"

section \<open>Construction and the janitor\<close>

definition newCache :: "duration \<Rightarrow> (string \<rightharpoonup> 'a item) \<Rightarrow> ('a, 'h) cache" where
  "newCache de m =
     (let de' = (if de = 0 then - 1 else de)
      in \<lparr>defaultExpiration = de', items = m, cache_janitor = None, expiredHandler = None\<rparr>)"

definition runJanitor :: "duration \<Rightarrow> ('a, 'h) cache \<Rightarrow> ('a, 'h) cache" where
  "runJanitor ci c = c\<lparr>cache_janitor := Some \<lparr>Interval = ci\<rparr>\<rparr>"

definition newCacheWithJanitor ::
  "duration \<Rightarrow> duration \<Rightarrow> (string \<rightharpoonup> 'a item) \<Rightarrow> ('a, 'h) cache" where
  "newCacheWithJanitor de ci m =
     (let c = newCache de m in if 0 < sint ci then runJanitor ci c else c)"

definition NewCache :: "duration \<Rightarrow> duration \<Rightarrow> ('a, 'h) cache" where
  "NewCache de ci = newCacheWithJanitor de ci Map.empty"

text \<open>The janitor goroutine: what its \<^verbatim>\<open>select\<close> receives, a tick (with the visiting order and the
  clock of that sweep) or the stop message, after which it returns.\<close>

datatype janitor_msg = Tick "string list" "string \<Rightarrow> time" | Stop

fun janitor_Run ::
  "janitor_msg list \<Rightarrow> ('a, 'h) cache \<Rightarrow> ('a, 'h) cache \<times> ('h \<times> (string \<rightharpoonup> 'a)) list" where
  "janitor_Run [] c = (c, [])"
| "janitor_Run (Stop # ms) c = (c, [])"
| "janitor_Run (Tick ks nowf # ms) c =
     (let (c1, call) = cache_DeleteExpired ks nowf c;
          (c2, calls) = janitor_Run ms c1
      in (c2, (case call of None \<Rightarrow> calls | Some h \<Rightarrow> h # calls)))"

section \<open>The entries alive at an instant\<close>

definition live :: "('a, 'h) cache \<Rightarrow> time \<Rightarrow> string \<rightharpoonup> 'a" where
  "live c t = (\<lambda>k. cache_get k t c)"

text \<open>The lease the default expiration grants: \<open>None\<close> is "for ever".\<close>

definition lease_of :: "('a, 'h) cache \<Rightarrow> time option" where
  "lease_of c =
     (if 0 < sint (defaultExpiration c) then Some (sint (defaultExpiration c)) else None)"

definition within :: "time \<Rightarrow> time option \<Rightarrow> time \<Rightarrow> bool" where
  "within t0 l t = (case l of None \<Rightarrow> True | Some d \<Rightarrow> t \<le> t0 + d)"

lemma item_Expired_simps [simp]:
  "item_Expired \<lparr>Object = x, Expiration = None\<rparr> t = False"
  "item_Expired \<lparr>Object = x, Expiration = Some e\<rparr> t = (e < t)"
  by (simp_all add: item_Expired_def)

lemma item_Expired_renewed [simp]:
  "item_Expired (it\<lparr>Expiration := None\<rparr>) t = False"
  "item_Expired (it\<lparr>Expiration := Some e\<rparr>) t = (e < t)"
  by (simp_all add: item_Expired_def)

lemma item_Expired_mono: "item_Expired it t \<Longrightarrow> t \<le> t' \<Longrightarrow> item_Expired it t'"
  by (auto simp: item_Expired_def split: option.splits)

lemma cache_delete_items [simp]: "items (cache_delete k c) = (items c)(k := None)"
  by (simp add: cache_delete_def)

lemma cache_delete_default [simp]:
  "defaultExpiration (cache_delete k c) = defaultExpiration c"
  "expiredHandler (cache_delete k c) = expiredHandler c"
  by (simp_all add: cache_delete_def)

lemma cache_set_fields [simp]:
  "defaultExpiration (cache_set k x d now c) = defaultExpiration c"
  "expiredHandler (cache_set k x d now c) = expiredHandler c"
  "dom (items (cache_set k x d now c)) = insert k (dom (items c))"
  by (simp_all add: cache_set_def Let_def)

lemma live_def2:
  "live c t k = (case items c k of None \<Rightarrow> None
     | Some it \<Rightarrow> if item_Expired it t then None else Some (Object it))"
  by (simp add: live_def cache_get_def)

lemma live_dom: "dom (live c t) \<subseteq> dom (items c)"
  by (auto simp: live_def2 split: option.splits)

lemma live_antimono: "live c t' k = Some x \<Longrightarrow> t \<le> t' \<Longrightarrow> live c t k = Some x"
  by (auto simp: live_def2 item_Expired_def split: option.splits if_splits)

lemma live_set_default:
  "live (cache_set k x DefaultExpiration now c) t =
     (if within now (lease_of c) t then (live c t)(k \<mapsto> x) else (live c t)(k := None))"
  by (rule ext) (auto simp: live_def2 cache_set_def within_def lease_of_def Let_def)

lemma live_delete: "live (cache_delete k c) t = (live c t)(k := None)"
  by (rule ext) (simp add: live_def2)

text \<open>Refreshing: succeeds exactly on a live entry and then grants a new lease from the second
  clock reading; a failed refresh changes nothing.\<close>

lemma cache_Refresh_fst: "fst (cache_Refresh k d t1 t2 c) \<longleftrightarrow> k \<in> dom (live c t1)"
  by (auto simp: cache_Refresh_def live_def2 Let_def split: option.splits)

lemma cache_Refresh_failed: "\<not> fst (cache_Refresh k d t1 t2 c) \<Longrightarrow> snd (cache_Refresh k d t1 t2 c) = c"
  by (auto simp: cache_Refresh_def Let_def split: option.splits)

lemma cache_Refresh_default [simp]:
  "defaultExpiration (snd (cache_Refresh k d t1 t2 c)) = defaultExpiration c"
  "expiredHandler (snd (cache_Refresh k d t1 t2 c)) = expiredHandler c"
  "dom (items (snd (cache_Refresh k d t1 t2 c))) = dom (items c)"
  by (auto simp: cache_Refresh_def Let_def split: option.splits)

lemma live_Refresh_default:
  "live c t1 k = Some x \<Longrightarrow>
   live (snd (cache_Refresh k DefaultExpiration t1 t2 c)) t =
     (if within t2 (lease_of c) t then (live c t)(k \<mapsto> x) else (live c t)(k := None))"
  by (rule ext)
    (auto simp: live_def2 cache_Refresh_def within_def lease_of_def Let_def
          split: option.splits if_splits)

section \<open>Sweeping\<close>

text \<open>What a sweep reports: the objects of the entries expired when they are visited.\<close>

definition expired_map :: "(string \<Rightarrow> time) \<Rightarrow> (string \<rightharpoonup> 'a item) \<Rightarrow> string \<rightharpoonup> 'a" where
  "expired_map nowf m = (\<lambda>k. case m k of None \<Rightarrow> None
     | Some it \<Rightarrow> if item_Expired it (nowf k) then Some (Object it) else None)"

definition unexpired_map :: "(string \<Rightarrow> time) \<Rightarrow> (string \<rightharpoonup> 'a item) \<Rightarrow> string \<rightharpoonup> 'a item" where
  "unexpired_map nowf m = (\<lambda>k. case m k of None \<Rightarrow> None
     | Some it \<Rightarrow> if item_Expired it (nowf k) then None else Some it)"

text \<open>The loop restricted to the keys it visits; \<open>dm\<close> accumulates.\<close>

lemma delete_expired_loop_items:
  "distinct ks \<Longrightarrow>
   items (fst (delete_expired_loop nowf ks c dm)) =
     (\<lambda>k. if k \<in> set ks then unexpired_map nowf (items c) k else items c k)"
  by (induction ks arbitrary: c dm)
    (auto simp: unexpired_map_def fun_eq_iff split: option.splits)

lemma delete_expired_loop_frame:
  "fst (delete_expired_loop nowf ks c dm) = c\<lparr>items := items (fst (delete_expired_loop nowf ks c dm))\<rparr>"
proof (induction ks arbitrary: c dm)
  case Nil
  then show ?case by simp
next
  case (Cons k ks)
  show ?case
    by (auto simp: Let_def cache_delete_def split: option.splits intro: Cons.IH[THEN trans])
qed

lemma expired_map_delete: "k \<noteq> a \<Longrightarrow> expired_map nowf ((items c)(a := None)) k = expired_map nowf (items c) k"
  by (simp add: expired_map_def)

lemma expired_map_visit:
  "items c a = Some v \<Longrightarrow> expired_map nowf (items c) a = (if item_Expired v (nowf a) then Some (Object v) else None)"
  "items c a = None \<Longrightarrow> expired_map nowf (items c) a = None"
  by (simp_all add: expired_map_def)

text \<open>Reading a possibly nil map.\<close>

definition nil_map :: "('k \<rightharpoonup> 'v) option \<Rightarrow> 'k \<rightharpoonup> 'v" where
  "nil_map dm = (case dm of None \<Rightarrow> Map.empty | Some m \<Rightarrow> m)"

lemma nil_map_simps [simp]: "nil_map None = Map.empty" "nil_map (Some m) = m"
  by (simp_all add: nil_map_def)

lemma delete_expired_loop_Cons:
  "delete_expired_loop nowf (a # ks) c dm =
     (if expired_map nowf (items c) a = None then delete_expired_loop nowf ks c dm
      else delete_expired_loop nowf ks (cache_delete a c)
             (Some ((nil_map dm)(a := expired_map nowf (items c) a))))"
  by (auto simp: expired_map_def nil_map_def split: option.splits)

lemma delete_expired_loop_reports:
  "distinct ks \<Longrightarrow>
   nil_map (snd (delete_expired_loop nowf ks c dm)) k =
     (if k \<in> set ks \<and> expired_map nowf (items c) k \<noteq> None
      then expired_map nowf (items c) k else nil_map dm k)"
  by (induction ks arbitrary: c dm)
    (auto simp del: delete_expired_loop.simps(2) not_None_eq
          simp: delete_expired_loop_Cons expired_map_delete)

lemma delete_expired_loop_nil_map:
  "distinct ks \<Longrightarrow> snd (delete_expired_loop nowf ks c dm) = None \<longleftrightarrow>
     dm = None \<and> (\<forall>k\<in>set ks. expired_map nowf (items c) k = None)"
proof (induction ks arbitrary: c dm)
  case Nil
  then show ?case by simp
next
  case (Cons a ks)
  have "k \<in> set ks \<Longrightarrow> k \<noteq> a" for k
    using Cons.prems by auto
  then show ?case
    using Cons by (auto simp del: delete_expired_loop.simps(2) not_None_eq
        simp: delete_expired_loop_Cons expired_map_delete)
qed

text \<open>The sweep as a whole, for any visiting order.\<close>

lemma DeleteExpired_items:
  "enumerates ks (items c) \<Longrightarrow>
   items (fst (cache_DeleteExpired ks nowf c)) = unexpired_map nowf (items c)"
  by (auto simp: cache_DeleteExpired_def case_prod_unfold Let_def delete_expired_loop_items
      enumerates_def fun_eq_iff unexpired_map_def split: option.splits)

lemma delete_expired_loop_fields [simp]:
  "defaultExpiration (fst (delete_expired_loop nowf ks c dm)) = defaultExpiration c"
  "expiredHandler (fst (delete_expired_loop nowf ks c dm)) = expiredHandler c"
  "cache_janitor (fst (delete_expired_loop nowf ks c dm)) = cache_janitor c"
  by (subst delete_expired_loop_frame, simp)+

lemma DeleteExpired_frame [simp]:
  "defaultExpiration (fst (cache_DeleteExpired ks nowf c)) = defaultExpiration c"
  "expiredHandler (fst (cache_DeleteExpired ks nowf c)) = expiredHandler c"
  "cache_janitor (fst (cache_DeleteExpired ks nowf c)) = cache_janitor c"
  by (simp_all add: cache_DeleteExpired_def case_prod_unfold Let_def)

lemma DeleteExpired_call:
  assumes "enumerates ks (items c)"
  shows "snd (cache_DeleteExpired ks nowf c) =
     (if expired_map nowf (items c) = Map.empty then None
      else map_option (\<lambda>h. (h, expired_map nowf (items c))) (expiredHandler c))"
proof -
  let ?dm = "snd (delete_expired_loop nowf ks c None)"
  have d: "distinct ks" and s: "set ks = dom (items c)"
    using assms by (simp_all add: enumerates_def)
  have out: "k \<notin> set ks \<Longrightarrow> expired_map nowf (items c) k = None" for k
    by (auto simp: s expired_map_def split: option.splits)
  have m: "nil_map ?dm = expired_map nowf (items c)"
    by (rule ext) (metis delete_expired_loop_reports [OF d] nil_map_simps(1) out)
  have n: "?dm = None \<longleftrightarrow> expired_map nowf (items c) = Map.empty"
    unfolding delete_expired_loop_nil_map [OF d] using out by (auto simp: fun_eq_iff)
  show ?thesis
    using m n by (auto simp: cache_DeleteExpired_def case_prod_unfold Let_def split: option.splits)
qed

lemma live_unexpired:
  "k \<in> dom (items c) \<Longrightarrow> nowf k \<le> t \<Longrightarrow> items c' = unexpired_map nowf (items c) \<Longrightarrow>
   live c' t k = live c t k"
  by (auto simp: live_def2 unexpired_map_def dest: item_Expired_mono split: option.splits)

lemma live_DeleteExpired:
  assumes "enumerates ks (items c)" and "\<And>k. k \<in> dom (items c) \<Longrightarrow> nowf k \<le> t"
  shows "live (fst (cache_DeleteExpired ks nowf c)) t = live c t"
proof (rule ext)
  fix k
  show "live (fst (cache_DeleteExpired ks nowf c)) t k = live c t k"
  proof (cases "k \<in> dom (items c)")
    case True
    then show ?thesis
      using assms live_unexpired [where nowf = nowf, OF True assms(2) [OF True] DeleteExpired_items [OF assms(1)]]
      by simp
  next
    case False
    then show ?thesis
      by (auto simp: live_def2 DeleteExpired_items [OF assms(1)] unexpired_map_def
          split: option.splits)
  qed
qed

section \<open>The contract: a store of leases\<close>

text \<open>
  What a client of the cache relies on when it uses the default expiration: \<open>put\<close> and a successful
  \<open>renew\<close> make an entry live for one lease, \<open>renew\<close> succeeds exactly on live entries, a \<open>sweep\<close>
  changes nothing that is live at or after the sweep, and reports only entries that are not.
\<close>

locale lease_store =
  fixes alive :: "'s \<Rightarrow> time \<Rightarrow> string \<rightharpoonup> 'a"
    and lease :: "'s \<Rightarrow> time option"
    and put :: "string \<Rightarrow> 'a \<Rightarrow> time \<Rightarrow> 's \<Rightarrow> 's"
    and renew :: "string \<Rightarrow> time \<Rightarrow> time \<Rightarrow> 's \<Rightarrow> bool \<times> 's"
    and sweep :: "string list \<Rightarrow> (string \<Rightarrow> time) \<Rightarrow> 's \<Rightarrow> 's \<times> (string \<rightharpoonup> 'a)"
    and visits :: "string list \<Rightarrow> 's \<Rightarrow> bool"
  assumes alive_put: "alive (put k x now s) t =
      (if within now (lease s) t then (alive s t)(k \<mapsto> x) else (alive s t)(k := None))"
    and renew_iff: "fst (renew k t1 t2 s) \<longleftrightarrow> k \<in> dom (alive s t1)"
    and renew_failed: "\<not> fst (renew k t1 t2 s) \<Longrightarrow> snd (renew k t1 t2 s) = s"
    and alive_renew: "alive s t1 k = Some x \<Longrightarrow> alive (snd (renew k t1 t2 s)) t =
      (if within t2 (lease s) t then (alive s t)(k \<mapsto> x) else (alive s t)(k := None))"
    and alive_sweep: "visits ks s \<Longrightarrow> (\<And>k. k \<in> set ks \<Longrightarrow> nowf k \<le> t) \<Longrightarrow>
      alive (fst (sweep ks nowf s)) t = alive s t"
    and sweep_reports: "visits ks s \<Longrightarrow> snd (sweep ks nowf s) k = Some x \<Longrightarrow> nowf k \<le> t \<Longrightarrow>
      alive s t k = None"
    and alive_antimono: "alive s t' k = Some x \<Longrightarrow> t \<le> t' \<Longrightarrow> alive s t k = Some x"
    and lease_put: "lease (put k x now s) = lease s"
    and lease_renew: "lease (snd (renew k t1 t2 s)) = lease s"
    and lease_sweep: "lease (fst (sweep ks nowf s)) = lease s"
begin

lemmas lease_same = lease_put lease_renew lease_sweep

lemma put_self: "within now (lease s) t \<Longrightarrow> alive (put k x now s) t k = Some x"
  by (simp add: alive_put)

lemma put_other: "j \<noteq> k \<Longrightarrow> alive (put k x now s) t j = alive s t j"
  by (simp add: alive_put)

lemma renew_other: "j \<noteq> k \<Longrightarrow> alive (snd (renew k t1 t2 s)) t j = alive s t j"
proof (cases "alive s t1 k")
  case None
  then show ?thesis using renew_iff renew_failed by (metis domIff)
qed (simp add: alive_renew)

lemma renew_self:
  assumes "alive s t1 k = Some x" and "within t2 (lease s) t"
  shows "fst (renew k t1 t2 s)" and "alive (snd (renew k t1 t2 s)) t k = Some x"
  using assms by (auto simp: renew_iff alive_renew)

text \<open>A lease that has run out cannot be renewed.\<close>

lemma lapsed_not_renewed:
  assumes "alive s t0 k = None" and "t0 \<le> t1"
  shows "\<not> fst (renew k t1 t2 s)" and "snd (renew k t1 t2 s) = s"
proof -
  show n: "\<not> fst (renew k t1 t2 s)"
    using assms alive_antimono renew_iff by (metis domD option.discI)
  then show "snd (renew k t1 t2 s) = s" by (rule renew_failed)
qed

text \<open>A sweep never reports an entry that is live after it.\<close>

lemma sweep_spares:
  "visits ks s \<Longrightarrow> nowf k \<le> t \<Longrightarrow> alive s t k = Some x \<Longrightarrow> snd (sweep ks nowf s) k = None"
  using sweep_reports by (metis option.discI option.exhaust)

end

text \<open>The cache provides the contract with the default expiration.\<close>

definition cache_sweep ::
  "string list \<Rightarrow> (string \<Rightarrow> time) \<Rightarrow> ('a, 'h) cache \<Rightarrow> ('a, 'h) cache \<times> (string \<rightharpoonup> 'a)" where
  "cache_sweep ks nowf c =
     (let (c', call) = cache_DeleteExpired ks nowf c
      in (c', (case call of None \<Rightarrow> Map.empty | Some (h, m) \<Rightarrow> m)))"

lemma cache_sweep_fst [simp]: "fst (cache_sweep ks nowf c) = fst (cache_DeleteExpired ks nowf c)"
  by (simp add: cache_sweep_def case_prod_unfold Let_def)

lemma cache_sweep_snd:
  "enumerates ks (items c) \<Longrightarrow>
   snd (cache_sweep ks nowf c) =
     (if expiredHandler c = None then Map.empty else expired_map nowf (items c))"
  by (auto simp: cache_sweep_def case_prod_unfold Let_def DeleteExpired_call split: option.splits)

lemma expired_map_not_live:
  "expired_map nowf (items c) k = Some x \<Longrightarrow> nowf k \<le> t \<Longrightarrow> live c t k = None"
  by (auto simp: expired_map_def live_def2 dest: item_Expired_mono split: option.splits if_splits)

lemma lease_of_same:
  "defaultExpiration c' = defaultExpiration c \<Longrightarrow> lease_of c' = lease_of c"
  by (simp add: lease_of_def)

interpretation cl: lease_store live lease_of
    "\<lambda>k x now. cache_Set k x DefaultExpiration now"
    "\<lambda>k t1 t2. cache_Refresh k DefaultExpiration t1 t2"
    cache_sweep "\<lambda>ks c. enumerates ks (items c)"
proof unfold_locales
  fix ks t and nowf :: "string \<Rightarrow> time" and s :: "('a, 'h) cache"
  assume "enumerates ks (items s)" and "\<And>k. k \<in> set ks \<Longrightarrow> nowf k \<le> t"
  then show "live (fst (cache_sweep ks nowf s)) t = live s t"
    by (simp add: live_DeleteExpired enumerates_def)
next
  fix ks k x t and nowf :: "string \<Rightarrow> time" and s :: "('a, 'h) cache"
  assume "enumerates ks (items s)" and "snd (cache_sweep ks nowf s) k = Some x" and "nowf k \<le> t"
  then show "live s t k = None"
    by (auto simp: cache_sweep_snd split: if_splits intro: expired_map_not_live)
qed (auto simp: cache_Set_def live_set_default cache_Refresh_fst cache_Refresh_failed
      live_Refresh_default intro: live_antimono lease_of_same)

section \<open>Runs of the cache\<close>

text \<open>Any sequence of operations, with whatever clock readings; a step returns what the expiry
  handler is called with.\<close>

datatype 'a cache_op =
    OSet string 'a duration time
  | OAdd string 'a duration time time
  | ORefresh string duration time time
  | ODelete string
  | OFlush
  | OSweep "string list" "string \<Rightarrow> time"

fun cache_step :: "'a cache_op \<Rightarrow> ('a, 'h) cache \<Rightarrow> ('a, 'h) cache \<times> (string \<rightharpoonup> 'a)" where
  "cache_step (OSet k x d now) c = (cache_Set k x d now c, Map.empty)"
| "cache_step (OAdd k x d t1 t2) c = (snd (cache_Add k x d t1 t2 c), Map.empty)"
| "cache_step (ORefresh k d t1 t2) c = (snd (cache_Refresh k d t1 t2 c), Map.empty)"
| "cache_step (ODelete k) c = (cache_Delete k c, Map.empty)"
| "cache_step OFlush c = (cache_Flush c, Map.empty)"
| "cache_step (OSweep ks nowf) c = cache_sweep ks nowf c"

fun cache_run :: "'a cache_op list \<Rightarrow> ('a, 'h) cache \<Rightarrow> ('a, 'h) cache \<times> (string \<rightharpoonup> 'a) list" where
  "cache_run [] c = (c, [])"
| "cache_run (p # ps) c =
     (let (c1, r) = cache_step p c; (c2, rs) = cache_run ps c1 in (c2, r # rs))"

fun stores :: "string \<Rightarrow> 'a cache_op \<Rightarrow> bool" where
  "stores k (OSet j x d t) = (j = k)"
| "stores k (OAdd j x d t1 t2) = (j = k)"
| "stores k _ = False"

definition times_stored :: "string \<Rightarrow> 'a cache_op list \<Rightarrow> nat" where
  "times_stored k ps = length (filter (stores k) ps)"

definition times_reported :: "string \<Rightarrow> (string \<rightharpoonup> 'a) list \<Rightarrow> nat" where
  "times_reported k rs = length (filter (\<lambda>r. r k \<noteq> None) rs)"

definition held :: "string \<Rightarrow> ('a, 'h) cache \<Rightarrow> nat" where
  "held k c = (if items c k = None then 0 else 1)"

lemma delete_expired_loop_shrinks:
  "items c k = None \<Longrightarrow> items (fst (delete_expired_loop nowf ks c dm)) k = None"
  by (induction ks arbitrary: c dm) (auto simp: Let_def split: option.splits)

lemma delete_expired_loop_moves:
  "nil_map dm k = None \<Longrightarrow> nil_map (snd (delete_expired_loop nowf ks c dm)) k \<noteq> None \<Longrightarrow>
   items c k \<noteq> None \<and> items (fst (delete_expired_loop nowf ks c dm)) k = None"
proof (induction ks arbitrary: c dm)
  case Nil
  then show ?case by simp
next
  case (Cons a ks)
  show ?case
  proof (cases "expired_map nowf (items c) a = None \<or> a \<noteq> k")
    case True
    then show ?thesis
      using Cons.prems Cons.IH [of dm c]
        Cons.IH [of "Some ((nil_map dm)(a := expired_map nowf (items c) a))" "cache_delete a c"]
      by (auto simp del: delete_expired_loop.simps(2) not_None_eq
          simp: delete_expired_loop_Cons split: if_splits)
  next
    case False
    then show ?thesis
      by (auto simp del: delete_expired_loop.simps(2)
          simp: delete_expired_loop_Cons delete_expired_loop_shrinks expired_map_def
          split: option.splits)
  qed
qed

lemma cache_sweep_reported:
  "snd (cache_sweep ks nowf c) k \<noteq> None \<Longrightarrow>
   nil_map (snd (delete_expired_loop nowf ks c None)) k \<noteq> None"
  by (auto simp: cache_sweep_def cache_DeleteExpired_def case_prod_unfold Let_def
      split: option.splits)

lemma cache_step_accounts:
  "(if snd (cache_step p c) k = None then 0 else 1) + held k (fst (cache_step p c))
     \<le> (if stores k p then 1 else 0) + held k c"
proof (cases p)
  case (OSweep ks nowf)
  have f: "items (fst (cache_DeleteExpired ks nowf c)) = items (fst (delete_expired_loop nowf ks c None))"
    by (simp add: cache_DeleteExpired_def case_prod_unfold Let_def)
  show ?thesis
    using OSweep cache_sweep_reported [of ks nowf c k] delete_expired_loop_moves [of None k nowf ks c]
      delete_expired_loop_shrinks [of c k nowf ks None]
    by (auto simp: held_def f)
qed (auto simp: held_def cache_Set_def cache_set_def cache_Add_def cache_Refresh_def
      cache_Delete_def cache_Flush_def Let_def split: option.splits)

lemma cache_run_accounts:
  "times_reported k (snd (cache_run ps c)) + held k (fst (cache_run ps c))
     \<le> times_stored k ps + held k c"
proof (induction ps arbitrary: c)
  case Nil
  then show ?case by (simp add: times_reported_def times_stored_def)
next
  case (Cons p ps)
  show ?case
    using Cons.IH [of "fst (cache_step p c)"] cache_step_accounts [of p c k]
    by (auto simp: times_reported_def times_stored_def case_prod_unfold Let_def split: if_splits)
qed

section \<open>Loading\<close>

lemma load_loop_items:
  "distinct ks \<Longrightarrow>
   items (load_loop nowf m ks c) =
     (\<lambda>k. if k \<in> set ks \<and> m k \<noteq> None \<and> unexpired_map nowf (items c) k = None then m k
          else items c k)"
  by (induction ks arbitrary: c)
    (auto simp: unexpired_map_def fun_eq_iff split: option.splits if_splits)

lemma load_loop_frame [simp]:
  "defaultExpiration (load_loop nowf m ks c) = defaultExpiration c"
  "expiredHandler (load_loop nowf m ks c) = expiredHandler c"
  by (induction ks arbitrary: c) (auto split: option.splits)

section \<open>Properties\<close>

text \<open>C1. The sweep (\<^verbatim>\<open>DeleteExpired\<close>), in whatever order \<^verbatim>\<open>range\<close> visits the keys and whatever the
  clock shows at each visit, removes exactly the entries expired at their visit and keeps the
  others as they were; it spawns the expiry handler exactly when something was removed and a
  handler is registered, with exactly the removed objects; and no lookup at or after the sweep
  can tell the difference.\<close>

theorem DeleteExpired_exact:
  assumes "enumerates ks (items c)" and "\<forall>k. nowf k \<le> t"
  shows "items (fst (cache_DeleteExpired ks nowf c)) = unexpired_map nowf (items c) \<and>
    snd (cache_DeleteExpired ks nowf c) =
      (if expired_map nowf (items c) = Map.empty then None
       else map_option (\<lambda>h. (h, expired_map nowf (items c))) (expiredHandler c)) \<and>
    cache_Get k t (fst (cache_DeleteExpired ks nowf c)) = cache_Get k t c"
proof -
  have "live (fst (cache_DeleteExpired ks nowf c)) t = live c t"
    using assms by (intro live_DeleteExpired) auto
  then have "cache_Get k t (fst (cache_DeleteExpired ks nowf c)) = cache_Get k t c"
    by (simp add: live_def cache_Get_def fun_eq_iff)
  then show ?thesis by (simp add: DeleteExpired_items DeleteExpired_call assms)
qed

definition two_items :: "(nat, nat) cache" where
  "two_items = cache_Set ''b'' 2 50 0 (cache_Set ''a'' 1 DefaultExpiration 0
     (cache_RegExpiredHandler 7 (NewCache 10 10)))"

theorem DeleteExpired_exact_witness:
  "items (fst (cache_DeleteExpired [''a'', ''b''] (\<lambda>_. 20) two_items)) ''a'' = None \<and>
   snd (cache_DeleteExpired [''a'', ''b''] (\<lambda>_. 20) two_items) = Some (7, [''a'' \<mapsto> 1]) \<and>
   cache_Get ''b'' 30 (fst (cache_DeleteExpired [''a'', ''b''] (\<lambda>_. 20) two_items)) = Some 2"
proof -
  have e: "enumerates [''a'', ''b''] (items two_items)"
    by (auto simp: two_items_def cache_Set_def cache_set_def NewCache_def enumerates_def
        newCacheWithJanitor_def newCache_def runJanitor_def cache_RegExpiredHandler_def Let_def)
  have i: "items two_items = [''a'' \<mapsto> \<lparr>Object = 1, Expiration = Some 10\<rparr>,
      ''b'' \<mapsto> \<lparr>Object = 2, Expiration = Some 50\<rparr>]"
    and h: "expiredHandler two_items = Some 7"
    by (auto simp: two_items_def cache_Set_def cache_set_def NewCache_def fun_eq_iff
        newCacheWithJanitor_def newCache_def runJanitor_def cache_RegExpiredHandler_def Let_def
        DefaultExpiration_def)
  have x: "expired_map (\<lambda>_. 20) (items two_items) = [''a'' \<mapsto> 1]"
    by (rule ext) (simp add: i expired_map_def)
  have u: "unexpired_map (\<lambda>_. 20) (items two_items) ''a'' = None"
    by (simp add: i unexpired_map_def)
  have g: "cache_Get ''b'' 30 two_items = Some 2"
    by (simp add: i cache_Get_def cache_get_def)
  show ?thesis
    using DeleteExpired_exact [OF e, of "\<lambda>_. 20" 30 "''b''"] x u g h
    by (simp del: map_upd_eqD1)
qed

text \<open>C2. The expiry handler is told about a key at most once per store of it: over any run of the
  cache's operations other than loading a file, which nothing in the program does, with any clock, the number of handler calls that mention a key is at most the number of
  \<^verbatim>\<open>Set\<close> and \<^verbatim>\<open>Add\<close> calls for it, plus one if it was present at the start.\<close>

theorem reports_at_most_stores:
  "times_reported k (snd (cache_run ps c)) \<le> times_stored k ps + (if items c k = None then 0 else 1)"
  using cache_run_accounts [of k ps c] by (simp add: held_def)

text \<open>\<^verbatim>\<open>Refresh\<close> with the default duration answers true exactly for a key that \<^verbatim>\<open>Get\<close> would find
  at its first clock reading; then the key is found, with the object it had, exactly until one
  default duration after the second reading (for ever if that duration is not positive), and no
  other key changes. Otherwise it leaves the cache as it was.\<close>

theorem Refresh_renews_exactly_live:
  "(case cache_Get k t1 c of
      None \<Rightarrow> cache_Refresh k DefaultExpiration t1 t2 c = (False, c)
    | Some x \<Rightarrow>
        (\<exists>c'. cache_Refresh k DefaultExpiration t1 t2 c = (True, c') \<and>
          (\<forall>t. cache_Get k t c' = (if within t2 (lease_of c) t then Some x else None)) \<and>
          (\<forall>t j. cache_Get j t c' = (if j = k then cache_Get k t c' else cache_Get j t c))))"
proof (cases "live c t1 k")
  case None
  then have "fst (cache_Refresh k DefaultExpiration t1 t2 c) = False"
    using cl.renew_iff by (metis domIff)
  then have "cache_Refresh k DefaultExpiration t1 t2 c = (False, c)"
    using cl.renew_failed by (metis prod.collapse)
  with None show ?thesis by (simp add: live_def cache_Get_def)
next
  case (Some x)
  let ?c' = "snd (cache_Refresh k DefaultExpiration t1 t2 c)"
  have "cache_Refresh k DefaultExpiration t1 t2 c = (True, ?c')"
    using Some cl.renew_iff by (metis domI prod.collapse)
  moreover have "live ?c' t j = (if j = k then if within t2 (lease_of c) t then Some x else None
      else live c t j)" for t j
    using cl.alive_renew [OF Some] cl.renew_other [of j k] by simp
  ultimately show ?thesis
    using Some by (auto simp: live_def cache_Get_def intro!: exI [of _ ?c'])
qed

end
