(* ===== verification/Repo.thy ===== *)
theory Repo
  imports Api Cache
begin

text \<open>
  The repository of applications and routers, \<^verbatim>\<open>discoverd/msd/msd_repo.go\<close>.

  State: \<open>repo\<close>, the cache of registered applications and the router table (a map from service
  names to routers). The calls the repository makes to its cluster are returned as values, in
  order. A read of \<^verbatim>\<open>Checksum[idx]\<close> beyond the end of a checksum is \<open>Panic\<close>.

  \<open>regs\<close> is the abstract table: the set of (service, node, address) triples. The operations on
  routers refine set operations on it, and the checksums are a function of it.
\<close>

section \<open>State and checksums\<close>

datatype cluster_call = RegisterService AppService | UnregisterService string

type_synonym routers = "string \<rightharpoonup> Router"

record repo =
  apps :: "(MicroApp, unit) cache"
  routers :: routers

definition NewDiscoverdRepo :: "duration \<Rightarrow> repo" where
  "NewDiscoverdRepo ttl =
     \<lparr>apps = cache_RegExpiredHandler () (NewCache ttl ttl), routers = Map.empty\<rparr>"

text \<open>\<^verbatim>\<open>sum[idx] += cs[idx]\<close> for the sixteen positions; the sums wrap in a byte.\<close>

definition add16 :: "byte list \<Rightarrow> byte list \<Rightarrow> byte list go" where
  "add16 ck cs = (if length cs < 16 then Panic else Ret (map2 (+) ck (take 16 cs)))"

fun calcChecksum_loop :: "NodeAddr list \<Rightarrow> byte list \<Rightarrow> byte list" where
  "calcChecksum_loop [] acc = acc"
| "calcChecksum_loop (s # ss) acc =
     calcChecksum_loop ss (map2 (+) acc (md5_Sum (bytes_of (na_Addr s))))"

definition calcChecksum :: "NodeAddr list \<Rightarrow> byte list" where
  "calcChecksum ss = calcChecksum_loop ss (replicate 16 0)"

fun sumCheckSums :: "routers \<Rightarrow> string list \<Rightarrow> byte list \<Rightarrow> byte list go" where
  "sumCheckSums rs [] ck = Ret ck"
| "sumCheckSums rs (v # vs) ck =
     (case rs v of
        None \<Rightarrow> sumCheckSums rs vs ck
      | Some rt \<Rightarrow> go_bind (add16 ck (r_Checksum rt)) (sumCheckSums rs vs))"

definition calcRouterCheckSum :: "string \<Rightarrow> time \<Rightarrow> repo \<Rightarrow> string go" where
  "calcRouterCheckSum addr now s =
     go_bind
       (case cache_Get addr now (apps s) of
          None \<Rightarrow> Ret (replicate 16 0)
        | Some app \<Rightarrow> sumCheckSums (routers s) (ma_Consumers app) (replicate 16 0))
       (\<lambda>ck. Ret (hex_EncodeToString ck))"

fun sumRouters :: "Router list \<Rightarrow> byte list \<Rightarrow> byte list go" where
  "sumRouters [] ck = Ret ck"
| "sumRouters (rt # rts) ck = go_bind (add16 ck (r_Checksum rt)) (sumRouters rts)"

fun selectRouters :: "routers \<Rightarrow> string list \<Rightarrow> Router list" where
  "selectRouters rs [] = []"
| "selectRouters rs (v # vs) =
     (case rs v of None \<Rightarrow> selectRouters rs vs | Some r \<Rightarrow> r # selectRouters rs vs)"

text \<open>The nil pointer returned for an unknown application is \<open>None\<close>.\<close>

definition calcRouterTable :: "string \<Rightarrow> time \<Rightarrow> repo \<Rightarrow> RouterTable option go" where
  "calcRouterTable addr now s =
     (case cache_Get addr now (apps s) of
        None \<Rightarrow> Ret None
      | Some app \<Rightarrow>
          (let rts = selectRouters (routers s) (ma_Consumers app)
           in go_bind
                (if length rts > 0
                 then go_bind (sumRouters rts (replicate 16 0)) (\<lambda>ck. Ret (hex_EncodeToString ck))
                 else Ret '''')
                (\<lambda>checksum. Ret (Some \<lparr>rt_Routers = rts, rt_Checksum = checksum\<rparr>))))"

section \<open>Operations on applications\<close>

fun OnAppExpired :: "string list \<Rightarrow> (string \<rightharpoonup> MicroApp) \<Rightarrow> cluster_call list" where
  "OnAppExpired [] dm = []"
| "OnAppExpired (k # ks) dm = UnregisterService k # OnAppExpired ks dm"

definition repo_Register :: "MicroApp \<Rightarrow> time \<Rightarrow> repo \<Rightarrow> repo \<times> cluster_call list" where
  "repo_Register ma now s =
     (s\<lparr>apps := cache_Set (ma_Addr ma) ma DefaultExpiration now (apps s)\<rparr>,
      [RegisterService \<lparr>as_Addr = ma_Addr ma, as_Services = ma_Providers ma\<rparr>])"

text \<open>The janitor's tick on the application cache, with the registered handler run on what it
  deleted (\<open>ks'\<close> is the order in which the handler ranges over the deleted entries).\<close>

definition repo_Tick ::
  "string list \<Rightarrow> (string \<Rightarrow> time) \<Rightarrow> string list \<Rightarrow> repo \<Rightarrow> repo \<times> cluster_call list" where
  "repo_Tick ks nowf ks' s =
     (let (c', call) = cache_DeleteExpired ks nowf (apps s)
      in (s\<lparr>apps := c'\<rparr>, (case call of None \<Rightarrow> [] | Some (_, dm) \<Rightarrow> OnAppExpired ks' dm)))"

definition repo_Refresh ::
  "string \<Rightarrow> time \<Rightarrow> time \<Rightarrow> time \<Rightarrow> repo \<Rightarrow> AppStatus go \<times> repo" where
  "repo_Refresh addr now1 now2 now3 s =
     (let (isLive, c') = cache_Refresh addr DefaultExpiration now1 now2 (apps s);
          s' = s\<lparr>apps := c'\<rparr>
      in (go_bind (calcRouterCheckSum addr now3 s')
            (\<lambda>cs. Ret \<lparr>IsLive = isLive, RouterCS = cs\<rparr>), s'))"

definition repo_GetRouterTable :: "string \<Rightarrow> time \<Rightarrow> repo \<Rightarrow> RouterTable option go" where
  "repo_GetRouterTable addr now s = calcRouterTable addr now s"

text \<open>\<^verbatim>\<open>ms[idx] = x; idx++\<close> over a slice made beforehand.\<close>

fun fill :: "'a list \<Rightarrow> nat \<Rightarrow> 'a list \<Rightarrow> 'a list go" where
  "fill ms idx [] = Ret ms"
| "fill ms idx (x # xs) =
     (if idx < length ms then fill (ms[idx := x]) (Suc idx) xs else Panic)"

text \<open>Listing the applications takes the number and the items under separate locks: \<open>s0\<close> is the repository when the number is
  taken and the slice made, \<open>s\<close> the repository when the items are copied in. The code does the copying without a lock, on the cache's
  own map; here it is one step, since Go promises nothing for a map that is written while it is ranged over.\<close>

definition repo_ListMicroApps :: "repo \<Rightarrow> string list \<Rightarrow> repo \<Rightarrow> MicroApp list go" where
  "repo_ListMicroApps s0 ks s =
     fill (replicate (cache_ItemCount (apps s0))
             \<lparr>ma_Addr = [], ma_Providers = [], ma_Consumers = []\<rparr>) 0
          (List.map_filter (\<lambda>k. map_option Object (cache_Items (apps s) k)) ks)"

definition repo_ListRouters :: "string list \<Rightarrow> repo \<Rightarrow> Router list go" where
  "repo_ListRouters ks s =
     fill (replicate (card (dom (routers s))) \<lparr>r_Service = [], r_Addrs = [], r_Checksum = []\<rparr>) 0
          (List.map_filter (\<lambda>k. routers s k) ks)"

section \<open>Operations on routers\<close>

definition UpdateRouters :: "string list \<Rightarrow> Router list \<Rightarrow> routers \<Rightarrow> routers" where
  "UpdateRouters ks rs m =
     fold (\<lambda>v m. m(r_Service v \<mapsto> v)) rs (fold (\<lambda>k m. m(k := None)) ks m)"

text \<open>The body of the removal loops: positions are tried from the last to the first, a matching one
  is cut out, and the router is rebuilt from what is left or deleted when nothing is left.\<close>

definition rebuild :: "string \<Rightarrow> NodeAddr list \<Rightarrow> Router option" where
  "rebuild k addrs =
     (if length addrs = 0 then None
      else Some \<lparr>r_Service = k, r_Addrs = addrs, r_Checksum = calcChecksum addrs\<rparr>)"

definition RemoveRouterByHost :: "string list \<Rightarrow> string \<Rightarrow> routers \<Rightarrow> routers" where
  "RemoveRouterByHost ks node m =
     map_loop (\<lambda>k v. rebuild k (cut_back (\<lambda>a. na_Node a = node) (length (r_Addrs v)) (r_Addrs v))) ks m"

definition removeRouter :: "string list \<Rightarrow> string \<Rightarrow> routers \<Rightarrow> routers" where
  "removeRouter ks addr m =
     map_loop (\<lambda>k v. rebuild k (cut_back (\<lambda>a. na_Addr a = addr) (length (r_Addrs v)) (r_Addrs v))) ks m"

definition RemoveRouter :: "string list \<Rightarrow> string \<Rightarrow> routers \<Rightarrow> routers" where
  "RemoveRouter ks addr m = removeRouter ks addr m"

fun AddRouter_loop :: "string \<Rightarrow> string \<Rightarrow> string list \<Rightarrow> routers \<Rightarrow> routers" where
  "AddRouter_loop node addr [] m = m"
| "AddRouter_loop node addr (ms # mss) m =
     (let nas = [\<lparr>na_Node = node, na_Addr = addr\<rparr>] in
      AddRouter_loop node addr mss
        (case m ms of
           None \<Rightarrow> m(ms \<mapsto> \<lparr>r_Service = ms, r_Addrs = nas, r_Checksum = calcChecksum nas\<rparr>)
         | Some router \<Rightarrow>
             (let addrs = r_Addrs router in
              if list_ex (\<lambda>v. na_Addr v = addr) addrs then m
              else (let addrs' = addrs @ nas in
                    m(ms \<mapsto> \<lparr>r_Service = ms, r_Addrs = addrs', r_Checksum = calcChecksum addrs'\<rparr>)))))"

definition AddRouter :: "string list \<Rightarrow> string \<Rightarrow> string \<Rightarrow> string list \<Rightarrow> routers \<Rightarrow> routers" where
  "AddRouter ks node addr mss m = AddRouter_loop node addr mss (removeRouter ks addr m)"

definition repo_UpdateRouters :: "string list \<Rightarrow> Router list \<Rightarrow> repo \<Rightarrow> repo" where
  "repo_UpdateRouters ks rs s = s\<lparr>routers := UpdateRouters ks rs (routers s)\<rparr>"

definition repo_RemoveRouterByHost :: "string list \<Rightarrow> string \<Rightarrow> repo \<Rightarrow> repo" where
  "repo_RemoveRouterByHost ks node s = s\<lparr>routers := RemoveRouterByHost ks node (routers s)\<rparr>"

definition repo_RemoveRouter :: "string list \<Rightarrow> string \<Rightarrow> repo \<Rightarrow> repo" where
  "repo_RemoveRouter ks addr s = s\<lparr>routers := RemoveRouter ks addr (routers s)\<rparr>"

definition repo_AddRouter :: "string list \<Rightarrow> string \<Rightarrow> string \<Rightarrow> string list \<Rightarrow> repo \<Rightarrow> repo" where
  "repo_AddRouter ks node addr mss s = s\<lparr>routers := AddRouter ks node addr mss (routers s)\<rparr>"

end
