(* ===== verification/Routing.thy ===== *)
theory Routing
  imports Repo
begin

text \<open>
  What the router table of \<^verbatim>\<open>discoverd/msd/msd_repo.go\<close> promises: its invariant, its refinement of
  a set of (service, node, address) triples, checksums that depend on that set only, and the
  agreement of nodes that saw the same events.
\<close>

section \<open>The abstract table\<close>

type_synonym triple = "string \<times> string \<times> string"

definition regs :: "routers \<Rightarrow> triple set" where
  "regs m = {(k, na_Node a, na_Addr a) | k r a. m k = Some r \<and> a \<in> set (r_Addrs r)}"

definition spec_remove_addr :: "string \<Rightarrow> triple set \<Rightarrow> triple set" where
  "spec_remove_addr addr R = {(k, n, a) \<in> R. a \<noteq> addr}"

definition spec_remove_host :: "string \<Rightarrow> triple set \<Rightarrow> triple set" where
  "spec_remove_host node R = {(k, n, a) \<in> R. n \<noteq> node}"

definition spec_add :: "string \<Rightarrow> string \<Rightarrow> string list \<Rightarrow> triple set \<Rightarrow> triple set" where
  "spec_add node addr mss R = spec_remove_addr addr R \<union> {(k, node, addr) | k. k \<in> set mss}"

lemma regs_iff:
  "(k, n, a) \<in> regs m \<longleftrightarrow>
   (\<exists>r. m k = Some r \<and> \<lparr>na_Node = n, na_Addr = a\<rparr> \<in> set (r_Addrs r))"
proof
  assume "(k, n, a) \<in> regs m"
  then obtain r x where "m k = Some r" "x \<in> set (r_Addrs r)" "n = na_Node x" "a = na_Addr x"
    by (auto simp: regs_def)
  then show "\<exists>r. m k = Some r \<and> \<lparr>na_Node = n, na_Addr = a\<rparr> \<in> set (r_Addrs r)"
    by simp
qed (force simp: regs_def)

section \<open>Removal\<close>

lemma rebuild_simps [simp]:
  "rebuild k [] = None"
  "rebuild k (a # as) = Some \<lparr>r_Service = k, r_Addrs = a # as, r_Checksum = calcChecksum (a # as)\<rparr>"
  by (simp_all add: rebuild_def)

lemma rebuild_Some:
  "rebuild k as = Some r \<longleftrightarrow> as \<noteq> [] \<and> r = \<lparr>r_Service = k, r_Addrs = as, r_Checksum = calcChecksum as\<rparr>"
  by (cases as) auto

text \<open>Both removal loops, for any visiting order: every router is rebuilt from the addresses that do
  not match.\<close>

definition drop_matching :: "(NodeAddr \<Rightarrow> bool) \<Rightarrow> routers \<Rightarrow> routers" where
  "drop_matching P m = (\<lambda>k. case m k of None \<Rightarrow> None
     | Some r \<Rightarrow> rebuild k (filter (\<lambda>a. \<not> P a) (r_Addrs r)))"

lemma drop_matching_bind:
  "(\<lambda>k. Option.bind (m k) (\<lambda>v. rebuild k (filter (\<lambda>a. \<not> P a) (r_Addrs v)))) = drop_matching P m"
  by (rule ext) (auto simp: drop_matching_def split: option.splits)

lemma removeRouter_eq:
  "enumerates ks m \<Longrightarrow> removeRouter ks addr m = drop_matching (\<lambda>a. na_Addr a = addr) m"
  by (simp add: removeRouter_def map_loop_enum cut_back_all drop_matching_bind)

lemma RemoveRouter_eq:
  "enumerates ks m \<Longrightarrow> RemoveRouter ks addr m = drop_matching (\<lambda>a. na_Addr a = addr) m"
  by (simp add: RemoveRouter_def removeRouter_eq)

lemma RemoveRouterByHost_eq:
  "enumerates ks m \<Longrightarrow> RemoveRouterByHost ks node m = drop_matching (\<lambda>a. na_Node a = node) m"
  by (simp add: RemoveRouterByHost_def map_loop_enum cut_back_all drop_matching_bind)

lemma drop_matching_Some:
  "drop_matching P m k = Some r \<longleftrightarrow>
   (\<exists>r0. m k = Some r0 \<and> filter (\<lambda>a. \<not> P a) (r_Addrs r0) \<noteq> [] \<and>
     r = \<lparr>r_Service = k, r_Addrs = filter (\<lambda>a. \<not> P a) (r_Addrs r0),
          r_Checksum = calcChecksum (filter (\<lambda>a. \<not> P a) (r_Addrs r0))\<rparr>)"
  by (auto simp: drop_matching_def rebuild_Some split: option.splits)

lemma regs_drop_matching:
  "regs (drop_matching P m) =
   {(k, n, a) \<in> regs m. \<not> P \<lparr>na_Node = n, na_Addr = a\<rparr>}"
proof (intro set_eqI, clarify)
  fix k n a
  show "(k, n, a) \<in> regs (drop_matching P m) \<longleftrightarrow>
    (k, n, a) \<in> {(k, n, a) \<in> regs m. \<not> P \<lparr>na_Node = n, na_Addr = a\<rparr>}"
    by (auto simp: regs_iff drop_matching_Some filter_empty_conv)
qed

lemma regs_removeRouter [abs_simps]:
  "enumerates ks m \<Longrightarrow> regs (removeRouter ks addr m) = spec_remove_addr addr (regs m)"
  by (auto simp: removeRouter_eq regs_drop_matching spec_remove_addr_def)

lemma regs_RemoveRouter [abs_simps]:
  "enumerates ks m \<Longrightarrow> regs (RemoveRouter ks addr m) = spec_remove_addr addr (regs m)"
  by (simp add: RemoveRouter_def regs_removeRouter)

lemma regs_RemoveRouterByHost [abs_simps]:
  "enumerates ks m \<Longrightarrow> regs (RemoveRouterByHost ks node m) = spec_remove_host node (regs m)"
  by (auto simp: RemoveRouterByHost_eq regs_drop_matching spec_remove_host_def)

section \<open>Addition\<close>

text \<open>One service of the loop.\<close>

definition add_one :: "string \<Rightarrow> string \<Rightarrow> string \<Rightarrow> routers \<Rightarrow> routers" where
  "add_one node addr ms m =
     (let nas = [\<lparr>na_Node = node, na_Addr = addr\<rparr>];
          old = (case m ms of None \<Rightarrow> [] | Some r \<Rightarrow> r_Addrs r)
      in if list_ex (\<lambda>v. na_Addr v = addr) old then m else m(ms := rebuild ms (old @ nas)))"

lemma rebuild_snoc:
  "rebuild k (as @ [x]) =
   Some \<lparr>r_Service = k, r_Addrs = as @ [x], r_Checksum = calcChecksum (as @ [x])\<rparr>"
  by (simp add: rebuild_def)

lemma AddRouter_loop_step:
  "AddRouter_loop node addr (ms # mss) m = AddRouter_loop node addr mss (add_one node addr ms m)"
  by (cases "m ms") (auto simp: Let_def add_one_def rebuild_snoc intro!: arg_cong [where f = "AddRouter_loop node addr mss"])

lemma AddRouter_loop_fold:
  "AddRouter_loop node addr mss m = fold (add_one node addr) mss m"
  by (induction mss arbitrary: m) (simp_all add: AddRouter_loop_step del: AddRouter_loop.simps(2))

lemma regs_add_one:
  assumes "\<And>n. (ms, n, addr) \<in> regs m \<Longrightarrow> n = node"
  shows "regs (add_one node addr ms m) = insert (ms, node, addr) (regs m)"
proof (intro set_eqI, clarify)
  fix k n a
  have e: "list_ex (\<lambda>v. na_Addr v = addr) (case m ms of None \<Rightarrow> [] | Some r \<Rightarrow> r_Addrs r) \<longleftrightarrow>
      (\<exists>n. (ms, n, addr) \<in> regs m)"
    by (auto simp: regs_iff list_ex_iff split: option.splits intro: NodeAddr.surjective)
       (metis NodeAddr.surjective old.unit.exhaust)
  show "(k, n, a) \<in> regs (add_one node addr ms m) \<longleftrightarrow> (k, n, a) \<in> insert (ms, node, addr) (regs m)"
    using assms e
    by (auto simp: add_one_def Let_def regs_iff rebuild_snoc split: option.splits if_splits)
qed

lemma regs_AddRouter_loop:
  "(\<And>k n. (k, n, addr) \<in> regs m \<Longrightarrow> n = node) \<Longrightarrow>
   regs (AddRouter_loop node addr mss m) = regs m \<union> {(k, node, addr) | k. k \<in> set mss}"
proof (induction mss arbitrary: m)
  case Nil
  then show ?case by (simp add: AddRouter_loop_fold)
next
  case (Cons ms mss)
  have r: "regs (add_one node addr ms m) = insert (ms, node, addr) (regs m)"
    by (rule regs_add_one) (rule Cons.prems)
  have "regs (AddRouter_loop node addr mss (add_one node addr ms m)) =
      regs (add_one node addr ms m) \<union> {(k, node, addr) | k. k \<in> set mss}"
    by (rule Cons.IH) (use Cons.prems r in auto)
  then show ?case
    by (auto simp: AddRouter_loop_fold r)
qed

lemma regs_AddRouter [abs_simps]:
  "enumerates ks m \<Longrightarrow> regs (AddRouter ks node addr mss m) = spec_add node addr mss (regs m)"
  unfolding AddRouter_def spec_add_def
  by (subst regs_AddRouter_loop) (auto simp: regs_removeRouter spec_remove_addr_def)

section \<open>Checksums\<close>

lemma calcChecksum_loop_nth:
  "length acc = 16 \<Longrightarrow>
   length (calcChecksum_loop ss acc) = 16 \<and>
   (\<forall>i < 16. calcChecksum_loop ss acc ! i =
      acc ! i + (\<Sum>a\<leftarrow>map na_Addr ss. md5_Sum (bytes_of a) ! i))"
  by (induction ss arbitrary: acc) (auto simp: algebra_simps)

lemma calcChecksum_length [simp]: "length (calcChecksum ss) = 16"
  by (simp add: calcChecksum_def calcChecksum_loop_nth)

lemma calcChecksum_nth:
  "i < 16 \<Longrightarrow> calcChecksum ss ! i = (\<Sum>a\<leftarrow>map na_Addr ss. md5_Sum (bytes_of a) ! i)"
  by (simp add: calcChecksum_def calcChecksum_loop_nth)

text \<open>The checksum of a list of addresses does not depend on their order (nor on the nodes).\<close>

lemma calcChecksum_mset:
  assumes "mset (map na_Addr xs) = mset (map na_Addr ys)"
  shows "calcChecksum xs = calcChecksum ys"
proof (rule nth_equalityI)
  fix i
  assume "i < length (calcChecksum xs)"
  then have i: "i < 16" by simp
  have sm: "(\<Sum>a\<leftarrow>as. f a) = (\<Sum>a\<in>#mset as. f a)" for as :: "string list" and f :: "string \<Rightarrow> byte"
    by (induction as) simp_all
  have "(\<Sum>a\<leftarrow>map na_Addr xs. md5_Sum (bytes_of a) ! i) =
      (\<Sum>a\<leftarrow>map na_Addr ys. md5_Sum (bytes_of a) ! i)"
    unfolding sm assms ..
  then show "calcChecksum xs ! i = calcChecksum ys ! i"
    using i by (simp add: calcChecksum_nth)
qed simp

section \<open>The invariant of the table\<close>

definition wf_router :: "string \<Rightarrow> Router \<Rightarrow> bool" where
  "wf_router k r \<longleftrightarrow>
     r_Service r = k \<and> r_Addrs r \<noteq> [] \<and> distinct (map na_Addr (r_Addrs r)) \<and>
     r_Checksum r = calcChecksum (r_Addrs r)"

definition wf_routers :: "routers \<Rightarrow> bool" where
  "wf_routers m \<longleftrightarrow> finite (dom m) \<and> (\<forall>k r. m k = Some r \<longrightarrow> wf_router k r)"

lemma wf_routersD: "wf_routers m \<Longrightarrow> m k = Some r \<Longrightarrow> wf_router k r"
  by (simp add: wf_routers_def)

lemma wf_routers_finite: "wf_routers m \<Longrightarrow> finite (dom m)"
  by (simp add: wf_routers_def)

lemma wf_routers_empty [wf_intros]: "wf_routers Map.empty"
  by (simp add: wf_routers_def)

lemma wf_rebuild:
  "rebuild k as = Some r \<Longrightarrow> distinct (map na_Addr as) \<Longrightarrow> wf_router k r"
  by (auto simp: rebuild_Some wf_router_def)

lemma wf_drop_matching [wf_intros]:
  assumes "wf_routers m"
  shows "wf_routers (drop_matching P m)"
  unfolding wf_routers_def
proof (intro conjI allI impI)
  have "dom (drop_matching P m) \<subseteq> dom m"
    by (auto simp: drop_matching_Some)
  then show "finite (dom (drop_matching P m))"
    using assms wf_routers_finite finite_subset by blast
next
  fix k r
  assume "drop_matching P m k = Some r"
  then show "wf_router k r"
    using assms
    by (auto simp: drop_matching_Some wf_router_def dest!: wf_routersD intro: distinct_map_filter_list)
qed

lemma wf_add_one [wf_intros]:
  assumes "wf_routers m"
  shows "wf_routers (add_one node addr ms m)"
proof (cases "m ms")
  case None
  then show ?thesis
    using assms by (auto simp: add_one_def Let_def wf_routers_def wf_router_def)
next
  case (Some r)
  then have "wf_router ms r"
    using assms by (blast dest: wf_routersD)
  then show ?thesis
    using Some assms
    by (auto simp: add_one_def Let_def rebuild_snoc list_ex_iff wf_routers_def)
       (auto simp: wf_router_def)
qed

lemma wf_AddRouter_loop: "wf_routers m \<Longrightarrow> wf_routers (AddRouter_loop node addr mss m)"
  unfolding AddRouter_loop_fold by (induction mss arbitrary: m) (auto intro: wf_intros)

lemma wf_AddRouter [wf_intros]:
  "enumerates ks m \<Longrightarrow> wf_routers m \<Longrightarrow> wf_routers (AddRouter ks node addr mss m)"
  by (simp add: AddRouter_def removeRouter_eq wf_AddRouter_loop wf_drop_matching)

lemma wf_RemoveRouter [wf_intros]:
  "enumerates ks m \<Longrightarrow> wf_routers m \<Longrightarrow> wf_routers (RemoveRouter ks addr m)"
  by (simp add: RemoveRouter_eq wf_drop_matching)

lemma wf_RemoveRouterByHost [wf_intros]:
  "enumerates ks m \<Longrightarrow> wf_routers m \<Longrightarrow> wf_routers (RemoveRouterByHost ks node m)"
  by (simp add: RemoveRouterByHost_eq wf_drop_matching)

text \<open>Under the invariant the set of triples determines the table up to the order of the addresses
  of each router; so it determines every checksum.\<close>

lemma regs_dom: "wf_routers m \<Longrightarrow> k \<in> dom m \<longleftrightarrow> (\<exists>n a. (k, n, a) \<in> regs m)"
proof
  assume w: "wf_routers m" and "k \<in> dom m"
  then obtain r where r: "m k = Some r" by blast
  then have "r_Addrs r \<noteq> []"
    using w wf_routersD wf_router_def by blast
  then obtain x where "x \<in> set (r_Addrs r)" by (cases "r_Addrs r") auto
  with r show "\<exists>n a. (k, n, a) \<in> regs m" by (auto simp: regs_def)
qed (auto simp: regs_def)

lemma regs_addrs: "m k = Some r \<Longrightarrow> set (r_Addrs r) = {x. (k, na_Node x, na_Addr x) \<in> regs m}"
  by (auto simp: regs_iff)

lemma wf_router_distinct: "wf_router k r \<Longrightarrow> distinct (r_Addrs r)"
  by (auto simp: wf_router_def distinct_map)

lemma regs_determine:
  assumes "wf_routers m" and "wf_routers m'" and "regs m = regs m'"
  shows "map_option (\<lambda>r. mset (r_Addrs r)) (m k) = map_option (\<lambda>r. mset (r_Addrs r)) (m' k)"
    and "map_option r_Checksum (m k) = map_option r_Checksum (m' k)"
proof -
  have d: "m k = None \<longleftrightarrow> m' k = None"
    using assms by (metis domIff regs_dom)
  have "mset (r_Addrs r) = mset (r_Addrs r') \<and> r_Checksum r = r_Checksum r'"
    if r: "m k = Some r" and r': "m' k = Some r'" for r r'
  proof -
    have w: "wf_router k r" "wf_router k r'"
      using assms r r' by (blast dest: wf_routersD)+
    have "set (r_Addrs r) = set (r_Addrs r')"
      using regs_addrs [of m k, OF r] regs_addrs [of m' k, OF r'] assms(3) by simp
    then have ms: "mset (r_Addrs r) = mset (r_Addrs r')"
      using w [THEN wf_router_distinct] set_eq_iff_mset_eq_distinct by blast
    then have "calcChecksum (r_Addrs r) = calcChecksum (r_Addrs r')"
      by (intro calcChecksum_mset) simp
    with ms w show ?thesis by (simp add: wf_router_def)
  qed
  note agree = this
  show "map_option (\<lambda>r. mset (r_Addrs r)) (m k) = map_option (\<lambda>r. mset (r_Addrs r)) (m' k)"
    by (rule map_option_agree) (use agree d in auto)
  show "map_option r_Checksum (m k) = map_option r_Checksum (m' k)"
    by (rule map_option_agree) (use agree d in auto)
qed

section \<open>Steps of the table\<close>

datatype router_op =
    OpAdd string string "string list"
  | OpRemove string
  | OpRemoveHost string

inductive router_step :: "routers \<Rightarrow> router_op \<Rightarrow> routers \<Rightarrow> bool" where
  add: "enumerates ks m \<Longrightarrow> router_step m (OpAdd node addr mss) (AddRouter ks node addr mss m)"
| remove: "enumerates ks m \<Longrightarrow> router_step m (OpRemove addr) (RemoveRouter ks addr m)"
| removeHost: "enumerates ks m \<Longrightarrow> router_step m (OpRemoveHost node) (RemoveRouterByHost ks node m)"

inductive router_steps :: "routers \<Rightarrow> router_op list \<Rightarrow> routers \<Rightarrow> bool" where
  none: "router_steps m [] m"
| more: "router_step m op m' \<Longrightarrow> router_steps m' ops m'' \<Longrightarrow> router_steps m (op # ops) m''"

inductive_cases router_steps_NilE: "router_steps m [] m'"
inductive_cases router_steps_ConsE: "router_steps m (op # ops) m'"

fun spec_step :: "router_op \<Rightarrow> triple set \<Rightarrow> triple set" where
  "spec_step (OpAdd node addr mss) R = spec_add node addr mss R"
| "spec_step (OpRemove addr) R = spec_remove_addr addr R"
| "spec_step (OpRemoveHost node) R = spec_remove_host node R"

lemma router_step_regs: "router_step m op m' \<Longrightarrow> regs m' = spec_step op (regs m)"
  by (induction rule: router_step.induct) (simp_all add: abs_simps)

lemma router_step_wf: "router_step m op m' \<Longrightarrow> wf_routers m \<Longrightarrow> wf_routers m'"
  by (induction rule: router_step.induct) (simp_all add: wf_intros)

lemma router_steps_regs: "router_steps m ops m' \<Longrightarrow> regs m' = fold spec_step ops (regs m)"
  by (induction rule: router_steps.induct) (simp_all add: router_step_regs)

lemma router_steps_wf: "router_steps m ops m' \<Longrightarrow> wf_routers m \<Longrightarrow> wf_routers m'"
  by (induction rule: router_steps.induct) (auto dest: router_step_wf)

text \<open>The order in which the loops visit the services does not matter.\<close>

lemma router_step_det: "router_step m op m1 \<Longrightarrow> router_step m op m2 \<Longrightarrow> m1 = m2"
  by (auto elim!: router_step.cases
      simp: AddRouter_def removeRouter_eq RemoveRouter_eq RemoveRouterByHost_eq)

lemma router_step_total: "wf_routers m \<Longrightarrow> \<exists>m'. router_step m op m'"
  using wf_routers_finite [THEN enumerates_exists] by (cases op) (metis router_step.intros)+

text \<open>What an operation does to the entries of one address depends on these entries only, and only
  the operations that \<open>touch\<close> the address change them.\<close>

fun touches :: "string \<Rightarrow> router_op \<Rightarrow> bool" where
  "touches a (OpAdd node addr mss) = (addr = a)"
| "touches a (OpRemove addr) = (addr = a)"
| "touches a (OpRemoveHost node) = True"

definition at_addr :: "string \<Rightarrow> triple set \<Rightarrow> triple set" where
  "at_addr a R = {(k, n, b) \<in> R. b = a}"

lemma at_addr_step:
  "at_addr a (spec_step op R) =
   (if touches a op then spec_step op (at_addr a R) else at_addr a R)"
  by (cases op) (auto simp: at_addr_def spec_add_def spec_remove_addr_def spec_remove_host_def)

lemma at_addr_fold:
  "at_addr a (fold spec_step ops R) = fold spec_step (filter (touches a) ops) (at_addr a R)"
  by (induction ops arbitrary: R) (simp_all add: at_addr_step)

lemma at_addr_ext: "(\<And>a. at_addr a R = at_addr a R') \<Longrightarrow> R = R'"
  by (fastforce simp: at_addr_def)

lemma fold_spec_agree:
  assumes "\<And>a. filter (touches a) ops = filter (touches a) ops'"
  shows "fold spec_step ops R = fold spec_step ops' R"
  by (rule at_addr_ext) (simp add: at_addr_fold assms)

section \<open>Copying a table\<close>

lemma fill_done:
  "length ys + length xs = length ms \<Longrightarrow> take (length ys) ms = ys \<Longrightarrow>
   fill ms (length ys) xs = Ret (ys @ xs)"
proof (induction xs arbitrary: ys ms)
  case Nil
  then show ?case by simp
next
  case (Cons x xs)
  have "take (length ys) (ms[length ys := x]) = ys"
    using Cons.prems by simp
  then have "take (length (ys @ [x])) (ms[length ys := x]) = ys @ [x]"
    using Cons.prems by (simp add: take_Suc_conv_app_nth)
  then have "fill (ms[length ys := x]) (length (ys @ [x])) xs = Ret ((ys @ [x]) @ xs)"
    using Cons.prems by (intro Cons.IH) simp_all
  then show ?case using Cons.prems by simp
qed

lemma fill_all: "length xs = n \<Longrightarrow> fill (replicate n z) 0 xs = Ret xs"
  using fill_done [of "[]" xs "replicate n z"] by simp

lemma map_filter_enum:
  "set ks \<subseteq> dom m \<Longrightarrow> List.map_filter m ks = map (\<lambda>k. the (m k)) ks"
  by (induction ks) (auto simp: List.map_filter_simps)

lemma ListRouters_eq:
  "enumerates ks (routers s) \<Longrightarrow> repo_ListRouters ks s = Ret (map (\<lambda>k. the (routers s k)) ks)"
  unfolding repo_ListRouters_def
  by (subst fill_all) (simp_all add: map_filter_enum enumerates_length enumerates_dom)

lemma UpdateRouters_eq:
  "enumerates ks m \<Longrightarrow> UpdateRouters ks rs m = map_of (rev (map (\<lambda>r. (r_Service r, r)) rs))"
proof -
  assume e: "enumerates ks m"
  have d: "fold (\<lambda>k m. m(k := None)) ks m j = (if j \<in> set ks then None else m j)" for ks m j
    by (induction ks arbitrary: m) auto
  have "fold (\<lambda>k m. m(k := None)) ks m = Map.empty"
    by (rule ext) (use e in \<open>auto simp: d enumerates_def domIff\<close>)
  moreover have "fold (\<lambda>v m. m(r_Service v \<mapsto> v)) rs m0 = m0 ++ map_of (rev (map (\<lambda>r. (r_Service r, r)) rs))"
    for m0 :: routers
    by (induction rs arbitrary: m0) (auto simp: map_add_def fun_eq_iff map_of_append split: option.splits)
  ultimately show ?thesis
    by (simp add: UpdateRouters_def)
qed

lemma UpdateRouters_ListRouters:
  assumes "enumerates ks m" and "\<And>k r. m k = Some r \<Longrightarrow> r_Service r = k" and "enumerates js m'"
  shows "UpdateRouters js (map (\<lambda>k. the (m k)) ks) m' = m"
proof (rule ext)
  fix k
  let ?ps = "map (\<lambda>k. (k, the (m k))) ks"
  have ps: "map (\<lambda>r. (r_Service r, r)) (map (\<lambda>k. the (m k)) ks) = ?ps"
    using assms(1,2) by (auto simp: enumerates_def)
  have "distinct (map fst ?ps)"
    using assms(1) by (simp add: comp_def enumerates_def)
  then have "map_of (rev ?ps) = map_of ?ps"
    by (subst map_of_inject_set) (simp_all add: rev_map [symmetric])
  then show "UpdateRouters js (map (\<lambda>k. the (m k)) ks) m' k = m k"
    unfolding UpdateRouters_eq [OF assms(3)] ps
    using assms(1) by (auto simp: map_of_map_restrict restrict_map_def enumerates_def domIff)
qed

lemma router_steps_total: "wf_routers m \<Longrightarrow> \<exists>m'. router_steps m ops m'"
proof (induction ops arbitrary: m)
  case Nil
  then show ?case using router_steps.none by blast
next
  case (Cons op ops)
  obtain m1 where s: "router_step m op m1"
    using router_step_total [OF Cons.prems] by blast
  then have "wf_routers m1"
    using Cons.prems by (rule router_step_wf)
  then show ?case
    using Cons.IH s router_steps.more by blast
qed

section \<open>Checksums of what an application consumes\<close>

lemma add16_length: "add16 ck cs = Ret r \<Longrightarrow> length ck = 16 \<Longrightarrow> length r = 16"
  by (auto simp: add16_def split: if_splits)

lemma sumCheckSums_select: "sumCheckSums rs vs ck = sumRouters (selectRouters rs vs) ck"
  by (induction vs arbitrary: ck) (auto split: option.splits intro!: arg_cong2 [where f = go_bind])

lemma selectRouters_set: "r \<in> set (selectRouters rs vs) \<longleftrightarrow> (\<exists>v\<in>set vs. rs v = Some r)"
  by (induction vs) (auto split: option.splits)

lemma sumRouters_total:
  "(\<And>r. r \<in> set rts \<Longrightarrow> 16 \<le> length (r_Checksum r)) \<Longrightarrow> \<exists>ck'. sumRouters rts ck = Ret ck'"
  by (induction rts arbitrary: ck) (auto simp: add16_def not_less)

lemma sumRouters_length: "sumRouters rts ck = Ret ck' \<Longrightarrow> length ck = 16 \<Longrightarrow> length ck' = 16"
  by (induction rts arbitrary: ck) (auto simp: go_bind_eq_Ret dest: add16_length)

lemma hex_zeros: "hex_EncodeToString (replicate n 0) = replicate (2 * n) (CHR ''0'')"
proof (induction n)
  case (Suc n)
  have "hex_byte 0 = ''00''"
    by (simp add: hex_byte_def) code_simp
  with Suc show ?case by (simp add: hex_EncodeToString_def)
qed (simp add: hex_EncodeToString_def)

lemma sumRouters_panics:
  "r \<in> set rts \<Longrightarrow> length (r_Checksum r) < 16 \<Longrightarrow> sumRouters rts ck = Panic"
proof (induction rts arbitrary: ck)
  case (Cons x rts)
  then show ?case by (cases "add16 ck (r_Checksum x)") (auto simp: add16_def split: if_splits)
qed simp

lemma wf_select_checksums:
  "wf_routers m \<Longrightarrow> r \<in> set (selectRouters m vs) \<Longrightarrow> length (r_Checksum r) = 16"
  by (auto simp: selectRouters_set wf_router_def dest: wf_routersD)

section \<open>Properties\<close>

text \<open>C3. Registrations, deregistrations and host removals refine set operations: whatever order the
  loops visit the table in, a run of \<^verbatim>\<open>AddRouter\<close>, \<^verbatim>\<open>RemoveRouter\<close> and \<^verbatim>\<open>RemoveRouterByHost\<close> on a
  well-formed table ends in a well-formed table (every router filed under its own service, with
  at least one address, no address twice, and the checksum of its addresses) that holds exactly
  the (service, node, address) triples the set specification says.\<close>

theorem table_refines_set:
  assumes "wf_routers m" and "router_steps m ops m'"
  shows "wf_routers m' \<and> regs m' = fold spec_step ops (regs m)"
  using router_steps_wf [OF assms(2,1)] router_steps_regs [OF assms(2)] by blast

theorem table_refines_set_witness:
  "\<exists>m'. router_steps Map.empty [OpAdd ''n1'' ''a'' [''s'', ''t''], OpRemoveHost ''n2''] m' \<and>
    regs m' = {(''s'', ''n1'', ''a''), (''t'', ''n1'', ''a'')}"
proof -
  let ?ops = "[OpAdd ''n1'' ''a'' [''s'', ''t''], OpRemoveHost ''n2'']"
  obtain m' where m': "router_steps Map.empty ?ops m'"
    using router_steps_total [OF wf_routers_empty] by blast
  have "regs m' = fold spec_step ?ops (regs Map.empty)"
    using table_refines_set [OF wf_routers_empty m'] by simp
  also have "\<dots> = {(''s'', ''n1'', ''a''), (''t'', ''n1'', ''a'')}"
    by (auto simp: regs_def spec_add_def spec_remove_addr_def spec_remove_host_def)
  finally show ?thesis using m' by blast
qed

text \<open>C4. Nodes converge: two nodes that start from tables with the same entries and apply the same
  events, in orders that agree for every single address (host removals counting for every
  address), end with the same entries and the same checksum for every service, whatever orders
  their loops used and whatever order events for different addresses arrived in.\<close>

theorem nodes_converge:
  assumes "wf_routers m1" and "wf_routers m2" and "regs m1 = regs m2"
    and "router_steps m1 ops1 m1'" and "router_steps m2 ops2 m2'"
    and "\<forall>a. filter (touches a) ops1 = filter (touches a) ops2"
  shows "regs m1' = regs m2' \<and>
    map_option r_Checksum (m1' k) = map_option r_Checksum (m2' k)"
proof -
  have "fold spec_step ops1 (regs m2) = fold spec_step ops2 (regs m2)"
    by (rule fold_spec_agree) (use assms(6) in blast)
  then have "regs m1' = regs m2'"
    using assms(3-5) by (simp add: router_steps_regs)
  moreover have "wf_routers m1'" "wf_routers m2'"
    using router_steps_wf [OF assms(4,1)] router_steps_wf [OF assms(5,2)] by blast+
  ultimately show ?thesis
    using regs_determine(2) [of m1' m2' k] by blast
qed

theorem nodes_converge_witness:
  "\<exists>m1 m2. router_steps Map.empty [OpAdd ''n1'' ''a'' [''s''], OpAdd ''n2'' ''b'' [''s'']] m1 \<and>
    router_steps Map.empty [OpAdd ''n2'' ''b'' [''s''], OpAdd ''n1'' ''a'' [''s'']] m2 \<and>
    regs m1 = regs m2 \<and>
    map_option r_Checksum (m1 ''s'') = map_option r_Checksum (m2 ''s'')"
proof -
  let ?ab = "[OpAdd ''n1'' ''a'' [''s''], OpAdd ''n2'' ''b'' [''s'']]"
  let ?ba = "[OpAdd ''n2'' ''b'' [''s''], OpAdd ''n1'' ''a'' [''s'']]"
  obtain m1 m2 where m: "router_steps Map.empty ?ab m1" "router_steps Map.empty ?ba m2"
    using router_steps_total [OF wf_routers_empty] by blast
  have "\<forall>a. filter (touches a) ?ab = filter (touches a) ?ba"
    by simp
  then show ?thesis
    using nodes_converge [OF wf_routers_empty wf_routers_empty refl m] m by blast
qed

text \<open>C5. Copying the table: \<^verbatim>\<open>UpdateRouters\<close> applied to the answer of another node's \<^verbatim>\<open>ListRouters\<close>
  makes the receiving table equal to the other node's, whatever it held before and whatever
  orders the two loops visit the tables in.\<close>

theorem list_update_roundtrip:
  assumes "wf_routers (routers s)" and "enumerates ks (routers s)" and "enumerates js (routers s')"
  shows "\<exists>rs. repo_ListRouters ks s = Ret rs \<and>
    routers (repo_UpdateRouters js rs s') = routers s"
proof -
  have "\<And>k r. routers s k = Some r \<Longrightarrow> r_Service r = k"
    using assms(1) by (auto simp: wf_router_def dest: wf_routersD)
  then show ?thesis
    using assms(2,3) by (simp add: ListRouters_eq repo_UpdateRouters_def UpdateRouters_ListRouters)
qed

theorem list_update_roundtrip_witness:
  "\<exists>rs. repo_ListRouters [''s''] (repo_AddRouter [] ''n'' ''a'' [''s''] (NewDiscoverdRepo 9)) = Ret rs \<and>
    routers (repo_UpdateRouters [] rs (NewDiscoverdRepo 9)) ''s'' \<noteq> None"
proof -
  let ?s = "repo_AddRouter [] ''n'' ''a'' [''s''] (NewDiscoverdRepo 9)"
  have z: "routers (NewDiscoverdRepo 9) = Map.empty"
    by (simp add: NewDiscoverdRepo_def)
  have r: "routers ?s = AddRouter [] ''n'' ''a'' [''s''] Map.empty"
    by (simp add: repo_AddRouter_def z)
  have w: "wf_routers (routers ?s)"
    unfolding r by (intro wf_intros) simp
  have d: "dom (routers ?s) = {''s''}"
    by (auto simp: r AddRouter_def removeRouter_def Let_def split: if_splits)
  then have "enumerates [''s''] (routers ?s)"
    by (simp add: enumerates_def)
  moreover have "enumerates [] (routers (NewDiscoverdRepo 9))"
    by (simp add: z)
  ultimately obtain rs where "repo_ListRouters [''s''] ?s = Ret rs"
      "routers (repo_UpdateRouters [] rs (NewDiscoverdRepo 9)) = routers ?s"
    using list_update_roundtrip [OF w] by blast
  then show ?thesis using d by (metis domIff insertI1)
qed

text \<open>C6. The two checksums an application is given agree, when it consumes something that is
  there: on a well-formed table neither computation panics; for an application that is not
  registered \<^verbatim>\<open>Refresh\<close>'s checksum is thirty-two zeros and there is no table; for a registered
  one the checksum in the router table is that of \<^verbatim>\<open>Refresh\<close> if the table is not empty, and the
  empty string (which never equals it) if it is.\<close>

theorem checksums_agree_iff_nonempty:
  assumes "wf_routers (routers s)"
  shows "\<exists>cs. calcRouterCheckSum addr now s = Ret cs \<and> length cs = 32 \<and>
    (case cache_Get addr now (apps s) of
       None \<Rightarrow> cs = replicate 32 (CHR ''0'') \<and> calcRouterTable addr now s = Ret None
     | Some app \<Rightarrow>
         (\<exists>tab. calcRouterTable addr now s = Ret (Some tab) \<and>
           rt_Routers tab = selectRouters (routers s) (ma_Consumers app) \<and>
           rt_Checksum tab = (if rt_Routers tab = [] then '''' else cs)))"
proof (cases "cache_Get addr now (apps s)")
  case None
  have "hex_EncodeToString (replicate 16 0) = replicate 32 (CHR ''0'')"
    using hex_zeros [of 16] by simp
  with None show ?thesis by (simp add: calcRouterCheckSum_def calcRouterTable_def)
next
  case (Some app)
  let ?rts = "selectRouters (routers s) (ma_Consumers app)"
  obtain ck where ck: "sumRouters ?rts (replicate 16 0) = Ret ck"
    using sumRouters_total [of ?rts] wf_select_checksums [OF assms] by force
  then have "length ck = 16"
    by (rule sumRouters_length) simp
  with ck Some show ?thesis
    by (auto simp: calcRouterCheckSum_def calcRouterTable_def Let_def sumCheckSums_select hex_length)
qed

theorem checksums_agree_iff_nonempty_witness:
  "\<exists>cs. calcRouterCheckSum ''a'' 0 (NewDiscoverdRepo 9) = Ret cs \<and> length cs = 32"
proof -
  have "wf_routers (routers (NewDiscoverdRepo 9))"
    by (simp add: NewDiscoverdRepo_def wf_routers_empty)
  then show ?thesis
    using checksums_agree_iff_nonempty [of "NewDiscoverdRepo 9" "''a''" 0] by blast
qed

text \<open>A table received through \<^verbatim>\<open>UpdateRouters\<close> is not checked: a router whose checksum is shorter
  than sixteen bytes makes \<^verbatim>\<open>Refresh\<close> panic, after it has renewed the application's lease, for
  every live application that consumes the router's service.\<close>

theorem short_checksum_panics:
  assumes "length cs < 16" and "v \<in> set (ma_Consumers app)"
    and "enumerates ks (routers s)" and "cache_Get addr t1 (apps s) = Some app"
    and "within t2 (lease_of (apps s)) t3"
  shows "fst (repo_Refresh addr t1 t2 t3
      (repo_UpdateRouters ks [\<lparr>r_Service = v, r_Addrs = as, r_Checksum = cs\<rparr>] s)) = Panic"
proof -
  let ?s = "repo_UpdateRouters ks [\<lparr>r_Service = v, r_Addrs = as, r_Checksum = cs\<rparr>] s"
  let ?c' = "snd (cache_Refresh addr DefaultExpiration t1 t2 (apps ?s))"
  have a: "apps ?s = apps s" and m: "routers ?s = [v \<mapsto> \<lparr>r_Service = v, r_Addrs = as, r_Checksum = cs\<rparr>]"
    using assms(3) by (simp_all add: repo_UpdateRouters_def UpdateRouters_eq)
  have l: "live (apps ?s) t1 addr = Some app" and i: "within t2 (lease_of (apps ?s)) t3"
    using assms(4,5) a by (simp_all add: live_def cache_Get_def)
  have g: "cache_Get addr t3 ?c' = Some app"
    using cl.renew_self(2) [OF l i] by (simp add: live_def cache_Get_def)
  have "sumRouters (selectRouters (routers ?s) (ma_Consumers app)) ck = Panic" for ck
    by (rule sumRouters_panics [where r = "\<lparr>r_Service = v, r_Addrs = as, r_Checksum = cs\<rparr>"])
      (use assms(1,2) m in \<open>auto simp: selectRouters_set\<close>)
  then show ?thesis
    using g by (simp add: repo_Refresh_def case_prod_unfold Let_def calcRouterCheckSum_def
        sumCheckSums_select)
qed

theorem short_checksum_panics_witness:
  "fst (repo_Refresh ''a'' 1 1 1 (repo_UpdateRouters [] [\<lparr>r_Service = ''v'', r_Addrs = [], r_Checksum = []\<rparr>]
     (fst (repo_Register \<lparr>ma_Addr = ''a'', ma_Providers = [], ma_Consumers = [''v'']\<rparr> 0
        (NewDiscoverdRepo 9))))) = Panic"
proof -
  let ?app = "\<lparr>ma_Addr = ''a'', ma_Providers = [], ma_Consumers = [''v'']\<rparr>"
  let ?s = "fst (repo_Register ?app 0 (NewDiscoverdRepo 9))"
  have "enumerates [] (routers ?s)" "cache_Get ''a'' 1 (apps ?s) = Some ?app"
    "within 1 (lease_of (apps ?s)) 1"
    by (simp_all add: repo_Register_def NewDiscoverdRepo_def cache_Set_def cache_set_def
        cache_Get_def cache_get_def NewCache_def newCacheWithJanitor_def newCache_def runJanitor_def
        cache_RegExpiredHandler_def DefaultExpiration_def within_def lease_of_def)
  then show ?thesis
    using short_checksum_panics [of "[]" "''v''" ?app "[]" ?s "''a''" 1 1 1 "[]"] by simp
qed

end
