(* ===== verification/SliceHeap.thy ===== *)
theory SliceHeap
  imports Routing
begin

text \<open>
  The router table of \<^verbatim>\<open>discoverd/msd/msd_repo.go\<close> with its address slices in memory.

  A Go slice is a window on a backing array; \<^verbatim>\<open>append (addrs[:idx], addrs[idx+1:]...)\<close> moves the
  tail of the array in place. This theory models slices on an explicit heap of arrays, runs the
  removal and registration loops on it, proves that they refine the list-level operations of
  theory \<^verbatim>\<open>Repo\<close> as long as no two services share an array, and shows what the sharing with a
  slice handed out earlier (by \<^verbatim>\<open>ListRouters\<close> or \<^verbatim>\<open>GetRouterTable\<close>) does to that slice.
\<close>

section \<open>Slices\<close>

type_synonym 'a heap = "nat \<rightharpoonup> 'a list"

record slice =
  arr :: nat
  off :: nat
  len :: nat
  cap :: nat

definition slice_ok :: "'a heap \<Rightarrow> slice \<Rightarrow> bool" where
  "slice_ok h s \<longleftrightarrow>
     (case h (arr s) of None \<Rightarrow> False | Some xs \<Rightarrow> off s + cap s \<le> length xs) \<and> len s \<le> cap s"

definition slice_val :: "'a heap \<Rightarrow> slice \<Rightarrow> 'a list" where
  "slice_val h s = (case h (arr s) of None \<Rightarrow> [] | Some xs \<Rightarrow> take (len s) (drop (off s) xs))"

definition slice_get :: "'a heap \<Rightarrow> slice \<Rightarrow> nat \<Rightarrow> 'a go" where
  "slice_get h s i = (if i < len s then Ret (slice_val h s ! i) else Panic)"

text \<open>\<^verbatim>\<open>s[lo:hi]\<close>.\<close>

definition reslice :: "slice \<Rightarrow> nat \<Rightarrow> nat \<Rightarrow> slice go" where
  "reslice s lo hi =
     (if lo \<le> hi \<and> hi \<le> cap s
      then Ret (s\<lparr>off := off s + lo, len := hi - lo, cap := cap s - lo\<rparr>) else Panic)"

text \<open>\<^verbatim>\<open>append\<close>: in place when the capacity suffices, otherwise into the fresh array \<open>new\<close>, whose
  capacity the run-time system chooses (\<open>grow\<close>, a parameter); \<open>z\<close> fills the rest of it.\<close>

definition write_at :: "nat \<Rightarrow> 'a list \<Rightarrow> 'a list \<Rightarrow> 'a list" where
  "write_at i ys xs = take i xs @ ys @ drop (i + length ys) xs"

definition slice_append ::
  "(nat \<Rightarrow> nat \<Rightarrow> nat) \<Rightarrow> 'a \<Rightarrow> nat \<Rightarrow> 'a heap \<Rightarrow> slice \<Rightarrow> 'a list \<Rightarrow> 'a heap \<times> slice" where
  "slice_append grow z new h s ys =
     (let n = len s + length ys in
      if n \<le> cap s
      then (h(arr s := map_option (write_at (off s + len s) ys) (h (arr s))), s\<lparr>len := n\<rparr>)
      else (let c = grow (cap s) n in
            (h(new \<mapsto> slice_val h s @ ys @ replicate (c - n) z),
             \<lparr>arr = new, off = 0, len = n, cap = c\<rparr>)))"

lemma slice_okE:
  assumes "slice_ok h s"
  obtains xs where "h (arr s) = Some xs" "off s + cap s \<le> length xs" "len s \<le> cap s"
    "slice_val h s = take (len s) (drop (off s) xs)"
  using assms by (auto simp: slice_ok_def slice_val_def split: option.splits)

lemma length_slice_val: "slice_ok h s \<Longrightarrow> length (slice_val h s) = len s"
  by (auto simp: slice_ok_def slice_val_def split: option.splits)

lemma slice_frame:
  "h' (arr s) = h (arr s) \<Longrightarrow> slice_ok h' s = slice_ok h s \<and> slice_val h' s = slice_val h s"
  by (simp add: slice_ok_def slice_val_def)

lemma write_at_length [simp]: "i + length ys \<le> length xs \<Longrightarrow> length (write_at i ys xs) = length xs"
  by (simp add: write_at_def)

text \<open>Cutting position \<open>i\<close> out of a slice: \<^verbatim>\<open>append (s[:i], s[i+1:]...)\<close>. It never grows.\<close>

definition slice_cut :: "(nat \<Rightarrow> nat \<Rightarrow> nat) \<Rightarrow> 'a \<Rightarrow> nat \<Rightarrow> nat \<Rightarrow> 'a heap \<Rightarrow> slice \<Rightarrow> ('a heap \<times> slice) go" where
  "slice_cut grow z new i h s =
     go_bind (reslice s 0 i) (\<lambda>s1.
     go_bind (reslice s (i + 1) (len s)) (\<lambda>s2.
       Ret (slice_append grow z new h s1 (slice_val h s2))))"

lemma slice_cut_spec:
  assumes ok: "slice_ok h s" and i: "i < len s"
  shows "\<exists>xs. h (arr s) = Some xs \<and>
    slice_cut grow z new i h s =
      Ret (h(arr s \<mapsto> write_at (off s + i) (drop (Suc i) (slice_val h s)) xs), s\<lparr>len := len s - 1\<rparr>)"
proof -
  obtain xs where xs: "h (arr s) = Some xs" "off s + cap s \<le> length xs" "len s \<le> cap s"
      "slice_val h s = take (len s) (drop (off s) xs)"
    using ok by (rule slice_okE)
  let ?s2 = "s\<lparr>off := off s + (i + 1), len := len s - (i + 1), cap := cap s - (i + 1)\<rparr>"
  have v2: "slice_val h ?s2 = drop (Suc i) (slice_val h s)"
    using xs by (simp add: slice_val_def drop_take add.commute)
  have l2: "length (drop (Suc i) (slice_val h s)) = len s - Suc i"
    by (simp add: length_slice_val [OF ok])
  have "reslice s 0 i = Ret (s\<lparr>len := i\<rparr>)" "reslice s (i + 1) (len s) = Ret ?s2"
    using xs i by (simp_all add: reslice_def)
  then have "slice_cut grow z new i h s =
      Ret (slice_append grow z new h (s\<lparr>len := i\<rparr>) (drop (Suc i) (slice_val h s)))"
    by (simp only: slice_cut_def go_bind.simps v2)
  moreover have "i + (len s - Suc i) = len s - 1"
    using i by simp
  ultimately show ?thesis
    using xs(1,3) i l2 by (auto simp: slice_append_def Let_def)
qed

lemma slice_cut_val:
  assumes ok: "slice_ok h s" and i: "i < len s" and r: "slice_cut grow z new i h s = Ret (h', s')"
  shows "slice_ok h' s'" and "arr s' = arr s" and "len s' = len s - 1"
    and "slice_val h' s' = take i (slice_val h s) @ drop (Suc i) (slice_val h s)"
    and "a \<noteq> arr s \<Longrightarrow> h' a = h a"
proof -
  obtain xs where xs: "h (arr s) = Some xs" "off s + cap s \<le> length xs" "len s \<le> cap s"
      "slice_val h s = take (len s) (drop (off s) xs)"
    using ok by (rule slice_okE)
  let ?ys = "drop (Suc i) (slice_val h s)"
  have h': "h' = h(arr s \<mapsto> write_at (off s + i) ?ys xs)" and s': "s' = s\<lparr>len := len s - 1\<rparr>"
    using slice_cut_spec [OF ok i, of grow z new] r xs(1) by auto
  have l: "length ?ys = len s - Suc i"
    by (simp add: length_slice_val [OF ok])
  have w: "off s + i + length ?ys \<le> length xs"
    using xs(2,3) i l by linarith
  show "slice_ok h' s'" "arr s' = arr s" "len s' = len s - 1" "a \<noteq> arr s \<Longrightarrow> h' a = h a"
    using xs(2,3) w by (auto simp: h' s' slice_ok_def)
  have "slice_val h' s' = take (len s - 1) (drop (off s) (write_at (off s + i) ?ys xs))"
    by (simp add: h' s' slice_val_def)
  also have "drop (off s) (write_at (off s + i) ?ys xs) =
      take i (drop (off s) xs) @ ?ys @ drop (off s + i + length ?ys) xs"
    using xs(2,3) i by (simp add: write_at_def take_drop add.commute)
  also have "take (len s - 1) \<dots> = take i (drop (off s) xs) @ ?ys"
  proof -
    have "length (take i (drop (off s) xs) @ ?ys) = len s - 1"
      using xs(2,3) i l by simp
    then show ?thesis by (metis append.assoc append_eq_conv_conj)
  qed
  also have "take i (drop (off s) xs) = take i (slice_val h s)"
    using xs(4) i by (simp add: min_def)
  finally show "slice_val h' s' = take i (slice_val h s) @ drop (Suc i) (slice_val h s)" .
qed

section \<open>The removal loop on the heap\<close>

text \<open>\<^verbatim>\<open>for idx := size - 1; idx >= 0; idx--\<close> with the deletion in place.\<close>

fun heap_cut :: "(nat \<Rightarrow> nat \<Rightarrow> nat) \<Rightarrow> 'a \<Rightarrow> ('a \<Rightarrow> bool) \<Rightarrow> nat \<Rightarrow> 'a heap \<Rightarrow> slice \<Rightarrow> ('a heap \<times> slice) go" where
  "heap_cut grow z P 0 h s = Ret (h, s)"
| "heap_cut grow z P (Suc idx) h s =
     go_bind (slice_get h s idx) (\<lambda>x.
       if P x
       then go_bind (slice_cut grow z 0 idx h s) (\<lambda>(h', s'). heap_cut grow z P idx h' s')
       else heap_cut grow z P idx h s)"

lemma heap_cut_refines:
  "slice_ok h s \<Longrightarrow> n \<le> len s \<Longrightarrow>
   \<exists>h' s'. heap_cut grow z P n h s = Ret (h', s') \<and> slice_ok h' s' \<and> arr s' = arr s \<and>
     slice_val h' s' = cut_back P n (slice_val h s) \<and> (\<forall>a. a \<noteq> arr s \<longrightarrow> h' a = h a)"
proof (induction n arbitrary: h s)
  case 0
  then show ?case by simp
next
  case (Suc n)
  have n: "n < len s" using Suc.prems by simp
  have g: "slice_get h s n = Ret (slice_val h s ! n)"
    using n by (simp add: slice_get_def)
  show ?case
  proof (cases "P (slice_val h s ! n)")
    case True
    obtain h1 s1 where c: "slice_cut grow z 0 n h s = Ret (h1, s1)"
      using slice_cut_spec [OF Suc.prems(1) n] by blast
    note v = slice_cut_val [OF Suc.prems(1) n c]
    have "n \<le> len s1" using v(3) n by simp
    from Suc.IH [OF v(1) this] obtain h' s' where
      "heap_cut grow z P n h1 s1 = Ret (h', s')" "slice_ok h' s'" "arr s' = arr s1"
      "slice_val h' s' = cut_back P n (slice_val h1 s1)" "\<forall>a. a \<noteq> arr s1 \<longrightarrow> h' a = h1 a"
      by blast
    then show ?thesis
      using True g c v by simp
  next
    case False
    then show ?thesis
      using Suc.IH [OF Suc.prems(1)] n g by simp
  qed
qed

section \<open>The table on the heap\<close>

record HRouter =
  h_Service :: string
  h_Addrs :: slice
  h_Checksum :: "byte list"

record hstate =
  mem :: "NodeAddr heap"
  next_free :: nat
  table :: "string \<rightharpoonup> HRouter"

definition abs_router :: "NodeAddr heap \<Rightarrow> HRouter \<Rightarrow> Router" where
  "abs_router h r = \<lparr>r_Service = h_Service r, r_Addrs = slice_val h (h_Addrs r), r_Checksum = h_Checksum r\<rparr>"

definition abs_table :: "hstate \<Rightarrow> routers" where
  "abs_table st = (\<lambda>k. map_option (abs_router (mem st)) (table st k))"

text \<open>Every slice of the table lies in allocated memory, and no two services share an array.\<close>

definition hinv :: "hstate \<Rightarrow> bool" where
  "hinv st \<longleftrightarrow>
     (\<forall>k r. table st k = Some r \<longrightarrow> slice_ok (mem st) (h_Addrs r) \<and> arr (h_Addrs r) < next_free st) \<and>
     (\<forall>j k r r'. table st j = Some r \<longrightarrow> table st k = Some r' \<longrightarrow> j \<noteq> k \<longrightarrow>
        arr (h_Addrs r) \<noteq> arr (h_Addrs r'))"

definition hremove_one :: "(nat \<Rightarrow> nat \<Rightarrow> nat) \<Rightarrow> NodeAddr \<Rightarrow> (NodeAddr \<Rightarrow> bool) \<Rightarrow> string \<Rightarrow> hstate \<Rightarrow> hstate go" where
  "hremove_one grow z P k st =
     (case table st k of
        None \<Rightarrow> Ret st
      | Some v \<Rightarrow>
          go_bind (heap_cut grow z P (len (h_Addrs v)) (mem st) (h_Addrs v)) (\<lambda>(h', addrs).
            if len addrs = 0 then Ret (st\<lparr>mem := h', table := (table st)(k := None)\<rparr>)
            else Ret (st\<lparr>mem := h', table := (table st)(k \<mapsto>
                   \<lparr>h_Service = k, h_Addrs = addrs, h_Checksum = calcChecksum (slice_val h' addrs)\<rparr>)\<rparr>)))"

fun hremove :: "(nat \<Rightarrow> nat \<Rightarrow> nat) \<Rightarrow> NodeAddr \<Rightarrow> (NodeAddr \<Rightarrow> bool) \<Rightarrow> string list \<Rightarrow> hstate \<Rightarrow> hstate go" where
  "hremove grow z P [] st = Ret st"
| "hremove grow z P (k # ks) st = go_bind (hremove_one grow z P k st) (hremove grow z P ks)"

definition hadd_one :: "(nat \<Rightarrow> nat \<Rightarrow> nat) \<Rightarrow> NodeAddr \<Rightarrow> string \<Rightarrow> string \<Rightarrow> string \<Rightarrow> hstate \<Rightarrow> hstate" where
  "hadd_one grow z node addr ms st =
     (let na = \<lparr>na_Node = node, na_Addr = addr\<rparr> in
      case table st ms of
        None \<Rightarrow>
          (let s = \<lparr>arr = next_free st, off = 0, len = 1, cap = 1\<rparr>
           in st\<lparr>mem := (mem st)(next_free st \<mapsto> [na]), next_free := Suc (next_free st),
                 table := (table st)(ms \<mapsto>
                   \<lparr>h_Service = ms, h_Addrs = s, h_Checksum = calcChecksum [na]\<rparr>)\<rparr>)
      | Some router \<Rightarrow>
          if list_ex (\<lambda>v. na_Addr v = addr) (slice_val (mem st) (h_Addrs router)) then st
          else (let (h', addrs) = slice_append grow z (next_free st) (mem st) (h_Addrs router) [na]
                in st\<lparr>mem := h', next_free := Suc (next_free st),
                      table := (table st)(ms \<mapsto>
                        \<lparr>h_Service = ms, h_Addrs = addrs, h_Checksum = calcChecksum (slice_val h' addrs)\<rparr>)\<rparr>))"

definition hAddRouter ::
  "(nat \<Rightarrow> nat \<Rightarrow> nat) \<Rightarrow> NodeAddr \<Rightarrow> string list \<Rightarrow> string \<Rightarrow> string \<Rightarrow> string list \<Rightarrow> hstate \<Rightarrow> hstate go" where
  "hAddRouter grow z ks node addr mss st =
     go_bind (hremove grow z (\<lambda>a. na_Addr a = addr) ks st)
       (\<lambda>st'. Ret (fold (hadd_one grow z node addr) mss st'))"

section \<open>Refinement\<close>

lemma hinvD:
  assumes "hinv st" and "table st k = Some r"
  shows "slice_ok (mem st) (h_Addrs r)" and "arr (h_Addrs r) < next_free st"
  using assms by (auto simp: hinv_def)

lemma hinv_sep:
  "hinv st \<Longrightarrow> table st j = Some r \<Longrightarrow> table st k = Some r' \<Longrightarrow> j \<noteq> k \<Longrightarrow>
   arr (h_Addrs r) \<noteq> arr (h_Addrs r')"
  unfolding hinv_def by blast

text \<open>One entry replaced by a slice in the same array or in a fresh one, every other array untouched.\<close>

lemma hinv_update:
  assumes inv: "hinv st" and ok: "slice_ok h' s" and n: "arr s < n" "next_free st \<le> n"
    and own: "\<And>j r. j \<noteq> k \<Longrightarrow> table st j = Some r \<Longrightarrow> arr (h_Addrs r) \<noteq> arr s \<and> h' (arr (h_Addrs r)) = mem st (arr (h_Addrs r))"
  shows "hinv (st\<lparr>mem := h', next_free := n, table := (table st)(k \<mapsto> \<lparr>h_Service = sv, h_Addrs = s, h_Checksum = c\<rparr>)\<rparr>)"
    and "abs_table (st\<lparr>mem := h', next_free := n, table := (table st)(k \<mapsto> \<lparr>h_Service = sv, h_Addrs = s, h_Checksum = c\<rparr>)\<rparr>)
      = (abs_table st)(k \<mapsto> \<lparr>r_Service = sv, r_Addrs = slice_val h' s, r_Checksum = c\<rparr>)"
proof -
  have fr: "slice_ok h' (h_Addrs r) \<and> slice_val h' (h_Addrs r) = slice_val (mem st) (h_Addrs r)"
    if "j \<noteq> k" "table st j = Some r" for j r
    using that own slice_frame [of h' "h_Addrs r" "mem st"] hinvD(1) [OF inv] by metis
  have lt: "arr (h_Addrs r) < n" if "table st j = Some r" for j r
    using hinvD(2) [OF inv that] n(2) by simp
  show "hinv (st\<lparr>mem := h', next_free := n, table := (table st)(k \<mapsto> \<lparr>h_Service = sv, h_Addrs = s, h_Checksum = c\<rparr>)\<rparr>)"
    unfolding hinv_def using ok n(1) own fr lt hinv_sep [OF inv]
    by (auto split: if_splits) metis+
  show "abs_table (st\<lparr>mem := h', next_free := n, table := (table st)(k \<mapsto> \<lparr>h_Service = sv, h_Addrs = s, h_Checksum = c\<rparr>)\<rparr>)
      = (abs_table st)(k \<mapsto> \<lparr>r_Service = sv, r_Addrs = slice_val h' s, r_Checksum = c\<rparr>)"
    by (rule ext) (use fr in \<open>auto simp: abs_table_def abs_router_def map_option_case split: option.splits\<close>)
qed

lemma hinv_delete:
  assumes inv: "hinv st"
    and own: "\<And>j r. j \<noteq> k \<Longrightarrow> table st j = Some r \<Longrightarrow> h' (arr (h_Addrs r)) = mem st (arr (h_Addrs r))"
  shows "hinv (st\<lparr>mem := h', table := (table st)(k := None)\<rparr>)"
    and "abs_table (st\<lparr>mem := h', table := (table st)(k := None)\<rparr>) = (abs_table st)(k := None)"
proof -
  have fr: "slice_ok h' (h_Addrs r) \<and> slice_val h' (h_Addrs r) = slice_val (mem st) (h_Addrs r)"
    if "j \<noteq> k" "table st j = Some r" for j r
    using that own slice_frame [of h' "h_Addrs r" "mem st"] hinvD(1) [OF inv] by metis
  show "hinv (st\<lparr>mem := h', table := (table st)(k := None)\<rparr>)"
    unfolding hinv_def using fr hinvD(2) [OF inv] hinv_sep [OF inv]
    by (auto split: if_splits)
  show "abs_table (st\<lparr>mem := h', table := (table st)(k := None)\<rparr>) = (abs_table st)(k := None)"
    by (rule ext) (use fr in \<open>auto simp: abs_table_def abs_router_def map_option_case split: option.splits\<close>)
qed

lemma hremove_one_refines:
  assumes inv: "hinv st"
  shows "\<exists>st'. hremove_one grow z P k st = Ret st' \<and> hinv st' \<and>
    abs_table st' = (case abs_table st k of None \<Rightarrow> abs_table st
      | Some v \<Rightarrow> (abs_table st)(k := rebuild k (cut_back P (length (r_Addrs v)) (r_Addrs v))))"
proof (cases "table st k")
  case None
  then show ?thesis
    using inv by (simp add: hremove_one_def abs_table_def)
next
  case (Some v)
  let ?s = "h_Addrs v"
  have ok: "slice_ok (mem st) ?s" and lt: "arr ?s < next_free st"
    using hinvD [OF inv Some] by simp_all
  obtain h' s' where c: "heap_cut grow z P (len ?s) (mem st) ?s = Ret (h', s')"
      and ok': "slice_ok h' s'" and a': "arr s' = arr ?s"
      and v': "slice_val h' s' = cut_back P (len ?s) (slice_val (mem st) ?s)"
      and fr: "\<And>a. a \<noteq> arr ?s \<Longrightarrow> h' a = mem st a"
    using heap_cut_refines [OF ok order.refl, of grow z P] by blast
  have own: "j \<noteq> k \<Longrightarrow> table st j = Some r \<Longrightarrow>
      arr (h_Addrs r) \<noteq> arr s' \<and> h' (arr (h_Addrs r)) = mem st (arr (h_Addrs r))" for j r
    using hinv_sep [OF inv _ Some, of j r] a' fr by metis
  have abs: "abs_table st k = Some (abs_router (mem st) v)"
    by (simp add: abs_table_def Some)
  have l: "length (slice_val h' s') = len s'"
    by (rule length_slice_val [OF ok'])
  have lv: "length (slice_val (mem st) ?s) = len ?s"
    by (rule length_slice_val [OF ok])
  show ?thesis
  proof (cases "len s' = 0")
    case True
    then have "slice_val h' s' = []" using l by simp
    then show ?thesis
      using Some c True hinv_delete [OF inv, of k h'] own v' lv
      by (simp add: hremove_one_def abs abs_router_def)
  next
    case False
    then have n: "slice_val h' s' \<noteq> []" using l by auto
    show ?thesis
      using Some c False hinv_update [OF inv ok', of "next_free st" k k] own lt a' v' lv n
      by (simp add: hremove_one_def abs abs_router_def rebuild_def)
  qed
qed

lemma hremove_refines:
  "hinv st \<Longrightarrow> \<exists>st'. hremove grow z P ks st = Ret st' \<and> hinv st' \<and>
    abs_table st' = map_loop (\<lambda>k v. rebuild k (cut_back P (length (r_Addrs v)) (r_Addrs v))) ks (abs_table st)"
proof (induction ks arbitrary: st)
  case Nil
  then show ?case by simp
next
  case (Cons k ks)
  obtain st1 where "hremove_one grow z P k st = Ret st1" and i: "hinv st1"
      and a: "abs_table st1 = (case abs_table st k of None \<Rightarrow> abs_table st
        | Some v \<Rightarrow> (abs_table st)(k := rebuild k (cut_back P (length (r_Addrs v)) (r_Addrs v))))"
    using hremove_one_refines [OF Cons.prems, of grow z P k] by blast
  then show ?case
    using Cons.IH [OF i] by simp
qed

lemma slice_append_val:
  assumes ok: "slice_ok h s" and g: "\<And>c n. n \<le> grow c n" and fresh: "arr s \<noteq> new"
    and r: "slice_append grow z new h s ys = (h', s')"
  shows "slice_ok h' s'" and "slice_val h' s' = slice_val h s @ ys"
    and "arr s' = arr s \<or> arr s' = new" and "a \<noteq> arr s \<Longrightarrow> a \<noteq> new \<Longrightarrow> h' a = h a"
proof -
  obtain xs where xs: "h (arr s) = Some xs" "off s + cap s \<le> length xs" "len s \<le> cap s"
      "slice_val h s = take (len s) (drop (off s) xs)"
    using ok by (rule slice_okE)
  have lv: "length (slice_val h s) = len s"
    by (rule length_slice_val [OF ok])
  let ?n = "len s + length ys"
  have "slice_ok h' s' \<and> slice_val h' s' = slice_val h s @ ys \<and> (arr s' = arr s \<or> arr s' = new) \<and>
      (a \<noteq> arr s \<longrightarrow> a \<noteq> new \<longrightarrow> h' a = h a)"
  proof (cases "?n \<le> cap s")
    case True
    have "drop (off s) (write_at (off s + len s) ys xs) =
        slice_val h s @ ys @ drop (off s + len s + length ys) xs"
      using True xs by (simp add: write_at_def take_drop add.commute)
    then have "take ?n (drop (off s) (write_at (off s + len s) ys xs)) = slice_val h s @ ys"
      using lv by (metis append.assoc append_eq_conv_conj length_append)
    then show ?thesis
      using True r xs by (auto simp: slice_append_def Let_def slice_ok_def slice_val_def)
  next
    case False
    then show ?thesis
      using r xs lv g [of ?n "cap s"]
      by (auto simp: slice_append_def Let_def slice_ok_def slice_val_def)
  qed
  then show "slice_ok h' s'" and "slice_val h' s' = slice_val h s @ ys"
    and "arr s' = arr s \<or> arr s' = new" and "a \<noteq> arr s \<Longrightarrow> a \<noteq> new \<Longrightarrow> h' a = h a"
    by blast+
qed

lemma hadd_one_refines:
  assumes inv: "hinv st" and g: "\<And>c n. n \<le> grow c n"
  shows "hinv (hadd_one grow z node addr ms st)"
    and "abs_table (hadd_one grow z node addr ms st) = add_one node addr ms (abs_table st)"
proof -
  let ?na = "\<lparr>na_Node = node, na_Addr = addr\<rparr>"
  have "hinv (hadd_one grow z node addr ms st) \<and>
    abs_table (hadd_one grow z node addr ms st) = add_one node addr ms (abs_table st)"
  proof (cases "table st ms")
    case None
    let ?s = "\<lparr>arr = next_free st, off = 0, len = 1, cap = 1\<rparr>"
    have ok: "slice_ok ((mem st)(next_free st \<mapsto> [?na])) ?s"
      by (simp add: slice_ok_def)
    have own: "j \<noteq> ms \<Longrightarrow> table st j = Some r \<Longrightarrow> arr (h_Addrs r) \<noteq> next_free st" for j r
      using hinvD(2) [OF inv] by fastforce
    show ?thesis
      using None hinv_update [OF inv ok, of "Suc (next_free st)" ms ms] own
      by (simp add: hadd_one_def Let_def add_one_def abs_table_def slice_val_def)
  next
    case (Some r)
    have ok: "slice_ok (mem st) (h_Addrs r)" and lt: "arr (h_Addrs r) < next_free st"
      using hinvD [OF inv Some] by simp_all
    have abs: "abs_table st ms = Some (abs_router (mem st) r)"
      by (simp add: abs_table_def Some)
    obtain h' s' where ap: "slice_append grow z (next_free st) (mem st) (h_Addrs r) [?na] = (h', s')"
      by fastforce
    note v = slice_append_val [OF ok g _ ap]
    have own: "j \<noteq> ms \<Longrightarrow> table st j = Some q \<Longrightarrow>
        arr (h_Addrs q) \<noteq> arr s' \<and> h' (arr (h_Addrs q)) = mem st (arr (h_Addrs q))" for j q
      using hinv_sep [OF inv _ Some, of j q] hinvD(2) [OF inv, of j q] v lt
      by (metis less_irrefl)
    have n: "arr s' < Suc (next_free st)"
      using v lt by force
    show ?thesis
      using Some ap inv hinv_update [OF inv v(1) n, of ms ms] own v(2) lt
      by (simp add: hadd_one_def Let_def add_one_def abs abs_router_def rebuild_snoc)
  qed
  then show "hinv (hadd_one grow z node addr ms st)"
    and "abs_table (hadd_one grow z node addr ms st) = add_one node addr ms (abs_table st)"
    by blast+
qed

lemma hadd_fold_refines:
  assumes g: "\<And>c n. n \<le> grow c n"
  shows "hinv st \<Longrightarrow> hinv (fold (hadd_one grow z node addr) mss st) \<and>
    abs_table (fold (hadd_one grow z node addr) mss st) = fold (add_one node addr) mss (abs_table st)"
  by (induction mss arbitrary: st) (simp_all add: hadd_one_refines [OF _ g])

definition hRemoveRouterByHost ::
  "(nat \<Rightarrow> nat \<Rightarrow> nat) \<Rightarrow> NodeAddr \<Rightarrow> string list \<Rightarrow> string \<Rightarrow> hstate \<Rightarrow> hstate go" where
  "hRemoveRouterByHost grow z ks node st = hremove grow z (\<lambda>a. na_Node a = node) ks st"

definition hRemoveRouter ::
  "(nat \<Rightarrow> nat \<Rightarrow> nat) \<Rightarrow> NodeAddr \<Rightarrow> string list \<Rightarrow> string \<Rightarrow> hstate \<Rightarrow> hstate go" where
  "hRemoveRouter grow z ks addr st = hremove grow z (\<lambda>a. na_Addr a = addr) ks st"

section \<open>A slice handed out before a removal\<close>

lemma heap_cut_skip:
  "n \<le> len s \<Longrightarrow> (\<And>j. j < n \<Longrightarrow> \<not> P (slice_val h s ! j)) \<Longrightarrow> heap_cut grow z P n h s = Ret (h, s)"
  by (induction n) (simp_all add: slice_get_def)

lemma heap_cut_skip_to:
  "i + m \<le> len s \<Longrightarrow> (\<And>j. i \<le> j \<Longrightarrow> j < i + m \<Longrightarrow> \<not> P (slice_val h s ! j)) \<Longrightarrow>
   heap_cut grow z P (i + m) h s = heap_cut grow z P i h s"
  by (induction m) (simp_all add: slice_get_def)

lemma heap_cut_single:
  assumes ok: "slice_ok h s" and v: "slice_val h s = pre @ x # post" and px: "P x"
    and np: "\<And>y. y \<in> set pre \<union> set post \<Longrightarrow> \<not> P y"
  shows "\<exists>xs. h (arr s) = Some xs \<and>
    heap_cut grow z P (len s) h s =
      Ret (h(arr s \<mapsto> write_at (off s + length pre) post xs), s\<lparr>len := len s - 1\<rparr>)"
proof -
  let ?i = "length pre"
  have l: "len s = Suc ?i + length post"
    using length_slice_val [OF ok] v by simp
  then have i: "?i < len s" by simp
  have "heap_cut grow z P (len s) h s = heap_cut grow z P (Suc ?i) h s"
    unfolding l by (rule heap_cut_skip_to) (use l v np in \<open>auto simp: nth_append nth_Cons'\<close>)
  moreover obtain xs where xs: "h (arr s) = Some xs"
    and c: "slice_cut grow z 0 ?i h s =
      Ret (h(arr s \<mapsto> write_at (off s + ?i) post xs), s\<lparr>len := len s - 1\<rparr>)" (is "_ = Ret (?h, ?s)")
    using slice_cut_spec [OF ok i, of grow z 0] v by auto
  moreover have v': "slice_val ?h ?s = pre @ post"
    using slice_cut_val(4) [OF ok i c] v by simp
  moreover have "heap_cut grow z P ?i ?h ?s = Ret (?h, ?s)"
    by (rule heap_cut_skip) (use l v' np in \<open>auto simp: nth_append\<close>)
  ultimately show ?thesis
    using px v i by (simp add: slice_get_def)
qed

lemma write_at_snapshot:
  assumes "take n (drop o' xs) = pre @ x # post" and "n = Suc (length pre + length post)"
    and "o' + n \<le> length xs"
  shows "take n (drop o' (write_at (o' + length pre) post xs)) = pre @ post @ [last (x # post)]"
proof -
  let ?v = "pre @ x # post"
  have xs: "drop o' xs = ?v @ drop (o' + n) xs"
    using assms(1) by (metis append_take_drop_id drop_drop add.commute)
  have "drop (o' + length pre + length post) xs = drop (length pre + length post) (drop o' xs)"
    by (simp add: add.commute add.left_commute)
  also have "\<dots> = drop (length pre + length post) ?v @ drop (o' + n) xs"
  proof -
    have z: "length pre + length post - length ?v = 0" by simp
    show ?thesis by (simp only: xs drop_append z drop_0)
  qed
  also have "drop (length pre + length post) ?v = [last (x # post)]"
    by (cases post rule: rev_cases) auto
  finally have r: "drop (o' + length pre + length post) xs = last (x # post) # drop (o' + n) xs"
    by simp
  have "take (length pre) (drop o' xs) = pre"
    unfolding xs by simp
  then have "drop o' (take (o' + length pre) xs) = pre"
    by (simp add: take_drop add.commute)
  then have "drop o' (write_at (o' + length pre) post xs) =
      (pre @ post @ [last (x # post)]) @ drop (o' + n) xs"
    using assms(3) assms(2) r by (simp add: write_at_def)
  then show ?thesis
    using assms(2) by simp
qed

lemma hremove_one_frame:
  assumes inv: "hinv st" and k: "table st k = Some r" and jk: "j \<noteq> k"
    and s: "hremove_one grow z P j st = Ret st'"
  shows "table st' k = Some r" and "mem st' (arr (h_Addrs r)) = mem st (arr (h_Addrs r))"
proof -
  have "table st' k = Some r \<and> mem st' (arr (h_Addrs r)) = mem st (arr (h_Addrs r))"
  proof (cases "table st j")
    case None
    then show ?thesis using s k by (simp add: hremove_one_def)
  next
    case (Some v)
    obtain h' s' where c: "heap_cut grow z P (len (h_Addrs v)) (mem st) (h_Addrs v) = Ret (h', s')"
        and fr: "\<forall>a. a \<noteq> arr (h_Addrs v) \<longrightarrow> h' a = mem st a"
      using heap_cut_refines [OF hinvD(1) [OF inv Some] order.refl, of grow z P] by blast
    have "h' (arr (h_Addrs r)) = mem st (arr (h_Addrs r))"
      using fr hinv_sep [OF inv k Some] jk by metis
    then show ?thesis
      using s c Some k jk by (auto simp: hremove_one_def split: if_splits)
  qed
  then show "table st' k = Some r" and "mem st' (arr (h_Addrs r)) = mem st (arr (h_Addrs r))"
    by blast+
qed

lemma hremove_frame:
  "hinv st \<Longrightarrow> table st k = Some r \<Longrightarrow> k \<notin> set ks \<Longrightarrow> hremove grow z P ks st = Ret st' \<Longrightarrow>
   hinv st' \<and> table st' k = Some r \<and> mem st' (arr (h_Addrs r)) = mem st (arr (h_Addrs r))"
proof (induction ks arbitrary: st)
  case (Cons j ks)
  obtain st1 where s1: "hremove_one grow z P j st = Ret st1" and i1: "hinv st1"
    using hremove_one_refines [OF Cons.prems(1)] by blast
  have "j \<noteq> k" using Cons.prems(3) by auto
  note f = hremove_one_frame [OF Cons.prems(1,2) this s1]
  show ?case
    using Cons.IH [OF i1 f(1)] Cons.prems(3,4) s1 f(2) by simp
qed simp

text \<open>Arrays that no entry of the table uses any more are left alone too.\<close>

lemma hremove_one_unused:
  assumes inv: "hinv st" and u: "\<And>j r. table st j = Some r \<Longrightarrow> arr (h_Addrs r) \<noteq> a"
    and s: "hremove_one grow z P k st = Ret st'"
  shows "mem st' a = mem st a" and "table st' j = Some r \<Longrightarrow> arr (h_Addrs r) \<noteq> a"
proof -
  have "mem st' a = mem st a \<and> (\<forall>j r. table st' j = Some r \<longrightarrow> arr (h_Addrs r) \<noteq> a)"
  proof (cases "table st k")
    case None
    then show ?thesis using s u by (simp add: hremove_one_def)
  next
    case (Some v)
    obtain h' s' where c: "heap_cut grow z P (len (h_Addrs v)) (mem st) (h_Addrs v) = Ret (h', s')"
        and "arr s' = arr (h_Addrs v)" and "\<forall>a. a \<noteq> arr (h_Addrs v) \<longrightarrow> h' a = mem st a"
      using heap_cut_refines [OF hinvD(1) [OF inv Some] order.refl, of grow z P] by blast
    moreover have "arr (h_Addrs v) \<noteq> a" by (rule u [OF Some])
    ultimately have "mem st' = h' \<and> h' a = mem st a \<and> arr s' \<noteq> a \<and>
        (table st' = (table st)(k := None) \<or>
         (\<exists>c. table st' = (table st)(k \<mapsto> \<lparr>h_Service = k, h_Addrs = s', h_Checksum = c\<rparr>)))"
      using s Some by (auto simp: hremove_one_def split: if_splits)
    then have *: "mem st' = h' \<and> h' a = mem st a \<and> arr s' \<noteq> a"
      and t: "table st' j = Some q \<Longrightarrow> table st j = Some q \<or> arr (h_Addrs q) = arr s'" for j q
      by (auto split: if_splits)
    have "table st' j = Some q \<Longrightarrow> arr (h_Addrs q) \<noteq> a" for j q
      using t [of j q] u [of j q] * by auto
    then show ?thesis using * by blast
  qed
  then show "mem st' a = mem st a" and "table st' j = Some r \<Longrightarrow> arr (h_Addrs r) \<noteq> a"
    by blast+
qed

lemma hremove_unused:
  "hinv st \<Longrightarrow> (\<And>j r. table st j = Some r \<Longrightarrow> arr (h_Addrs r) \<noteq> a) \<Longrightarrow>
   hremove grow z P ks st = Ret st' \<Longrightarrow> mem st' a = mem st a"
proof (induction ks arbitrary: st)
  case (Cons j ks)
  obtain st1 where s1: "hremove_one grow z P j st = Ret st1" and i1: "hinv st1"
    using hremove_one_refines [OF Cons.prems(1)] by blast
  note f = hremove_one_unused [OF Cons.prems(1,2) s1]
  show ?case
    using Cons.IH [OF i1 f(2)] Cons.prems(3) s1 f(1) by simp
qed simp

lemma hremove_append:
  "hremove grow z P (as @ bs) st = go_bind (hremove grow z P as st) (hremove grow z P bs)"
proof (induction as arbitrary: st)
  case (Cons a as)
  then show ?case by (cases "hremove_one grow z P a st") auto
qed simp

text \<open>The removal of the only matching address out of one entry, the array of that entry seen
  afterwards.\<close>

lemma hremove_one_snapshot:
  assumes inv: "hinv st" and k: "table st k = Some r"
    and v: "slice_val (mem st) (h_Addrs r) = pre @ x # post" and px: "P x"
    and np: "\<forall>y \<in> set pre \<union> set post. \<not> P y"
    and s: "hremove_one grow z P k st = Ret st'"
  shows "slice_val (mem st') (h_Addrs r) = pre @ post @ [last (x # post)]"
    and "table st' k = None \<or> (\<exists>r'. table st' k = Some r' \<and> arr (h_Addrs r') = arr (h_Addrs r))"
proof -
  let ?s = "h_Addrs r"
  note ok = hinvD(1) [OF inv k]
  obtain xs where xs: "mem st (arr ?s) = Some xs" and
    c: "heap_cut grow z P (len ?s) (mem st) ?s =
      Ret ((mem st)(arr ?s \<mapsto> write_at (off ?s + length pre) post xs), ?s\<lparr>len := len ?s - 1\<rparr>)"
    using heap_cut_single [where P = P, OF ok v px] np by blast
  have l: "len ?s = Suc (length pre + length post)"
    using length_slice_val [OF ok] v by simp
  have t: "take (len ?s) (drop (off ?s) xs) = pre @ x # post"
    using v xs by (simp add: slice_val_def)
  have b: "off ?s + len ?s \<le> length xs"
    using ok xs by (simp add: slice_ok_def)
  have m: "mem st' = (mem st)(arr ?s \<mapsto> write_at (off ?s + length pre) post xs)"
    using s k c by (auto simp: hremove_one_def split: if_splits)
  show "slice_val (mem st') ?s = pre @ post @ [last (x # post)]"
    using write_at_snapshot [OF t l b] by (simp add: slice_val_def m)
  show "table st' k = None \<or> (\<exists>r'. table st' k = Some r' \<and> arr (h_Addrs r') = arr ?s)"
    using s k c by (auto simp: hremove_one_def split: if_splits)
qed

lemma hremove_snapshot:
  assumes inv: "hinv st" and e: "enumerates ks (table st)" and k: "table st k = Some r"
    and v: "slice_val (mem st) (h_Addrs r) = pre @ x # post" and px: "P x"
    and np: "\<forall>y \<in> set pre \<union> set post. \<not> P y"
    and s: "hremove grow z P ks st = Ret st'"
  shows "slice_val (mem st') (h_Addrs r) = pre @ post @ [last (x # post)]"
proof -
  have "k \<in> set ks" and d: "distinct ks"
    using e k by (auto simp: enumerates_def)
  then obtain as bs where ks: "ks = as @ k # bs" and kn: "k \<notin> set as" "k \<notin> set bs"
    by (metis distinct.simps(2) distinct_append in_set_conv_decomp_first)
  obtain st1 where s1: "hremove grow z P as st = Ret st1"
    using hremove_refines [OF inv] by blast
  note f1 = hremove_frame [OF inv k kn(1) s1]
  then have i1: "hinv st1" and k1: "table st1 k = Some r" by blast+
  have v1: "slice_val (mem st1) (h_Addrs r) = pre @ x # post"
    using f1 v slice_frame [of "mem st1" "h_Addrs r" "mem st"] by simp
  obtain st2 where s2: "hremove_one grow z P k st1 = Ret st2" and i2: "hinv st2"
    using hremove_one_refines [OF i1] by blast
  note h = hremove_one_snapshot [where P = P, OF i1 k1 v1 px np s2]
  have s3: "hremove grow z P bs st2 = Ret st'"
    using s ks s1 s2 by (simp add: hremove_append)
  have "mem st' (arr (h_Addrs r)) = mem st2 (arr (h_Addrs r))"
    using h(2)
  proof (elim disjE exE conjE)
    assume n: "table st2 k = None"
    have "arr (h_Addrs q) \<noteq> arr (h_Addrs r)" if "table st2 j = Some q" for j q
    proof -
      have jk: "j \<noteq> k" using n that by auto
      have "table st1 j = Some q"
        using s2 k1 that jk by (auto simp: hremove_one_def go_bind_eq_Ret split: if_splits prod.splits)
      then show ?thesis using hinv_sep [OF i1 _ k1 jk] by blast
    qed
    from hremove_unused [OF i2 this s3] show ?thesis .
  next
    fix r' assume "table st2 k = Some r'" "arr (h_Addrs r') = arr (h_Addrs r)"
    with hremove_frame [OF i2 _ kn(2) s3] show ?thesis by metis
  qed
  then show ?thesis
    using h(1) slice_frame [of "mem st'" "h_Addrs r" "mem st2"] by simp
qed

section \<open>Properties\<close>

definition mem_two :: hstate where
  "mem_two = \<lparr>mem = [0 \<mapsto> [\<lparr>na_Node = ''n1'', na_Addr = ''a1''\<rparr>, \<lparr>na_Node = ''n2'', na_Addr = ''a2''\<rparr>]],
     next_free = 1,
     table = [''s'' \<mapsto> \<lparr>h_Service = ''s'', h_Addrs = \<lparr>arr = 0, off = 0, len = 2, cap = 2\<rparr>,
                h_Checksum = calcChecksum [\<lparr>na_Node = ''n1'', na_Addr = ''a1''\<rparr>, \<lparr>na_Node = ''n2'', na_Addr = ''a2''\<rparr>]\<rparr>]\<rparr>"

lemma mem_two_simps:
  "hinv mem_two" "table mem_two k = Some r \<longleftrightarrow> k = ''s'' \<and> r = the (table mem_two ''s'')"
  "enumerates [''s''] (table mem_two)"
  "slice_val (mem mem_two) (h_Addrs (the (table mem_two ''s''))) =
    [\<lparr>na_Node = ''n1'', na_Addr = ''a1''\<rparr>, \<lparr>na_Node = ''n2'', na_Addr = ''a2''\<rparr>]"
  by (auto simp: mem_two_def hinv_def slice_ok_def enumerates_def slice_val_def split: if_splits)

text \<open>C7. Run on slices in memory, with every slice bound, index and in-place append of the code
  explicit, the three router operations never panic, keep the services on separate arrays, and
  compute on the table exactly what the list-level operations compute, for every growth policy of
  \<^verbatim>\<open>append\<close> that allocates enough.\<close>

theorem heap_table_refines:
  assumes inv: "hinv st" and g: "\<And>c n. n \<le> grow c n"
  shows "(\<exists>st'. hRemoveRouterByHost grow z ks node st = Ret st' \<and> hinv st' \<and>
            abs_table st' = RemoveRouterByHost ks node (abs_table st)) \<and>
         (\<exists>st'. hRemoveRouter grow z ks addr st = Ret st' \<and> hinv st' \<and>
            abs_table st' = RemoveRouter ks addr (abs_table st)) \<and>
         (\<exists>st'. hAddRouter grow z ks node addr mss st = Ret st' \<and> hinv st' \<and>
            abs_table st' = AddRouter ks node addr mss (abs_table st))"
proof (intro conjI)
  show "\<exists>st'. hRemoveRouterByHost grow z ks node st = Ret st' \<and> hinv st' \<and>
      abs_table st' = RemoveRouterByHost ks node (abs_table st)"
    unfolding hRemoveRouterByHost_def RemoveRouterByHost_def by (rule hremove_refines [OF inv])
  show "\<exists>st'. hRemoveRouter grow z ks addr st = Ret st' \<and> hinv st' \<and>
      abs_table st' = RemoveRouter ks addr (abs_table st)"
    unfolding hRemoveRouter_def RemoveRouter_def removeRouter_def by (rule hremove_refines [OF inv])
  obtain st1 where s: "hremove grow z (\<lambda>a. na_Addr a = addr) ks st = Ret st1" and i: "hinv st1"
      and a: "abs_table st1 = removeRouter ks addr (abs_table st)"
    using hremove_refines [OF inv] unfolding removeRouter_def by blast
  show "\<exists>st'. hAddRouter grow z ks node addr mss st = Ret st' \<and> hinv st' \<and>
      abs_table st' = AddRouter ks node addr mss (abs_table st)"
    using hadd_fold_refines [OF g i] s a
    by (simp add: hAddRouter_def AddRouter_def AddRouter_loop_fold)
qed

theorem heap_table_refines_witness:
  "\<exists>st'. hAddRouter (\<lambda>c n. 2 * n) \<lparr>na_Node = [], na_Addr = []\<rparr> [''s''] ''n3'' ''a3'' [''s'', ''t''] mem_two = Ret st' \<and>
     hinv st' \<and> abs_table st' = AddRouter [''s''] ''n3'' ''a3'' [''s'', ''t''] (abs_table mem_two)"
  using heap_table_refines [OF mem_two_simps(1), of "\<lambda>c n. 2 * n"] by simp

text \<open>A slice handed out before the removal of a host (the reply of ListRouters or
  GetRouterTable still being encoded) shares its array with the table: the in-place deletion shifts
  it under the reader, who sees the removed node's address replaced by its successors and the last
  address twice.\<close>

lemma snapshot_corrupted:
  assumes inv: "hinv st" and e: "enumerates ks (table st)" and k: "table st k = Some r"
    and v: "slice_val (mem st) (h_Addrs r) = pre @ x # post"
    and one: "na_Node x = node" "\<forall>y \<in> set pre \<union> set post. na_Node y \<noteq> node"
    and s: "hRemoveRouterByHost grow z ks node st = Ret st'"
  shows "slice_val (mem st') (h_Addrs r) = pre @ post @ [last (x # post)]"
  by (rule hremove_snapshot [OF inv e k v, where P = "\<lambda>a. na_Node a = node"])
    (use one s in \<open>auto simp: hRemoveRouterByHost_def\<close>)

end
