(* ===== verification/Serf.thy ===== *)
theory Serf
  imports Prelude
begin

text \<open>
  The data the code exchanges with the serf library (\<^verbatim>\<open>github.com/hashicorp/serf/serf\<close>): members,
  events and queries, with the fields the code reads. The library's operations are parameters of
  the definitions that call them.
\<close>

datatype MemberStatus = StatusNone | StatusAlive | StatusLeaving | StatusLeft | StatusFailed

record Member =
  m_Name :: string
  m_Addr :: string
  m_Port :: "16 word"
  m_Tags :: "string \<rightharpoonup> string"
  m_Status :: MemberStatus
  m_ProtocolMin :: "8 word"
  m_ProtocolMax :: "8 word"
  m_ProtocolCur :: "8 word"
  m_DelegateMin :: "8 word"
  m_DelegateMax :: "8 word"
  m_DelegateCur :: "8 word"

datatype EventType =
    EventMemberJoin | EventMemberLeave | EventMemberFailed | EventMemberUpdate | EventMemberReap
  | EventUser | EventQuery

record Query =
  q_id :: nat
  q_LTime :: uint64
  q_Name :: string
  q_Payload :: string

text \<open>The dynamic type of an event; \<open>OtherEvent\<close> is any other implementation of the interface.\<close>

datatype Event =
    MemberEvent EventType "Member list"
  | UserEvent uint64 string string bool
  | QueryEvent Query
  | OtherEvent EventType

fun event_type :: "Event \<Rightarrow> EventType" where
  "event_type (MemberEvent t ms) = t"
| "event_type (UserEvent lt n p c) = EventUser"
| "event_type (QueryEvent q) = EventQuery"
| "event_type (OtherEvent t) = t"

text \<open>The calls of the library that change the cluster, as values.\<close>

datatype serf_call = CallUserEvent string string bool

end
