(* ===== verification/Gossip.thy ===== *)
theory Gossip
  imports Routing Serf
begin

text \<open>
  How registrations travel through the cluster: \<^verbatim>\<open>discoverd/cluster/cluster.go\<close> turns the
  repository's calls into serf user events, \<^verbatim>\<open>discoverd/discoverd.go\<close> owns the repository of a
  node, and \<^verbatim>\<open>command/agent/discoverd_event_handler.go\<close> applies the events that arrive.

  The msgpack codec (third party) is the record \<open>codec\<close>; what the code relies on is \<open>codec_ok\<close>,
  that a decoder inverts its encoder. A node is a \<open>discoverd\<close>; a cluster is a \<open>world\<close>, the nodes,
  the user events sent so far and what clients did so far, with the step relation
  \<open>world_step\<close>: clients register and refresh, send user events of their own, list any agent's table and install any table
  at any agent; janitors tick; sent events and membership events are delivered to any node at any time.
\<close>

section \<open>Messages\<close>

definition RSCommand :: string where "RSCommand = ''rs''"
definition URSCommand :: string where "URSCommand = ''us''"

definition ev_RSCommand :: string where "ev_RSCommand = ''rs''"
definition ev_URSCommand :: string where "ev_URSCommand = ''us''"
definition QRPCAddrCommand :: string where "QRPCAddrCommand = ''qr''"

record codec =
  enc_service :: "InnerAppService \<Rightarrow> string + string"
  dec_service :: "string \<Rightarrow> string + InnerAppService"
  enc_addr :: "string \<Rightarrow> string + string"
  dec_addr :: "string \<Rightarrow> string + string"

definition codec_ok :: "codec \<Rightarrow> bool" where
  "codec_ok c \<longleftrightarrow>
     (\<forall>x p. enc_service c x = Inr p \<longrightarrow> dec_service c p = Inr x) \<and>
     (\<forall>x p. enc_addr c x = Inr p \<longrightarrow> dec_addr c p = Inr x)"

text \<open>The serf cluster of a node, its name taken from the local member. A call returns the error of
  the encoder or the user event handed to serf (whose own error is the caller's).\<close>

record serf_cluster =
  sc_node :: string

definition NewSerfCluster :: "Member \<Rightarrow> serf_cluster" where
  "NewSerfCluster local = \<lparr>sc_node = m_Name local\<rparr>"

definition cluster_RegisterService :: "codec \<Rightarrow> serf_cluster \<Rightarrow> AppService \<Rightarrow> string + serf_call" where
  "cluster_RegisterService cd c ss =
     (let ias = \<lparr>ias_NodeAddr = \<lparr>na_Node = sc_node c, na_Addr = as_Addr ss\<rparr>, ias_Services = as_Services ss\<rparr>
      in case enc_service cd ias of
           Inl err \<Rightarrow> Inl err
         | Inr payload \<Rightarrow> Inr (CallUserEvent RSCommand payload True))"

definition cluster_UnregisterService :: "codec \<Rightarrow> serf_cluster \<Rightarrow> string \<Rightarrow> string + serf_call" where
  "cluster_UnregisterService cd c addr =
     (case enc_addr cd addr of
        Inl err \<Rightarrow> Inl err
      | Inr payload \<Rightarrow> Inr (CallUserEvent URSCommand payload True))"

definition cluster_do :: "codec \<Rightarrow> serf_cluster \<Rightarrow> cluster_call \<Rightarrow> string + serf_call" where
  "cluster_do cd c call =
     (case call of
        RegisterService ss \<Rightarrow> cluster_RegisterService cd c ss
      | UnregisterService addr \<Rightarrow> cluster_UnregisterService cd c addr)"

section \<open>The node\<close>

record discoverd =
  d_repo :: repo
  d_cluster :: serf_cluster

text \<open>\<^verbatim>\<open>time.Duration (serviceTTL) * time.Second\<close>, in 64-bit arithmetic.\<close>

definition service_ttl :: "int64 \<Rightarrow> duration" where
  "service_ttl serviceTTL = serviceTTL * 1000000000"

definition Discoverd_Create :: "int64 \<Rightarrow> Member \<Rightarrow> discoverd" where
  "Discoverd_Create serviceTTL local =
     \<lparr>d_repo = NewDiscoverdRepo (service_ttl serviceTTL), d_cluster = NewSerfCluster local\<rparr>"

text \<open>\<open>d0\<close> is the daemon when the applications are counted, \<open>d\<close> the daemon when they are copied.\<close>

definition Discoverd_ListMicroApps :: "discoverd \<Rightarrow> string list \<Rightarrow> discoverd \<Rightarrow> MicroApp list go" where
  "Discoverd_ListMicroApps d0 ks d = repo_ListMicroApps (d_repo d0) ks (d_repo d)"

definition Discoverd_ListRouters :: "string list \<Rightarrow> discoverd \<Rightarrow> Router list go" where
  "Discoverd_ListRouters ks d = repo_ListRouters ks (d_repo d)"

definition Discoverd_UpdateRouters :: "string list \<Rightarrow> Router list \<Rightarrow> discoverd \<Rightarrow> discoverd" where
  "Discoverd_UpdateRouters ks rs d = d\<lparr>d_repo := repo_UpdateRouters ks rs (d_repo d)\<rparr>"

definition Discoverd_AddRouter :: "string list \<Rightarrow> string \<Rightarrow> string \<Rightarrow> string list \<Rightarrow> discoverd \<Rightarrow> discoverd" where
  "Discoverd_AddRouter ks name addr mss d = d\<lparr>d_repo := repo_AddRouter ks name addr mss (d_repo d)\<rparr>"

definition Discoverd_RemoveRouter :: "string list \<Rightarrow> string \<Rightarrow> discoverd \<Rightarrow> discoverd" where
  "Discoverd_RemoveRouter ks addr d = d\<lparr>d_repo := repo_RemoveRouter ks addr (d_repo d)\<rparr>"

definition Discoverd_RemoveRouterByHost :: "string list \<Rightarrow> string \<Rightarrow> discoverd \<Rightarrow> discoverd" where
  "Discoverd_RemoveRouterByHost ks name d = d\<lparr>d_repo := repo_RemoveRouterByHost ks name (d_repo d)\<rparr>"

abbreviation d_table :: "discoverd \<Rightarrow> routers" where
  "d_table d \<equiv> routers (d_repo d)"

section \<open>The event handler\<close>

text \<open>\<open>ord i\<close> is the priority list behind the iteration order of the \<open>i\<close>-th loop over the table.\<close>

fun remove_hosts :: "(nat \<Rightarrow> string list) \<Rightarrow> nat \<Rightarrow> Member list \<Rightarrow> discoverd \<Rightarrow> discoverd" where
  "remove_hosts ord i [] d = d"
| "remove_hosts ord i (m # ms) d =
     remove_hosts ord (Suc i) ms
       (Discoverd_RemoveRouterByHost (range_order (ord i) (d_table d)) (m_Name m) d)"

definition onMemberFaild :: "(nat \<Rightarrow> string list) \<Rightarrow> Member list \<Rightarrow> discoverd \<Rightarrow> string option \<times> discoverd" where
  "onMemberFaild ord ms d = (None, remove_hosts ord 0 ms d)"

definition onMemberLeave :: "(nat \<Rightarrow> string list) \<Rightarrow> Member list \<Rightarrow> discoverd \<Rightarrow> string option \<times> discoverd" where
  "onMemberLeave ord ms d = (None, remove_hosts ord 0 ms d)"

definition handler_registerService :: "(nat \<Rightarrow> string list) \<Rightarrow> InnerAppService \<Rightarrow> discoverd \<Rightarrow> discoverd" where
  "handler_registerService ord ias d =
     Discoverd_AddRouter (range_order (ord 0) (d_table d))
       (na_Node (ias_NodeAddr ias)) (na_Addr (ias_NodeAddr ias)) (ias_Services ias) d"

definition handler_unregisterService :: "(nat \<Rightarrow> string list) \<Rightarrow> string \<Rightarrow> discoverd \<Rightarrow> discoverd" where
  "handler_unregisterService ord addr d =
     Discoverd_RemoveRouter (range_order (ord 0) (d_table d)) addr d"

definition onUserEvent ::
  "codec \<Rightarrow> (nat \<Rightarrow> string list) \<Rightarrow> string \<Rightarrow> string \<Rightarrow> discoverd \<Rightarrow> string option \<times> discoverd" where
  "onUserEvent cd ord name payload d =
     (if name = ev_RSCommand then
        (case dec_service cd payload of
           Inl err \<Rightarrow> (Some err, d)
         | Inr ias \<Rightarrow> (None, handler_registerService ord ias d))
      else if name = ev_URSCommand then
        (case dec_addr cd payload of
           Inl err \<Rightarrow> (Some err, d)
         | Inr addr \<Rightarrow> (None, handler_unregisterService ord addr d))
      else (None, d))"

text \<open>The bodies of the responses sent to the query.\<close>

definition onQuery :: "string \<Rightarrow> Query \<Rightarrow> string option \<times> string list" where
  "onQuery rpcAddr q = (None, if q_Name q = QRPCAddrCommand then [rpcAddr] else [])"

definition DiscoverdEventHandler_HandleEvent ::
  "codec \<Rightarrow> string \<Rightarrow> (nat \<Rightarrow> string list) \<Rightarrow> Event \<Rightarrow> discoverd \<Rightarrow> string option \<times> string list \<times> discoverd" where
  "DiscoverdEventHandler_HandleEvent cd rpcAddr ord e d =
     (case e of
        MemberEvent t ms \<Rightarrow>
          if t = EventMemberFailed then (let (err, d') = onMemberFaild ord ms d in (err, [], d'))
          else if t = EventMemberLeave then (let (err, d') = onMemberLeave ord ms d in (err, [], d'))
          else (None, [], d)
      | UserEvent lt name payload coalesce \<Rightarrow>
          (let (err, d') = onUserEvent cd ord name payload d in (err, [], d'))
      | QueryEvent q \<Rightarrow> (let (err, rs) = onQuery rpcAddr q in (err, rs, d))
      | OtherEvent t \<Rightarrow> (None, [], d))"

abbreviation handle :: "codec \<Rightarrow> string \<Rightarrow> (nat \<Rightarrow> string list) \<Rightarrow> Event \<Rightarrow> discoverd \<Rightarrow> discoverd" where
  "handle cd rpc ord e d \<equiv> snd (snd (DiscoverdEventHandler_HandleEvent cd rpc ord e d))"

section \<open>The handler as operations on the table\<close>

fun event_ops :: "codec \<Rightarrow> Event \<Rightarrow> router_op list" where
  "event_ops cd (MemberEvent t ms) =
     (if t = EventMemberFailed \<or> t = EventMemberLeave then map (\<lambda>m. OpRemoveHost (m_Name m)) ms else [])"
| "event_ops cd (UserEvent lt name payload co) =
     (if name = ''rs'' then
        (case dec_service cd payload of
           Inl _ \<Rightarrow> []
         | Inr ias \<Rightarrow> [OpAdd (na_Node (ias_NodeAddr ias)) (na_Addr (ias_NodeAddr ias)) (ias_Services ias)])
      else if name = ''us'' then
        (case dec_addr cd payload of Inl _ \<Rightarrow> [] | Inr addr \<Rightarrow> [OpRemove addr])
      else [])"
| "event_ops cd _ = []"

lemma d_table_ops [simp]:
  "d_table (Discoverd_AddRouter ks n a mss d) = AddRouter ks n a mss (d_table d)"
  "d_table (Discoverd_RemoveRouter ks a d) = RemoveRouter ks a (d_table d)"
  "d_table (Discoverd_RemoveRouterByHost ks n d) = RemoveRouterByHost ks n (d_table d)"
  "d_table (Discoverd_UpdateRouters ks rs d) = UpdateRouters ks rs (d_table d)"
  by (simp_all add: Discoverd_AddRouter_def Discoverd_RemoveRouter_def Discoverd_UpdateRouters_def
      Discoverd_RemoveRouterByHost_def repo_AddRouter_def repo_RemoveRouter_def
      repo_RemoveRouterByHost_def repo_UpdateRouters_def)

text \<open>What the event handler leaves alone: the applications and the node's name.\<close>

definition same_node :: "discoverd \<Rightarrow> discoverd \<Rightarrow> bool" where
  "same_node d d' \<longleftrightarrow> apps (d_repo d') = apps (d_repo d) \<and> d_cluster d' = d_cluster d"

lemma same_node_ops [simp]:
  "same_node d d"
  "same_node d (Discoverd_AddRouter ks n a mss d)"
  "same_node d (Discoverd_RemoveRouter ks a d)"
  "same_node d (Discoverd_RemoveRouterByHost ks n d)"
  "same_node d (Discoverd_UpdateRouters ks rs d)"
  by (simp_all add: same_node_def Discoverd_AddRouter_def Discoverd_RemoveRouter_def
      Discoverd_RemoveRouterByHost_def Discoverd_UpdateRouters_def repo_AddRouter_def
      repo_RemoveRouter_def repo_RemoveRouterByHost_def repo_UpdateRouters_def)

lemma same_node_trans: "same_node a b \<Longrightarrow> same_node b c \<Longrightarrow> same_node a c"
  by (simp add: same_node_def)

lemma RemoveRouterByHost_dom: "dom (RemoveRouterByHost ks node m) \<subseteq> dom m"
  unfolding RemoveRouterByHost_def
proof (induction ks arbitrary: m)
  case (Cons k ks)
  show ?case
    by (cases "m k") (use Cons.IH in \<open>fastforce simp: domIff split: if_splits\<close>)+
qed simp

lemma remove_hosts_steps:
  "\<forall>i. covers (ord i) (d_table d) \<Longrightarrow>
   router_steps (d_table d) (map (\<lambda>m. OpRemoveHost (m_Name m)) ms) (d_table (remove_hosts ord i ms d)) \<and>
   same_node d (remove_hosts ord i ms d)"
proof (induction ms arbitrary: d i)
  case Nil
  then show ?case by (simp add: router_steps.none)
next
  case (Cons m ms)
  let ?ks = "range_order (ord i) (d_table d)"
  let ?d = "Discoverd_RemoveRouterByHost ?ks (m_Name m) d"
  have e: "enumerates ?ks (d_table d)"
    using Cons.prems by (blast intro: range_order_enum)
  have "\<forall>i. covers (ord i) (d_table ?d)"
    using Cons.prems covers_mono RemoveRouterByHost_dom by (metis d_table_ops(3))
  from Cons.IH [OF this] show ?case
    using router_step.removeHost [OF e, of "m_Name m"]
    by (auto intro: router_steps.more same_node_trans [OF same_node_ops(4)])
qed

lemma router_steps_one: "router_step m op m' \<Longrightarrow> router_steps m [op] m'"
  by (blast intro: router_steps.intros)

lemma handler_services:
  assumes "covers (ord 0) (d_table d)"
  shows "router_step (d_table d) (OpAdd (na_Node (ias_NodeAddr ias)) (na_Addr (ias_NodeAddr ias)) (ias_Services ias))
      (d_table (handler_registerService ord ias d))"
    and "router_step (d_table d) (OpRemove addr) (d_table (handler_unregisterService ord addr d))"
    and "same_node d (handler_registerService ord ias d)"
    and "same_node d (handler_unregisterService ord addr d)"
  using range_order_enum [OF assms]
  by (simp_all add: handler_registerService_def handler_unregisterService_def router_step.intros)

lemma event_names [simp]:
  "ev_RSCommand = ''rs''" "ev_URSCommand = ''us''" "RSCommand = ''rs''" "URSCommand = ''us''"
  by (simp_all add: ev_RSCommand_def ev_URSCommand_def RSCommand_def URSCommand_def)

lemma handle_steps:
  assumes "\<forall>i. covers (ord i) (d_table d)"
  shows "router_steps (d_table d) (event_ops cd e) (d_table (handle cd rpc ord e d))"
    and "same_node d (handle cd rpc ord e d)"
proof -
  have c0: "covers (ord 0) (d_table d)" using assms by blast
  note h = handler_services [of ord d, OF c0]
  have "router_steps (d_table d) (event_ops cd e) (d_table (handle cd rpc ord e d)) \<and>
      same_node d (handle cd rpc ord e d)"
    using h(1,2) [THEN router_steps_one] h(3,4) remove_hosts_steps [of ord d, OF assms, of _ 0]
    by (cases e)
      (auto simp: DiscoverdEventHandler_HandleEvent_def onMemberFaild_def onMemberLeave_def
        onUserEvent_def onQuery_def router_steps.none split: sum.splits)
  then show "router_steps (d_table d) (event_ops cd e) (d_table (handle cd rpc ord e d))"
    and "same_node d (handle cd rpc ord e d)" by blast+
qed

text \<open>The table after an event, as a set.\<close>

lemma handle_regs:
  "\<forall>i. covers (ord i) (d_table d) \<Longrightarrow>
   regs (d_table (handle cd rpc ord e d)) = fold spec_step (event_ops cd e) (regs (d_table d))"
  by (rule router_steps_regs) (rule handle_steps)

lemma handle_wf [wf_intros]:
  "\<forall>i. covers (ord i) (d_table d) \<Longrightarrow> wf_routers (d_table d) \<Longrightarrow> wf_routers (d_table (handle cd rpc ord e d))"
  using router_steps_wf handle_steps(1) by blast

text \<open>What a call of a node's cluster does at a node that receives its event.\<close>

lemma delivered_register:
  assumes cd: "codec_ok cd" and call: "cluster_RegisterService cd c ss = Inr (CallUserEvent name p co)"
  shows "event_ops cd (UserEvent lt name p co) = [OpAdd (sc_node c) (as_Addr ss) (as_Services ss)]"
  using assms by (auto simp: cluster_RegisterService_def codec_ok_def Let_def split: sum.splits)

lemma delivered_unregister:
  assumes cd: "codec_ok cd" and call: "cluster_UnregisterService cd c addr = Inr (CallUserEvent name p co)"
  shows "event_ops cd (UserEvent lt name p co) = [OpRemove addr]"
  using assms by (auto simp: cluster_UnregisterService_def codec_ok_def Let_def split: sum.splits)

section \<open>The cluster\<close>

text \<open>Beside the nodes and the user events on the wire a world remembers where things came from: the
  registrations made, the events that IPC clients sent themselves, the tables that agents have listed for someone, and the
  tables that IPC clients have installed without having listed them.\<close>

record world =
  nodes :: "string \<Rightarrow> discoverd"
  sent :: "(string \<times> string) set"
  registered :: "(string \<times> MicroApp) set"
  forged :: "(string \<times> string) set"
  listed :: "Router list set"
  installed :: "Router list set"

definition initial_world :: "int64 \<Rightarrow> (string \<Rightarrow> Member) \<Rightarrow> world" where
  "initial_world ttl member =
     \<lparr>nodes = (\<lambda>n. Discoverd_Create ttl (member n)), sent = {}, registered = {}, forged = {}, listed = {}, installed = {}\<rparr>"

text \<open>The user events that the cluster calls of a node put on the wire; calls whose encoding fails
  send nothing.\<close>

fun sent_by :: "codec \<Rightarrow> serf_cluster \<Rightarrow> cluster_call list \<Rightarrow> (string \<times> string) set" where
  "sent_by cd c [] = {}"
| "sent_by cd c (call # calls) =
     (case cluster_do cd c call of
        Inl _ \<Rightarrow> sent_by cd c calls
      | Inr (CallUserEvent name p co) \<Rightarrow> insert (name, p) (sent_by cd c calls))"

definition with_repo :: "string \<Rightarrow> repo \<times> cluster_call list \<Rightarrow> codec \<Rightarrow> world \<Rightarrow> world" where
  "with_repo n rc cd w =
     w\<lparr>nodes := (nodes w)(n := (nodes w n)\<lparr>d_repo := fst rc\<rparr>),
       sent := sent w \<union> sent_by cd (d_cluster (nodes w n)) (snd rc)\<rparr>"

text \<open>An IPC client may send any user event at all (\<open>w_event\<close>), ask any agent for its table (\<open>w_list\<close>), and give any agent
  a table, one that some agent once listed (\<open>w_sync\<close>, what the command \<^verbatim>\<open>sync\<close> does) or any other (\<open>w_install\<close>).\<close>

inductive world_step :: "codec \<Rightarrow> string \<Rightarrow> world \<Rightarrow> world \<Rightarrow> bool" for cd rpc where
  w_register: "w' = with_repo n (repo_Register ma now (d_repo (nodes w n))) cd w \<Longrightarrow>
    world_step cd rpc w (w'\<lparr>registered := insert (n, ma) (registered w)\<rparr>)"
| w_refresh: "snd (repo_Refresh addr t1 t2 t3 (d_repo (nodes w n))) = r \<Longrightarrow>
    world_step cd rpc w (with_repo n (r, []) cd w)"
| w_tick: "world_step cd rpc w (with_repo n (repo_Tick ks nowf ks' (d_repo (nodes w n))) cd w)"
| w_event: "world_step cd rpc w (w\<lparr>sent := insert (name, p) (sent w), forged := insert (name, p) (forged w)\<rparr>)"
| w_deliver: "(name, p) \<in> sent w \<Longrightarrow> \<forall>i. covers (ord i) (d_table (nodes w n)) \<Longrightarrow>
    world_step cd rpc w (w\<lparr>nodes := (nodes w)(n := handle cd rpc ord (UserEvent lt name p co) (nodes w n))\<rparr>)"
| w_member: "\<forall>i. covers (ord i) (d_table (nodes w n)) \<Longrightarrow>
    world_step cd rpc w (w\<lparr>nodes := (nodes w)(n := handle cd rpc ord (MemberEvent t ms) (nodes w n))\<rparr>)"
| w_list: "enumerates ks (d_table (nodes w i)) \<Longrightarrow> Discoverd_ListRouters ks (nodes w i) = Ret rs \<Longrightarrow>
    world_step cd rpc w (w\<lparr>listed := insert rs (listed w)\<rparr>)"
| w_sync: "rs \<in> listed w \<Longrightarrow> enumerates js (d_table (nodes w n)) \<Longrightarrow>
    world_step cd rpc w (w\<lparr>nodes := (nodes w)(n := Discoverd_UpdateRouters js rs (nodes w n))\<rparr>)"
| w_install: "enumerates js (d_table (nodes w n)) \<Longrightarrow>
    world_step cd rpc w (w\<lparr>nodes := (nodes w)(n := Discoverd_UpdateRouters js rs (nodes w n)), installed := insert rs (installed w)\<rparr>)"

inductive reachable :: "codec \<Rightarrow> string \<Rightarrow> world \<Rightarrow> world \<Rightarrow> bool" for cd rpc w0 where
  start: "reachable cd rpc w0 w0"
| step: "reachable cd rpc w0 w \<Longrightarrow> world_step cd rpc w w' \<Longrightarrow> reachable cd rpc w0 w'"

text \<open>Where an entry of a table may have come from. \<open>table_triples\<close> are the entries of a table as it is sent; filing them
  by their service is what \<^verbatim>\<open>UpdateRouters\<close> does.\<close>

definition table_triples :: "Router list \<Rightarrow> triple set" where
  "table_triples rs = {(r_Service r, na_Node x, na_Addr x) |r x. r \<in> set rs \<and> x \<in> set (r_Addrs r)}"

definition from_client :: "world \<Rightarrow> triple \<Rightarrow> bool" where
  "from_client w = (\<lambda>(svc, n, a). \<exists>ma. (n, ma) \<in> registered w \<and> ma_Addr ma = a \<and> svc \<in> set (ma_Providers ma))"

definition from_event :: "codec \<Rightarrow> world \<Rightarrow> triple \<Rightarrow> bool" where
  "from_event cd w = (\<lambda>(svc, n, a). \<exists>p ias. (''rs'', p) \<in> forged w \<and> dec_service cd p = Inr ias \<and>
     ias_NodeAddr ias = \<lparr>na_Node = n, na_Addr = a\<rparr> \<and> svc \<in> set (ias_Services ias))"

definition from_table :: "world \<Rightarrow> triple \<Rightarrow> bool" where
  "from_table w x \<longleftrightarrow> (\<exists>rs \<in> installed w. x \<in> table_triples rs)"

definition origin :: "codec \<Rightarrow> world \<Rightarrow> triple \<Rightarrow> bool" where
  "origin cd w x \<longleftrightarrow> from_client w x \<or> from_event cd w x \<or> from_table w x"

text \<open>Every entry of a table, every entry an event on the wire can make, and every entry of a listed table has such an
  origin; and tables are filed by service.\<close>

definition filed :: "routers \<Rightarrow> bool" where
  "filed m \<longleftrightarrow> (\<forall>k r. m k = Some r \<longrightarrow> r_Service r = k)"

definition world_inv :: "codec \<Rightarrow> world \<Rightarrow> bool" where
  "world_inv cd w \<longleftrightarrow>
     (\<forall>n. sc_node (d_cluster (nodes w n)) = n \<and> filed (d_table (nodes w n)) \<and>
          (\<forall>x \<in> regs (d_table (nodes w n)). origin cd w x)) \<and>
     (\<forall>p ias k. (''rs'', p) \<in> sent w \<longrightarrow> dec_service cd p = Inr ias \<longrightarrow> k \<in> set (ias_Services ias) \<longrightarrow>
        origin cd w (k, na_Node (ias_NodeAddr ias), na_Addr (ias_NodeAddr ias))) \<and>
     (\<forall>rs \<in> listed w. \<forall>x \<in> table_triples rs. origin cd w x)"

definition grows :: "world \<Rightarrow> world \<Rightarrow> bool" where
  "grows w w' \<longleftrightarrow> registered w \<subseteq> registered w' \<and> forged w \<subseteq> forged w' \<and> installed w \<subseteq> installed w'"

lemma origin_grows: "origin cd w x \<Longrightarrow> grows w w' \<Longrightarrow> origin cd w' x"
  by (auto simp: origin_def from_client_def from_event_def from_table_def grows_def split: prod.splits)

lemma spec_step_adds:
  "x \<in> spec_step op R \<Longrightarrow> x \<in> R \<or> (\<exists>n a mss k. op = OpAdd n a mss \<and> k \<in> set mss \<and> x = (k, n, a))"
  by (cases op) (auto simp: spec_add_def spec_remove_addr_def spec_remove_host_def)

lemma fold_spec_adds:
  "x \<in> fold spec_step ops R \<Longrightarrow>
   x \<in> R \<or> (\<exists>n a mss k. OpAdd n a mss \<in> set ops \<and> k \<in> set mss \<and> x = (k, n, a))"
proof (induction ops arbitrary: R)
  case (Cons op ops)
  then have "x \<in> fold spec_step ops (spec_step op R)" by simp
  from Cons.IH [OF this] show ?case
    using spec_step_adds [of x op R] by fastforce
qed simp

text \<open>Tables stay filed by service.\<close>

lemma filed_drop_matching: "filed (drop_matching P m)"
  by (auto simp: filed_def drop_matching_Some)

lemma filed_add_one: "filed m \<Longrightarrow> filed (add_one node addr ms m)"
  by (auto simp: filed_def add_one_def Let_def rebuild_snoc split: option.splits)

lemma filed_add_all: "filed m \<Longrightarrow> filed (fold (add_one node addr) mss m)"
  by (induction mss arbitrary: m) (simp_all add: filed_add_one)

lemma filed_step: "router_step m op m' \<Longrightarrow> filed m'"
  by (induction rule: router_step.induct)
    (simp_all add: AddRouter_def AddRouter_loop_fold removeRouter_eq RemoveRouter_eq
      RemoveRouterByHost_eq filed_drop_matching filed_add_all)

lemma filed_steps: "router_steps m ops m' \<Longrightarrow> filed m \<Longrightarrow> filed m'"
  by (induction rule: router_steps.induct) (auto dest: filed_step)

lemma handle_filed:
  "\<forall>i. covers (ord i) (d_table d) \<Longrightarrow> filed (d_table d) \<Longrightarrow> filed (d_table (handle cd rpc ord e d))"
  using handle_steps(1) filed_steps by blast

text \<open>A table handed out, and a table taken over.\<close>

lemma listed_triples:
  assumes "enumerates ks (d_table d)" and "Discoverd_ListRouters ks d = Ret rs" and "filed (d_table d)"
  shows "table_triples rs \<subseteq> regs (d_table d)"
proof -
  have "rs = map (\<lambda>k. the (d_table d k)) ks"
    using assms(1,2) by (simp add: Discoverd_ListRouters_def ListRouters_eq)
  then show ?thesis
    using assms(1,3) by (fastforce simp: table_triples_def regs_def filed_def enumerates_def)
qed

lemma update_table:
  assumes "enumerates js m"
  shows "filed (UpdateRouters js rs m)" and "regs (UpdateRouters js rs m) \<subseteq> table_triples rs"
proof -
  have k: "r \<in> set rs \<and> r_Service r = k" if "UpdateRouters js rs m k = Some r" for k r
    using that map_of_SomeD [of "rev (map (\<lambda>r. (r_Service r, r)) rs)" k r]
    by (auto simp: UpdateRouters_eq [OF assms])
  then show "filed (UpdateRouters js rs m)"
    by (simp add: filed_def)
  show "regs (UpdateRouters js rs m) \<subseteq> table_triples rs"
    using k by (fastforce simp: regs_def table_triples_def)
qed

lemma world_inv_tables:
  "world_inv cd w \<Longrightarrow> filed (d_table (nodes w n))"
  "world_inv cd w \<Longrightarrow> x \<in> regs (d_table (nodes w n)) \<Longrightarrow> origin cd w x"
  "world_inv cd w \<Longrightarrow> (''rs'', p) \<in> sent w \<Longrightarrow> dec_service cd p = Inr ias \<Longrightarrow> k \<in> set (ias_Services ias) \<Longrightarrow>
     origin cd w (k, na_Node (ias_NodeAddr ias), na_Addr (ias_NodeAddr ias))"
  "world_inv cd w \<Longrightarrow> sc_node (d_cluster (nodes w n)) = n"
  "world_inv cd w \<Longrightarrow> rs \<in> listed w \<Longrightarrow> x \<in> table_triples rs \<Longrightarrow> origin cd w x"
  by (auto simp: world_inv_def)

lemma event_adds_origin:
  assumes "(name, p) \<in> sent w" and "world_inv cd w" and "OpAdd n a mss \<in> set (event_ops cd (UserEvent lt name p co))"
    and "k \<in> set mss"
  shows "origin cd w (k, n, a)"
proof -
  have *: "name = ''rs''"
    by (rule ccontr) (use assms(3) in \<open>cases "name = ''us''"; cases "dec_addr cd p"; simp\<close>)
  moreover have "\<exists>ias. dec_service cd p = Inr ias \<and> n = na_Node (ias_NodeAddr ias) \<and>
      a = na_Addr (ias_NodeAddr ias) \<and> mss = ias_Services ias"
    using assms(3) * by (cases "dec_service cd p") simp_all
  ultimately show ?thesis
    using assms(1,4) world_inv_tables(3) [OF assms(2)] by blast
qed

text \<open>One node replaced, the rest of the cluster the same or grown.\<close>

lemma world_inv_upd:
  assumes inv: "world_inv cd w" and g: "grows w w'" and ns: "nodes w' = (nodes w)(n := d)"
    and cl: "d_cluster d = d_cluster (nodes w n)" and fd: "filed (d_table d)"
    and rg: "\<And>x. x \<in> regs (d_table d) \<Longrightarrow> origin cd w' x"
    and sn: "\<And>p ias k. (''rs'', p) \<in> sent w' \<Longrightarrow> (''rs'', p) \<notin> sent w \<Longrightarrow> dec_service cd p = Inr ias \<Longrightarrow>
      k \<in> set (ias_Services ias) \<Longrightarrow> origin cd w' (k, na_Node (ias_NodeAddr ias), na_Addr (ias_NodeAddr ias))"
    and ls: "\<And>rs x. rs \<in> listed w' \<Longrightarrow> rs \<notin> listed w \<Longrightarrow> x \<in> table_triples rs \<Longrightarrow> origin cd w' x"
  shows "world_inv cd w'"
  unfolding world_inv_def
proof (intro conjI allI ballI impI)
  fix m
  show "sc_node (d_cluster (nodes w' m)) = m"
    using ns cl world_inv_tables(4) [OF inv] by simp
  show "filed (d_table (nodes w' m))"
    using ns fd world_inv_tables(1) [OF inv] by simp
  show "origin cd w' x" if "x \<in> regs (d_table (nodes w' m))" for x
    using that ns rg origin_grows [OF world_inv_tables(2) [OF inv] g] by (simp split: if_splits)
next
  fix p ias k
  assume "(''rs'', p) \<in> sent w'" "dec_service cd p = Inr ias" "k \<in> set (ias_Services ias)"
  then show "origin cd w' (k, na_Node (ias_NodeAddr ias), na_Addr (ias_NodeAddr ias))"
    using sn origin_grows [OF world_inv_tables(3) [OF inv] g] by blast
next
  fix rs x
  assume "rs \<in> listed w'" "x \<in> table_triples rs"
  then show "origin cd w' x"
    using ls origin_grows [OF world_inv_tables(5) [OF inv] g] by blast
qed

lemma sent_by_rs:
  "(''rs'', p) \<in> sent_by cd c calls \<Longrightarrow>
   \<exists>ss. RegisterService ss \<in> set calls \<and>
     enc_service cd \<lparr>ias_NodeAddr = \<lparr>na_Node = sc_node c, na_Addr = as_Addr ss\<rparr>, ias_Services = as_Services ss\<rparr> = Inr p"
  by (induction calls)
    (auto simp: cluster_do_def cluster_RegisterService_def cluster_UnregisterService_def Let_def
      split: sum.splits serf_call.splits cluster_call.splits)

lemma Tick_calls: "RegisterService ss \<notin> set (snd (repo_Tick ks nowf ks' r))"
proof -
  have "RegisterService ss \<notin> set (OnAppExpired ks dm)" for ks dm
    by (induction ks) auto
  then show ?thesis
    by (auto simp: repo_Tick_def case_prod_unfold Let_def split: option.splits)
qed

lemma Tick_routers [simp]: "routers (fst (repo_Tick ks nowf ks' r)) = routers r"
  by (simp add: repo_Tick_def case_prod_unfold Let_def)

lemma Refresh_routers [simp]: "routers (snd (repo_Refresh addr t1 t2 t3 r)) = routers r"
  by (simp add: repo_Refresh_def case_prod_unfold Let_def)

lemma Register_routers [simp]: "routers (fst (repo_Register ma now r)) = routers r"
  by (simp add: repo_Register_def)

lemma world_inv_with_repo:
  assumes inv: "world_inv cd w" and cd: "codec_ok cd" and rt: "routers (fst rc) = d_table (nodes w n)"
    and G: "registered w \<subseteq> G"
    and calls: "\<And>ss. RegisterService ss \<in> set (snd rc) \<Longrightarrow>
      \<exists>ma. (n, ma) \<in> G \<and> ss = \<lparr>as_Addr = ma_Addr ma, as_Services = ma_Providers ma\<rparr>"
  shows "world_inv cd ((with_repo n rc cd w)\<lparr>registered := G\<rparr>)" (is "world_inv cd ?w")
proof -
  have g: "grows w ?w" using G by (simp add: grows_def with_repo_def)
  show ?thesis
  proof (rule world_inv_upd [OF inv g, of n "(nodes w n)\<lparr>d_repo := fst rc\<rparr>"])
    fix x assume "x \<in> regs (d_table ((nodes w n)\<lparr>d_repo := fst rc\<rparr>))"
    then show "origin cd ?w x"
      using rt origin_grows [OF world_inv_tables(2) [OF inv] g] by simp
  next
    fix p ias k
    assume "(''rs'', p) \<in> sent ?w" "(''rs'', p) \<notin> sent w" and d: "dec_service cd p = Inr ias" "k \<in> set (ias_Services ias)"
    then have "(''rs'', p) \<in> sent_by cd (d_cluster (nodes w n)) (snd rc)"
      by (simp add: with_repo_def)
    from sent_by_rs [OF this] obtain ss ma where ss: "(n, ma) \<in> G" "ss = \<lparr>as_Addr = ma_Addr ma, as_Services = ma_Providers ma\<rparr>"
      and e: "enc_service cd \<lparr>ias_NodeAddr = \<lparr>na_Node = n, na_Addr = as_Addr ss\<rparr>, ias_Services = as_Services ss\<rparr> = Inr p"
      using calls world_inv_tables(4) [OF inv, of n] by fastforce
    have "ias = \<lparr>ias_NodeAddr = \<lparr>na_Node = n, na_Addr = as_Addr ss\<rparr>, ias_Services = as_Services ss\<rparr>"
      using cd e d(1) by (simp add: codec_ok_def)
    then show "origin cd ?w (k, na_Node (ias_NodeAddr ias), na_Addr (ias_NodeAddr ias))"
      using ss d(2) by (auto simp: origin_def from_client_def)
  qed (use world_inv_tables(1) [OF inv, of n] rt in \<open>simp_all add: with_repo_def\<close>)
qed

lemma world_inv_handle:
  assumes inv: "world_inv cd w" and ord: "\<forall>i. covers (ord i) (d_table (nodes w n))"
    and adds: "\<And>m a mss k. OpAdd m a mss \<in> set (event_ops cd e) \<Longrightarrow> k \<in> set mss \<Longrightarrow> origin cd w (k, m, a)"
  shows "world_inv cd (w\<lparr>nodes := (nodes w)(n := handle cd rpc ord e (nodes w n))\<rparr>)" (is "world_inv cd ?w")
proof -
  let ?d = "handle cd rpc ord e (nodes w n)"
  have g: "grows w ?w" by (simp add: grows_def)
  have cl: "d_cluster ?d = d_cluster (nodes w n)"
    using handle_steps(2) [OF ord] by (simp add: same_node_def)
  have "origin cd w x" if "x \<in> regs (d_table ?d)" for x
    using fold_spec_adds [of x "event_ops cd e" "regs (d_table (nodes w n))"] that handle_regs [OF ord]
      adds world_inv_tables(2) [OF inv] by blast
  then show ?thesis
    using handle_filed [OF ord world_inv_tables(1) [OF inv]]
    by (intro world_inv_upd [OF inv g _ cl]) (auto intro: origin_grows [OF _ g] world_inv_tables [OF inv])
qed

lemma world_inv_update:
  assumes inv: "world_inv cd w" and js: "enumerates js (d_table (nodes w n))"
    and rs: "\<And>x. x \<in> table_triples rs \<Longrightarrow> origin cd (w\<lparr>installed := I\<rparr>) x" and I: "installed w \<subseteq> I"
  shows "world_inv cd (w\<lparr>nodes := (nodes w)(n := Discoverd_UpdateRouters js rs (nodes w n)), installed := I\<rparr>)"
    (is "world_inv cd ?w")
proof -
  have g: "grows w ?w" and g': "grows (w\<lparr>installed := I\<rparr>) ?w"
    using I by (simp_all add: grows_def)
  have "origin cd ?w x" if "x \<in> regs (d_table (Discoverd_UpdateRouters js rs (nodes w n)))" for x
    using subsetD [OF update_table(2) [OF js, of rs]] that origin_grows [OF rs g'] by simp
  moreover have "d_cluster (Discoverd_UpdateRouters js rs (nodes w n)) = d_cluster (nodes w n)"
    by (simp add: Discoverd_UpdateRouters_def)
  ultimately show ?thesis
    by (intro world_inv_upd [OF inv g, where n = n and d = "Discoverd_UpdateRouters js rs (nodes w n)"])
      (simp_all add: update_table(1) [OF js])
qed

lemma world_step_inv:
  "world_step cd rpc w w' \<Longrightarrow> codec_ok cd \<Longrightarrow> world_inv cd w \<Longrightarrow> world_inv cd w'"
proof (induction rule: world_step.induct)
  case (w_register w' n ma now w)
  then show ?case
    by (simp, intro world_inv_with_repo) (auto simp: repo_Register_def)
next
  case (w_refresh addr t1 t2 t3 w n r)
  then have "world_inv cd ((with_repo n (r, []) cd w)\<lparr>registered := registered w\<rparr>)"
    by (intro world_inv_with_repo) auto
  then show ?case by (simp add: with_repo_def)
next
  case (w_tick w n ks nowf ks')
  then have "world_inv cd ((with_repo n (repo_Tick ks nowf ks' (d_repo (nodes w n))) cd w)\<lparr>registered := registered w\<rparr>)"
    by (intro world_inv_with_repo) (auto simp: Tick_calls)
  then show ?case by (simp add: with_repo_def)
next
  case (w_event w name p)
  let ?w = "w\<lparr>sent := insert (name, p) (sent w), forged := insert (name, p) (forged w)\<rparr>"
  have g: "grows w ?w" by (auto simp: grows_def)
  note inv = w_event.prems(2)
  show ?case
  proof (rule world_inv_upd [OF inv g, of undefined "nodes w undefined"])
    fix q ias k
    assume "(''rs'', q) \<in> sent ?w" "(''rs'', q) \<notin> sent w" "dec_service cd q = Inr ias" "k \<in> set (ias_Services ias)"
    then show "origin cd ?w (k, na_Node (ias_NodeAddr ias), na_Addr (ias_NodeAddr ias))"
      by (fastforce simp: origin_def from_event_def)
  qed (use world_inv_tables [OF inv] origin_grows [OF _ g] in \<open>auto\<close>)
next
  case (w_deliver name p w ord n lt co)
  then show ?case
    by (intro world_inv_handle) (auto simp del: event_ops.simps intro: event_adds_origin)
next
  case (w_member ord w n t ms)
  then show ?case
    by (intro world_inv_handle) (auto split: if_splits)
next
  case (w_list ks w i rs)
  note inv = w_list.prems(2)
  let ?w = "w\<lparr>listed := insert rs (listed w)\<rparr>"
  have g: "grows w ?w" by (simp add: grows_def)
  have "origin cd w x" if "x \<in> table_triples rs" for x
    using that listed_triples [OF w_list(1,2) world_inv_tables(1) [OF inv]] world_inv_tables(2) [OF inv] by blast
  then show ?case
    by (intro world_inv_upd [OF inv g, of undefined "nodes w undefined"])
      (auto intro: world_inv_tables [OF inv] origin_grows [OF _ g])
next
  case (w_sync rs w js n)
  note inv = w_sync.prems(2)
  have "world_inv cd (w\<lparr>nodes := (nodes w)(n := Discoverd_UpdateRouters js rs (nodes w n)), installed := installed w\<rparr>)"
    by (rule world_inv_update [OF inv w_sync(2)]) (use world_inv_tables(5) [OF inv w_sync(1)] in simp_all)
  then show ?case by simp
next
  case (w_install js w n rs)
  show ?case
    by (rule world_inv_update [OF w_install.prems(2) w_install(1)]) (auto simp: origin_def from_table_def)
qed

lemma world_inv_initial:
  "(\<And>n. m_Name (member n) = n) \<Longrightarrow> world_inv cd (initial_world ttl member)"
  by (simp add: world_inv_def initial_world_def Discoverd_Create_def NewDiscoverdRepo_def
      NewSerfCluster_def filed_def regs_def)

lemma reachable_inv:
  "reachable cd rpc w0 w \<Longrightarrow> codec_ok cd \<Longrightarrow> world_inv cd w0 \<Longrightarrow> world_inv cd w"
  by (induction rule: reachable.induct) (auto intro: world_step_inv)

section \<open>Expiry\<close>

lemma OnAppExpired_set:
  "set (OnAppExpired ks dm) = UnregisterService ` set ks" "length (OnAppExpired ks dm) = length ks"
  by (induction ks) auto

lemma NewDiscoverdRepo_handler: "expiredHandler (apps (NewDiscoverdRepo ttl)) = Some ()"
  by (simp add: NewDiscoverdRepo_def cache_RegExpiredHandler_def)

lemma Tick_reports:
  assumes "enumerates ks (items (apps r))" and "expiredHandler (apps r) = Some ()"
    and "enumerates ks' (expired_map nowf (items (apps r)))"
  shows "set (snd (repo_Tick ks nowf ks' r)) = UnregisterService ` dom (expired_map nowf (items (apps r)))"
    and "distinct (snd (repo_Tick ks nowf ks' r))"
proof -
  have call: "snd (cache_DeleteExpired ks nowf (apps r)) =
      (if expired_map nowf (items (apps r)) = Map.empty then None
       else Some ((), expired_map nowf (items (apps r))))"
    using DeleteExpired_call [OF assms(1)] assms(2) by simp
  have e: "expired_map nowf (items (apps r)) = Map.empty \<Longrightarrow> ks' = []"
    using assms(3) by simp
  have s: "snd (repo_Tick ks nowf ks' r) =
      (if expired_map nowf (items (apps r)) = Map.empty then [] else OnAppExpired ks' (expired_map nowf (items (apps r))))"
    by (simp add: repo_Tick_def case_prod_unfold Let_def call)
  have d: "distinct (OnAppExpired xs dm) \<longleftrightarrow> distinct xs" for xs dm
    by (induction xs) (auto simp: OnAppExpired_set)
  show "set (snd (repo_Tick ks nowf ks' r)) = UnregisterService ` dom (expired_map nowf (items (apps r)))"
    using s assms(3) by (auto simp: OnAppExpired_set enumerates_def)
  show "distinct (snd (repo_Tick ks nowf ks' r))"
    using s assms(3) d by (auto simp: enumerates_def)
qed

lemma Create_fields [simp]:
  "d_table (Discoverd_Create ttl m) = Map.empty"
  "sc_node (d_cluster (Discoverd_Create ttl m)) = m_Name m"
  by (simp_all add: Discoverd_Create_def NewDiscoverdRepo_def NewSerfCluster_def)

lemma regs_empty [simp]: "regs Map.empty = {}"
  by (simp add: regs_def)

lemma covers_empty [simp]: "covers [] Map.empty"
  by (simp add: covers_def)

section \<open>Properties\<close>

definition demo_service :: InnerAppService where
  "demo_service = \<lparr>ias_NodeAddr = \<lparr>na_Node = ''n1'', na_Addr = ''a1''\<rparr>, ias_Services = [''s'']\<rparr>"

definition demo_app :: MicroApp where
  "demo_app = \<lparr>ma_Addr = ''a1'', ma_Providers = [''s''], ma_Consumers = []\<rparr>"

text \<open>A codec that knows one message of each kind and rejects everything else.\<close>

definition demo_codec :: codec where
  "demo_codec =
     \<lparr>enc_service = (\<lambda>x. if x = demo_service then Inr ''p'' else Inl ''enc''),
      dec_service = (\<lambda>p. if p = ''p'' then Inr demo_service else Inl ''dec''),
      enc_addr = (\<lambda>x. if x = ''a1'' then Inr ''q'' else Inl ''enc''),
      dec_addr = (\<lambda>p. if p = ''q'' then Inr ''a1'' else Inl ''dec'')\<rparr>"

lemma demo_codec_ok: "codec_ok demo_codec"
  by (simp add: codec_ok_def demo_codec_def)

definition demo_member :: "string \<Rightarrow> Member" where
  "demo_member n = \<lparr>m_Name = n, m_Addr = '''', m_Port = 0, m_Tags = Map.empty, m_Status = StatusAlive,
     m_ProtocolMin = 1, m_ProtocolMax = 5, m_ProtocolCur = 2, m_DelegateMin = 2, m_DelegateMax = 4, m_DelegateCur = 4\<rparr>"

lemma demo_enc [simp]:
  "enc_service demo_codec \<lparr>ias_NodeAddr = \<lparr>na_Node = ''n1'', na_Addr = ''a1''\<rparr>, ias_Services = [''s'']\<rparr> = Inr ''p''"
  "enc_addr demo_codec ''a1'' = Inr ''q''"
  by (simp_all add: demo_codec_def demo_service_def)

text \<open>C8. On every event, and for every order in which the loops visit the table, the node's
  event handler performs exactly the table operations the event stands for: member-failed and
  member-leave remove the routers of all listed hosts, \<^verbatim>\<open>rs\<close> adds and \<^verbatim>\<open>us\<close> removes a service, all
  other events change nothing. The table stays well formed, the applications are untouched, and an
  error is reported exactly for a payload that does not decode, which changes nothing.\<close>

theorem event_handler_refines:
  assumes "\<forall>i. covers (ord i) (d_table d)" and "wf_routers (d_table d)"
  shows "router_steps (d_table d) (event_ops cd e) (d_table (handle cd rpc ord e d)) \<and>
    wf_routers (d_table (handle cd rpc ord e d)) \<and>
    apps (d_repo (handle cd rpc ord e d)) = apps (d_repo d) \<and>
    (fst (DiscoverdEventHandler_HandleEvent cd rpc ord e d) \<noteq> None \<longleftrightarrow>
       (\<exists>lt p co. (e = UserEvent lt ''rs'' p co \<and> isl (dec_service cd p)) \<or>
                  (e = UserEvent lt ''us'' p co \<and> isl (dec_addr cd p)))) \<and>
    (fst (DiscoverdEventHandler_HandleEvent cd rpc ord e d) \<noteq> None \<longrightarrow> handle cd rpc ord e d = d)"
proof (intro conjI)
  show "router_steps (d_table d) (event_ops cd e) (d_table (handle cd rpc ord e d))"
    by (rule handle_steps(1) [OF assms(1)])
  show "wf_routers (d_table (handle cd rpc ord e d))"
    by (rule handle_wf [OF assms])
  show "apps (d_repo (handle cd rpc ord e d)) = apps (d_repo d)"
    using handle_steps(2) [OF assms(1)] by (simp add: same_node_def)
  show "fst (DiscoverdEventHandler_HandleEvent cd rpc ord e d) \<noteq> None \<longleftrightarrow>
       (\<exists>lt p co. (e = UserEvent lt ''rs'' p co \<and> isl (dec_service cd p)) \<or>
                  (e = UserEvent lt ''us'' p co \<and> isl (dec_addr cd p)))"
    by (cases e) (auto simp: DiscoverdEventHandler_HandleEvent_def onMemberFaild_def onMemberLeave_def
        onUserEvent_def onQuery_def split: sum.splits)
  show "fst (DiscoverdEventHandler_HandleEvent cd rpc ord e d) \<noteq> None \<longrightarrow> handle cd rpc ord e d = d"
    by (cases e) (auto simp: DiscoverdEventHandler_HandleEvent_def onMemberFaild_def onMemberLeave_def
        onUserEvent_def onQuery_def split: sum.splits)
qed

theorem event_handler_refines_witness:
  "router_steps Map.empty [OpAdd ''n1'' ''a1'' [''s'']]
     (d_table (handle demo_codec ''rpc'' (\<lambda>i. []) (UserEvent 1 ''rs'' ''p'' True) (Discoverd_Create 60 (demo_member ''n2''))))"
  using event_handler_refines [of "\<lambda>i. []" "Discoverd_Create 60 (demo_member ''n2'')" demo_codec
      "UserEvent 1 ''rs'' ''p'' True" "''rpc''"]
  by (simp add: Discoverd_Create_def NewDiscoverdRepo_def covers_def wf_routers_empty demo_codec_def demo_service_def)

text \<open>A registration spreads: a client registers an application at a node; the user event the
  node broadcasts makes every node that receives it hold exactly the application's providers under
  its address, at the registering node, and drop whatever was known of that address before.\<close>

lemma registration_spreads:
  assumes cd: "codec_ok cd"
    and reg: "RegisterService ss \<in> set (snd (repo_Register ma now (d_repo d)))"
    and ev: "cluster_RegisterService cd (d_cluster d) ss = Inr (CallUserEvent name p co)"
    and ord: "\<forall>i. covers (ord i) (d_table d')"
  shows "regs (d_table (handle cd rpc ord (UserEvent lt name p co) d')) =
      {(k, n, a) \<in> regs (d_table d'). a \<noteq> ma_Addr ma} \<union>
      {(k, sc_node (d_cluster d), ma_Addr ma) | k. k \<in> set (ma_Providers ma)}"
proof -
  have ss: "ss = \<lparr>as_Addr = ma_Addr ma, as_Services = ma_Providers ma\<rparr>"
    using reg by (simp add: repo_Register_def)
  show ?thesis
    unfolding handle_regs [OF ord] delivered_register [OF cd ev] ss
    by (simp add: spec_add_def spec_remove_addr_def)
qed

text \<open>C9. An application that stops refreshing is cleaned up everywhere: the first janitor tick that
  finds its lease over broadcasts exactly one unregistration for each such application, and a node
  that receives the event keeps no router of its address and loses nothing else.\<close>

theorem expiry_cleans_up:
  assumes cd: "codec_ok cd" and ks: "enumerates ks (items (apps (d_repo d)))"
    and h: "expiredHandler (apps (d_repo d)) = Some ()"
    and ks': "enumerates ks' (expired_map nowf (items (apps (d_repo d))))"
    and k: "items (apps (d_repo d)) k = Some it" "item_Expired it (nowf k)"
    and ev: "cluster_UnregisterService cd (d_cluster d) k = Inr (CallUserEvent name p co)"
    and ord: "\<forall>i. covers (ord i) (d_table d')"
  shows "UnregisterService k \<in> set (snd (repo_Tick ks nowf ks' (d_repo d))) \<and>
    distinct (snd (repo_Tick ks nowf ks' (d_repo d))) \<and>
    items (apps (fst (repo_Tick ks nowf ks' (d_repo d)))) k = None \<and>
    regs (d_table (handle cd rpc ord (UserEvent lt name p co) d')) = {(s, n, a) \<in> regs (d_table d'). a \<noteq> k}"
proof (intro conjI)
  show "UnregisterService k \<in> set (snd (repo_Tick ks nowf ks' (d_repo d)))"
    using Tick_reports(1) [OF ks h ks'] k by (auto simp: expired_map_def)
  show "distinct (snd (repo_Tick ks nowf ks' (d_repo d)))"
    by (rule Tick_reports(2) [OF ks h ks'])
  show "items (apps (fst (repo_Tick ks nowf ks' (d_repo d)))) k = None"
    using DeleteExpired_items [OF ks, of nowf] k
    by (simp add: repo_Tick_def case_prod_unfold Let_def unexpired_map_def)
  show "regs (d_table (handle cd rpc ord (UserEvent lt name p co) d')) = {(s, n, a) \<in> regs (d_table d'). a \<noteq> k}"
    unfolding handle_regs [OF ord] delivered_unregister [OF cd ev] by (simp add: spec_remove_addr_def)
qed

definition demo_node :: discoverd where
  "demo_node =
     (let d = Discoverd_Create 60 (demo_member ''n1'')
      in d\<lparr>d_repo := fst (repo_Register demo_app 0 (d_repo d))\<rparr>)"

lemma demo_node_fields:
  "items (apps (d_repo demo_node)) = [''a1'' \<mapsto> \<lparr>Object = demo_app, Expiration = Some 60000000000\<rparr>]"
  "expiredHandler (apps (d_repo demo_node)) = Some ()"
  "d_cluster demo_node = \<lparr>sc_node = ''n1''\<rparr>"
  by (simp_all add: demo_node_def Let_def repo_Register_def cache_Set_def cache_set_def Discoverd_Create_def
      NewDiscoverdRepo_def NewCache_def newCacheWithJanitor_def newCache_def runJanitor_def NewSerfCluster_def
      demo_member_def cache_RegExpiredHandler_def DefaultExpiration_def service_ttl_def demo_app_def)

theorem expiry_cleans_up_witness:
  "UnregisterService ''a1'' \<in> set (snd (repo_Tick [''a1''] (\<lambda>k. 60000000001) [''a1''] (d_repo demo_node))) \<and>
   items (apps (fst (repo_Tick [''a1''] (\<lambda>k. 60000000001) [''a1''] (d_repo demo_node)))) ''a1'' = None"
proof -
  let ?it = "\<lparr>Object = demo_app, Expiration = Some 60000000000\<rparr>"
  have e: "enumerates [''a1''] (items (apps (d_repo demo_node)))"
    "enumerates [''a1''] (expired_map (\<lambda>k. 60000000001) (items (apps (d_repo demo_node))))"
    by (auto simp: enumerates_def demo_node_fields expired_map_def split: if_splits)
  have u: "cluster_UnregisterService demo_codec (d_cluster demo_node) ''a1'' = Inr (CallUserEvent ''us'' ''q'' True)"
    by (simp add: cluster_UnregisterService_def)
  have i: "items (apps (d_repo demo_node)) ''a1'' = Some ?it" and x: "item_Expired ?it 60000000001"
    by (simp_all add: demo_node_fields)
  have c: "\<forall>i::nat. covers [] (d_table (Discoverd_Create 60 (demo_member ''n2'')))" by simp
  show ?thesis
    using expiry_cleans_up [OF demo_codec_ok e(1) demo_node_fields(2) e(2) i x u c] by blast
qed

text \<open>C10. Where routers come from: in every state the cluster can reach, whatever is registered,
  refreshed, expired, delivered late or repeatedly, failed, listed or installed by any client at any node, every router in
  the table of any node has one of three origins: a client registered that service and address, at the node the router
  names; or a client itself sent a user event named \<^verbatim>\<open>rs\<close> with the registration, with the IPC command \<^verbatim>\<open>event\<close> that lets a client
  send any event; or the router was in a table that a client gave to an agent with \<^verbatim>\<open>update-routers\<close> and that was not what
  an agent had listed. The tables that are copied from agent to agent, also out of date, add no origin. So while no
  client forges either, there are no phantom routers: every router stems from a registration at its node.\<close>

theorem router_origins:
  assumes "codec_ok cd" and "\<And>n. m_Name (member n) = n"
    and "reachable cd rpc (initial_world ttl member) w"
    and "d_table (nodes w n) svc = Some r" and "x \<in> set (r_Addrs r)"
  shows "((\<exists>ma. (na_Node x, ma) \<in> registered w \<and> ma_Addr ma = na_Addr x \<and> svc \<in> set (ma_Providers ma)) \<or>
     (\<exists>p ias. (''rs'', p) \<in> forged w \<and> dec_service cd p = Inr ias \<and> ias_NodeAddr ias = x \<and> svc \<in> set (ias_Services ias)) \<or>
     (\<exists>rs \<in> installed w. \<exists>r' \<in> set rs. r_Service r' = svc \<and> x \<in> set (r_Addrs r'))) \<and>
   ((\<forall>p. (''rs'', p) \<notin> forged w) \<and> installed w = {} \<longrightarrow>
     (\<exists>ma. (na_Node x, ma) \<in> registered w \<and> ma_Addr ma = na_Addr x \<and> svc \<in> set (ma_Providers ma)))"
proof -
  have "world_inv cd w"
    using reachable_inv [OF assms(3,1) world_inv_initial] assms(2) by blast
  moreover have "(svc, na_Node x, na_Addr x) \<in> regs (d_table (nodes w n))"
    using assms(4,5) by (auto simp: regs_def)
  ultimately have "origin cd w (svc, na_Node x, na_Addr x)"
    using world_inv_tables(2) by blast
  then consider (c) "from_client w (svc, na_Node x, na_Addr x)" | (e) "from_event cd w (svc, na_Node x, na_Addr x)"
    | (t) "from_table w (svc, na_Node x, na_Addr x)"
    by (auto simp: origin_def)
  then show ?thesis
  proof cases
    case c
    then show ?thesis by (auto simp: from_client_def)
  next
    case e
    then show ?thesis by (auto simp: from_event_def)
  next
    case t
    then obtain rs r' y where r: "rs \<in> installed w" "r' \<in> set rs" "r_Service r' = svc"
      and y: "y \<in> set (r_Addrs r')" "na_Node y = na_Node x" "na_Addr y = na_Addr x"
      by (auto simp: from_table_def table_triples_def)
    from y(2,3) have "y = x" by (simp add: NodeAddr.equality)
    with r y(1) show ?thesis by blast
  qed
qed

definition demo_start :: world where
  "demo_start = initial_world 60 demo_member"

definition demo_w1 :: world where
  "demo_w1 = (with_repo ''n1'' (repo_Register demo_app 0 (d_repo (nodes demo_start ''n1''))) demo_codec demo_start)
     \<lparr>registered := {(''n1'', demo_app)}\<rparr>"

definition demo_w2 :: world where
  "demo_w2 = demo_w1\<lparr>nodes := (nodes demo_w1)(''n2'' := handle demo_codec ''rpc'' (\<lambda>i. []) (UserEvent 1 ''rs'' ''p'' True) (nodes demo_w1 ''n2''))\<rparr>"

lemma demo_w1_fields:
  "(''rs'', ''p'') \<in> sent demo_w1" "nodes demo_w1 ''n2'' = Discoverd_Create 60 (demo_member ''n2'')"
  "forged demo_w1 = {}" "installed demo_w1 = {}"
  by (simp_all add: demo_w1_def with_repo_def demo_start_def initial_world_def repo_Register_def cluster_do_def
      cluster_RegisterService_def demo_app_def demo_member_def Let_def)

lemma demo_reachable: "reachable demo_codec ''rpc'' (initial_world 60 demo_member) demo_w2"
proof -
  have "world_step demo_codec ''rpc'' demo_start
      ((with_repo ''n1'' (repo_Register demo_app 0 (d_repo (nodes demo_start ''n1''))) demo_codec demo_start)
        \<lparr>registered := insert (''n1'', demo_app) (registered demo_start)\<rparr>)"
    by (rule world_step.w_register [OF refl])
  moreover have "insert (''n1'', demo_app) (registered demo_start) = {(''n1'', demo_app)}"
    by (simp add: demo_start_def initial_world_def)
  ultimately have "world_step demo_codec ''rpc'' (initial_world 60 demo_member) demo_w1"
    unfolding demo_w1_def by (simp only: demo_start_def)
  moreover have "world_step demo_codec ''rpc'' demo_w1 demo_w2"
    unfolding demo_w2_def by (rule world_step.w_deliver [OF demo_w1_fields(1)]) (simp add: demo_w1_fields)
  ultimately show ?thesis by (blast intro: reachable.intros)
qed

theorem router_origins_witness:
  "\<exists>r. d_table (nodes demo_w2 ''n2'') ''s'' = Some r \<and>
     (\<exists>ma. (''n1'', ma) \<in> registered demo_w2 \<and> ma_Addr ma = ''a1'' \<and> ''s'' \<in> set (ma_Providers ma))"
proof -
  have "d_table (nodes demo_w2 ''n2'') = AddRouter [] ''n1'' ''a1'' [''s''] Map.empty"
    by (simp add: demo_w2_def DiscoverdEventHandler_HandleEvent_def onUserEvent_def demo_w1_fields
        demo_codec_def demo_service_def handler_registerService_def range_order_def)
  then have "d_table (nodes demo_w2 ''n2'') ''s'' =
      Some \<lparr>r_Service = ''s'', r_Addrs = [\<lparr>na_Node = ''n1'', na_Addr = ''a1''\<rparr>], r_Checksum = calcChecksum [\<lparr>na_Node = ''n1'', na_Addr = ''a1''\<rparr>]\<rparr>"
    by (simp add: AddRouter_def removeRouter_def Let_def)
  moreover have "forged demo_w2 = {}" "installed demo_w2 = {}"
    by (simp_all add: demo_w2_def demo_w1_fields)
  ultimately show ?thesis
    using router_origins [OF demo_codec_ok _ demo_reachable, of "''n2''" "''s''" _ "\<lparr>na_Node = ''n1'', na_Addr = ''a1''\<rparr>"]
    by (simp add: demo_member_def)
qed

end
