(* ===== verification/Base64.thy ===== *)
theory Base64
  imports GoStd
begin

text \<open>
  The standard base64 encoding (package \<^verbatim>\<open>encoding/base64\<close>, \<^verbatim>\<open>StdEncoding\<close>), which carries service
  addresses in the REST paths and the keys of the key generator. Line breaks are ignored by the
  decoder, padding is required, trailing bits are not checked.
\<close>

section \<open>Alphabet\<close>

definition b64_char :: "nat \<Rightarrow> char" where
  "b64_char n =
     char_of (if n < 26 then 65 + n else if n < 52 then 71 + n else if n < 62 then n - 4
              else if n = 62 then 43 else 47)"

definition b64_val :: "char \<Rightarrow> nat option" where
  "b64_val c =
     (let n = of_char c :: nat in
      if 65 \<le> n \<and> n \<le> 90 then Some (n - 65) else if 97 \<le> n \<and> n \<le> 122 then Some (n - 71)
      else if 48 \<le> n \<and> n \<le> 57 then Some (n + 4) else if n = 43 then Some 62
      else if n = 47 then Some 63 else None)"

definition b64_pad :: char where
  "b64_pad = CHR ''=''"

lemma b64_val_char: "n < 64 \<Longrightarrow> b64_val (b64_char n) = Some n"
  by (auto simp: b64_val_def b64_char_def Let_def)

lemma b64_val_pad: "b64_val b64_pad = None"
  by (simp add: b64_val_def b64_pad_def)

lemma b64_char_not:
  assumes "n < 64"
  shows "b64_char n \<noteq> b64_pad" and "b64_char n \<noteq> CHR 0x0A" and "b64_char n \<noteq> CHR 0x0D"
proof -
  have "b64_val (b64_char n) \<noteq> None" using b64_val_char [OF assms] by simp
  moreover have "b64_val b64_pad = None" "b64_val (CHR 0x0A) = None" "b64_val (CHR 0x0D) = None"
    by (simp_all add: b64_val_def b64_pad_def)
  ultimately show "b64_char n \<noteq> b64_pad" "b64_char n \<noteq> CHR 0x0A" "b64_char n \<noteq> CHR 0x0D"
    by metis+
qed

lemma b64_char_slash: "n < 63 \<Longrightarrow> CHR ''/'' \<noteq> b64_char n"
proof
  assume n: "n < 63" and "CHR ''/'' = b64_char n"
  then have "Some n = b64_val (CHR ''/'')" using b64_val_char [of n] by simp
  then show False using n by (simp add: b64_val_def)
qed

section \<open>Encoding and decoding\<close>

text \<open>Bytes as numbers below 256, three to a group of four characters.\<close>

fun b64_enc :: "nat list \<Rightarrow> string" where
  "b64_enc [] = []"
| "b64_enc [a] = [b64_char (a div 4), b64_char (a mod 4 * 16), b64_pad, b64_pad]"
| "b64_enc [a, b] = [b64_char (a div 4), b64_char (a mod 4 * 16 + b div 16), b64_char (b mod 16 * 4), b64_pad]"
| "b64_enc (a # b # c # r) =
     b64_char (a div 4) # b64_char (a mod 4 * 16 + b div 16) #
     b64_char (b mod 16 * 4 + c div 64) # b64_char (c mod 64) # b64_enc r"

fun b64_dec :: "string \<Rightarrow> nat list option" where
  "b64_dec [] = Some []"
| "b64_dec (p # q # r # s # rest) =
     (case (b64_val p, b64_val q) of
        (Some u, Some v) \<Rightarrow>
          if s = b64_pad
          then (if r = b64_pad
                then (if rest = [] then Some [u * 4 + v div 16] else None)
                else (case b64_val r of
                        None \<Rightarrow> None
                      | Some w \<Rightarrow>
                          if rest = [] then Some [u * 4 + v div 16, v mod 16 * 16 + w div 4] else None))
          else (case (b64_val r, b64_val s) of
                  (Some w, Some x) \<Rightarrow>
                    map_option (\<lambda>t. (u * 4 + v div 16) # (v mod 16 * 16 + w div 4) # (w mod 4 * 64 + x) # t)
                      (b64_dec rest)
                | _ \<Rightarrow> None)
      | _ \<Rightarrow> None)"
| "b64_dec _ = None"

definition b64_EncodeToString :: "string \<Rightarrow> string" where
  "b64_EncodeToString s = b64_enc (map of_char s)"

definition b64_DecodeString :: "string \<Rightarrow> string option" where
  "b64_DecodeString s =
     map_option (map char_of) (b64_dec (filter (\<lambda>c. c \<noteq> CHR 0x0A \<and> c \<noteq> CHR 0x0D) s))"

lemma b64_dec_enc: "\<forall>x \<in> set bs. x < 256 \<Longrightarrow> b64_dec (b64_enc bs) = Some bs"
proof (induction bs rule: b64_enc.induct)
  case (2 a)
  then have "a div 4 < 64" "a mod 4 * 16 < 64" by auto
  then show ?case by (simp add: b64_val_char)
next
  case (3 a b)
  then have "a div 4 < 64" "a mod 4 * 16 + b div 16 < 64" "b mod 16 * 4 < 64" by auto
  moreover have "(a div 4) * 4 + (a mod 4 * 16 + b div 16) div 16 = a"
      "(a mod 4 * 16 + b div 16) mod 16 * 16 + b mod 16 * 4 div 4 = b"
    using 3 by auto
  ultimately show ?case by (simp add: b64_val_char b64_char_not del: div_mult_self2 mod_div_trivial)
next
  case (4 a b c r)
  then have "a div 4 < 64" "a mod 4 * 16 + b div 16 < 64" "b mod 16 * 4 + c div 64 < 64" "c mod 64 < 64"
    by auto
  moreover have "(a div 4) * 4 + (a mod 4 * 16 + b div 16) div 16 = a"
      "(a mod 4 * 16 + b div 16) mod 16 * 16 + (b mod 16 * 4 + c div 64) div 4 = b"
      "(b mod 16 * 4 + c div 64) mod 4 * 64 + c mod 64 = c"
    using 4(2) by auto
  ultimately show ?case
    using 4 by (simp add: b64_val_char b64_char_not)
qed simp

lemma b64_enc_clean:
  "\<forall>x \<in> set bs. x < 256 \<Longrightarrow> ch \<in> set (b64_enc bs) \<Longrightarrow> ch \<noteq> CHR 0x0A \<and> ch \<noteq> CHR 0x0D"
proof (induction bs rule: b64_enc.induct)
  case (2 a)
  then have "a div 4 < 64" "a mod 4 * 16 < 64" by auto
  then show ?case using 2 by (auto simp: b64_char_not b64_pad_def)
next
  case (3 a b)
  then have "a div 4 < 64" "a mod 4 * 16 + b div 16 < 64" "b mod 16 * 4 < 64" by auto
  then show ?case using 3 by (auto simp: b64_char_not b64_pad_def)
next
  case (4 a b c r)
  then have "a div 4 < 64" "a mod 4 * 16 + b div 16 < 64" "b mod 16 * 4 + c div 64 < 64" "c mod 64 < 64"
    by auto
  then show ?case using 4 by (auto simp: b64_char_not)
qed simp

lemma of_char_256: "\<forall>x \<in> set (map of_char s :: nat list). x < 256"
  by (auto simp: of_char_def)

lemma b64_roundtrip: "b64_DecodeString (b64_EncodeToString s) = Some s"
proof -
  have "filter (\<lambda>c. c \<noteq> CHR 0x0A \<and> c \<noteq> CHR 0x0D) (b64_enc (map of_char s)) = b64_enc (map of_char s)"
    using b64_enc_clean [OF of_char_256] by (simp add: filter_id_conv)
  then show ?thesis
    by (simp add: b64_DecodeString_def b64_EncodeToString_def b64_dec_enc [OF of_char_256] comp_def)
qed

text \<open>Addresses of plain ASCII text without a question mark encode to a single path segment.\<close>

definition plain_addr :: "string \<Rightarrow> bool" where
  "plain_addr s = list_all (\<lambda>c. (of_char c :: nat) < 127 \<and> c \<noteq> CHR ''?'') s"

lemma b64_enc_slash:
  "\<forall>x \<in> set bs. x < 127 \<and> x \<noteq> 63 \<Longrightarrow> CHR ''/'' \<notin> set (b64_enc bs)"
proof (induction bs rule: b64_enc.induct)
  case (2 a)
  then have "a div 4 < 63" "a mod 4 * 16 < 63" by auto
  then show ?case by (simp add: b64_char_slash b64_pad_def)
next
  case (3 a b)
  then have "a div 4 < 63" "a mod 4 * 16 + b div 16 < 63" "b mod 16 * 4 < 63" by auto
  then show ?case by (simp add: b64_char_slash b64_pad_def)
next
  case (4 a b c r)
  then have ab: "a div 4 < 63" "a mod 4 * 16 + b div 16 < 63" and c: "c < 127" "c \<noteq> 63" by auto
  have "b mod 16 * 4 + c div 64 < 63"
  proof -
    have "b mod 16 < 16" "c div 64 < 2" using c by auto
    then show ?thesis by linarith
  qed
  moreover have "c mod 64 < 63"
  proof (cases "c < 64")
    case False
    then have "c mod 64 = c - 64" using c by (simp add: mod_if)
    then show ?thesis using c by simp
  qed (use c in simp)
  ultimately show ?case using 4 ab by (simp add: b64_char_slash)
qed simp

end
