(* ===== verification/Lifecycle.thy ===== *)
theory Lifecycle
  imports Gossip Base64
begin

text \<open>
  The life of a registered application at one node, from the client's side: the REST resource of
  \<^verbatim>\<open>discoverd/msd/msd_rs.go\<close> and \<^verbatim>\<open>discoverd/rest_server.go\<close>, the lease granted by the service TTL of
  \<^verbatim>\<open>discoverd/discoverd.go\<close>, and what regular refreshing guarantees. The body decoder of the web
  framework is a parameter.
\<close>

section \<open>Leases kept alive\<close>

definition fresh_until :: "('s \<Rightarrow> time \<Rightarrow> string \<rightharpoonup> 'a) \<Rightarrow> 's \<Rightarrow> string \<Rightarrow> time \<Rightarrow> bool" where
  "fresh_until alive s k e \<longleftrightarrow> alive s e k \<noteq> None"

text \<open>A lease store whose sweep, whatever keys it visits, spares every entry that is live when it is
  visited.\<close>

locale sparing_store = lease_store +
  assumes sweep_key: "alive s t k = Some x \<Longrightarrow> nowf k \<le> t \<Longrightarrow>
    alive (fst (sweep ks nowf s)) t k = Some x \<and> snd (sweep ks nowf s) k = None"
begin

lemma fresh_now: "fresh_until alive s k e \<Longrightarrow> t \<le> e \<Longrightarrow> k \<in> dom (alive s t)"
  unfolding fresh_until_def using alive_antimono by blast

lemma fresh_put: "lease s = Some l \<Longrightarrow> fresh_until alive (put k x now s) k (now + l)"
  by (simp add: fresh_until_def alive_put within_def)

lemma fresh_put_other: "j \<noteq> k \<Longrightarrow> fresh_until alive (put k x now s) j e = fresh_until alive s j e"
  by (simp add: fresh_until_def put_other)

lemma fresh_renew:
  assumes "fresh_until alive s k e" and "t1 \<le> e" and "lease s = Some l"
  shows "fst (renew k t1 t2 s)" and "fresh_until alive (snd (renew k t1 t2 s)) k (t2 + l)"
proof -
  obtain x where x: "alive s t1 k = Some x"
    using fresh_now [OF assms(1,2)] by blast
  have w: "within t2 (lease s) (t2 + l)"
    by (simp add: assms(3) within_def)
  show "fst (renew k t1 t2 s)" "fresh_until alive (snd (renew k t1 t2 s)) k (t2 + l)"
    using renew_self [OF x w] by (simp_all add: fresh_until_def)
qed

lemma fresh_renew_other: "j \<noteq> k \<Longrightarrow> fresh_until alive (snd (renew k t1 t2 s)) j e = fresh_until alive s j e"
  by (simp add: fresh_until_def renew_other)

lemma fresh_sweep:
  assumes "fresh_until alive s k e" and "nowf k \<le> e"
  shows "fresh_until alive (fst (sweep ks nowf s)) k e" and "snd (sweep ks nowf s) k = None"
  using assms sweep_key unfolding fresh_until_def by fastforce+

end

lemma delete_expired_loop_spares:
  "items c k = Some it \<Longrightarrow> \<not> item_Expired it (nowf k) \<Longrightarrow> nil_map dm k = None \<Longrightarrow>
   items (fst (delete_expired_loop nowf ks c dm)) k = Some it \<and>
   nil_map (snd (delete_expired_loop nowf ks c dm)) k = None"
proof (induction ks arbitrary: c dm)
  case (Cons a ks)
  show ?case
  proof (cases "expired_map nowf (items c) a = None")
    case True
    then show ?thesis
      using Cons by (simp add: delete_expired_loop_Cons del: delete_expired_loop.simps(2))
  next
    case False
    then have "a \<noteq> k"
      using Cons.prems(1,2) by (auto simp: expired_map_def)
    then show ?thesis
      using False Cons.prems Cons.IH [of "cache_delete a c" "Some ((nil_map dm)(a := expired_map nowf (items c) a))"]
      by (auto simp add: delete_expired_loop_Cons simp del: delete_expired_loop.simps(2))
  qed
qed simp

interpretation cs: sparing_store live lease_of
    "\<lambda>k x now. cache_Set k x DefaultExpiration now"
    "\<lambda>k t1 t2. cache_Refresh k DefaultExpiration t1 t2"
    cache_sweep "\<lambda>ks c. enumerates ks (items c)"
proof unfold_locales
  fix s :: "('a, 'h) cache" and t k x ks and nowf :: "string \<Rightarrow> time"
  assume l: "live s t k = Some x" and n: "nowf k \<le> t"
  then obtain it where it: "items s k = Some it" "\<not> item_Expired it t" "Object it = x"
    by (auto simp: live_def2 split: option.splits if_splits)
  then have ne: "\<not> item_Expired it (nowf k)"
    using n item_Expired_mono by blast
  have sp: "items (fst (delete_expired_loop nowf ks s None)) k = Some it \<and>
      nil_map (snd (delete_expired_loop nowf ks s None)) k = None"
    by (rule delete_expired_loop_spares) (use it ne in simp_all)
  then have "items (fst (cache_DeleteExpired ks nowf s)) k = Some it"
    by (simp add: cache_DeleteExpired_def case_prod_unfold Let_def)
  moreover have "snd (cache_sweep ks nowf s) k = None"
    using sp cache_sweep_reported [of ks nowf s k] by blast
  ultimately show "live (fst (cache_sweep ks nowf s)) t k = Some x \<and> snd (cache_sweep ks nowf s) k = None"
    using it by (simp add: live_def2)
qed

section \<open>Runs of the applications' repository\<close>

text \<open>\<open>LTable\<close>: between the other operations, events or a synchronisation have made the routing table another one.\<close>

datatype life_op =
    LRegister MicroApp time
  | LRefresh string time time time
  | LTick "string list" "string \<Rightarrow> time" "string list"
  | LTable routers

text \<open>A step returns the calls to the cluster and, for a refresh, its answer.\<close>

fun life_step :: "life_op \<Rightarrow> repo \<Rightarrow> repo \<times> cluster_call list \<times> (string \<times> AppStatus go) list" where
  "life_step (LRegister ma now) r = (let (r', cs) = repo_Register ma now r in (r', cs, []))"
| "life_step (LRefresh addr t1 t2 t3) r =
     (let (st, r') = repo_Refresh addr t1 t2 t3 r in (r', [], [(addr, st)]))"
| "life_step (LTick ks nowf ks') r = (let (r', cs) = repo_Tick ks nowf ks' r in (r', cs, []))"
| "life_step (LTable m) r = (r\<lparr>routers := m\<rparr>, [], [])"

fun life_run :: "life_op list \<Rightarrow> repo \<Rightarrow> repo \<times> cluster_call list \<times> (string \<times> AppStatus go) list" where
  "life_run [] r = (r, [], [])"
| "life_run (p # ps) r =
     (let (r1, cs1, as1) = life_step p r; (r2, cs2, as2) = life_run ps r1
      in (r2, cs1 @ cs2, as1 @ as2))"

text \<open>The application at \<open>addr\<close> keeps its lease of length \<open>l\<close>, last renewed at \<open>beat\<close>: each of its
  refreshes comes, and each sweep visits it, before the lease is over.\<close>

fun on_time :: "string \<Rightarrow> time \<Rightarrow> time \<Rightarrow> life_op list \<Rightarrow> bool" where
  "on_time addr l beat [] = True"
| "on_time addr l beat (LRegister ma now # ps) =
     on_time addr l (if ma_Addr ma = addr then now else beat) ps"
| "on_time addr l beat (LRefresh a t1 t2 t3 # ps) =
     (if a = addr then t1 \<le> beat + l \<and> on_time addr l t2 ps else on_time addr l beat ps)"
| "on_time addr l beat (LTick ks nowf ks' # ps) =
     (nowf addr \<le> beat + l \<and> on_time addr l beat ps)"
| "on_time addr l beat (LTable m # ps) = on_time addr l beat ps"

fun last_renewal :: "string \<Rightarrow> time \<Rightarrow> life_op list \<Rightarrow> time" where
  "last_renewal addr beat [] = beat"
| "last_renewal addr beat (LRegister ma now # ps) = last_renewal addr (if ma_Addr ma = addr then now else beat) ps"
| "last_renewal addr beat (LRefresh a t1 t2 t3 # ps) = last_renewal addr (if a = addr then t2 else beat) ps"
| "last_renewal addr beat (LTick ks nowf ks' # ps) = last_renewal addr beat ps"
| "last_renewal addr beat (LTable m # ps) = last_renewal addr beat ps"

text \<open>How often the application at \<open>addr\<close> refreshes in a run.\<close>

fun refreshes :: "string \<Rightarrow> life_op list \<Rightarrow> nat" where
  "refreshes addr [] = 0"
| "refreshes addr (LRefresh a t1 t2 t3 # ps) = (if a = addr then Suc (refreshes addr ps) else refreshes addr ps)"
| "refreshes addr (p # ps) = refreshes addr ps"

text \<open>Checksums that \<^verbatim>\<open>Refresh\<close> can sum up: those of every table that registrations make, but not of every table that may
  be installed from outside.\<close>

definition sound_checksums :: "routers \<Rightarrow> bool" where
  "sound_checksums m \<longleftrightarrow> (\<forall>k x. m k = Some x \<longrightarrow> 16 \<le> length (r_Checksum x))"

lemma wf_sound: "wf_routers m \<Longrightarrow> sound_checksums m"
  by (auto simp: sound_checksums_def wf_router_def dest: wf_routersD)

lemma checksum_answers:
  assumes "sound_checksums (routers r)"
  shows "\<exists>cs. calcRouterCheckSum a t r = Ret cs"
proof -
  have "\<exists>ck. sumCheckSums (routers r) vs ck0 = Ret ck" for vs ck0
    unfolding sumCheckSums_select
    by (rule sumRouters_total) (use assms in \<open>auto simp: selectRouters_set sound_checksums_def\<close>)
  then obtain f where "\<And>vs ck0. sumCheckSums (routers r) vs ck0 = Ret (f vs ck0)" by metis
  then show ?thesis by (simp add: calcRouterCheckSum_def split: option.splits)
qed

lemma Refresh_answers:
  assumes "sound_checksums (routers r)"
  shows "\<exists>cs. fst (repo_Refresh a t1 t2 t3 r) = Ret \<lparr>IsLive = fst (cache_Refresh a DefaultExpiration t1 t2 (apps r)), RouterCS = cs\<rparr>"
proof -
  have "sound_checksums (routers (r\<lparr>apps := snd (cache_Refresh a DefaultExpiration t1 t2 (apps r))\<rparr>))"
    using assms by simp
  then obtain cs where "calcRouterCheckSum a t3 (r\<lparr>apps := snd (cache_Refresh a DefaultExpiration t1 t2 (apps r))\<rparr>) = Ret cs"
    using checksum_answers by blast
  then show ?thesis by (simp add: repo_Refresh_def case_prod_unfold Let_def)
qed

lemma Tick_silent:
  assumes e: "enumerates ks' (snd (cache_sweep ks nowf (apps r)))" and "snd (cache_sweep ks nowf (apps r)) k = None"
  shows "UnregisterService k \<notin> set (snd (repo_Tick ks nowf ks' r))"
proof -
  have "k \<notin> set ks'" using assms by (auto simp: enumerates_def)
  then show ?thesis
    by (auto simp: repo_Tick_def case_prod_unfold Let_def OnAppExpired_set split: option.splits)
qed

text \<open>The handler ranges over what the sweep deleted.\<close>

fun ticks_ok :: "life_op list \<Rightarrow> repo \<Rightarrow> bool" where
  "ticks_ok [] r = True"
| "ticks_ok (p # ps) r =
     ((case p of LTick ks nowf ks' \<Rightarrow> enumerates ks' (snd (cache_sweep ks nowf (apps r))) | _ \<Rightarrow> True) \<and>
      ticks_ok ps (fst (life_step p r)))"

lemma life_step_apps:
  "apps (fst (life_step (LRegister ma now) r)) = cache_Set (ma_Addr ma) ma DefaultExpiration now (apps r)"
  "apps (fst (life_step (LRefresh a t1 t2 t3) r)) = snd (cache_Refresh a DefaultExpiration t1 t2 (apps r))"
  "apps (fst (life_step (LTick ks nowf ks') r)) = fst (cache_sweep ks nowf (apps r))"
  "apps (fst (life_step (LTable m) r)) = apps r"
  by (simp_all add: repo_Register_def repo_Refresh_def repo_Tick_def case_prod_unfold Let_def)

lemma life_step_keeps:
  assumes f: "fresh_until live (apps r) addr (beat + l)" and l: "lease_of (apps r) = Some l"
    and ot: "on_time addr l beat [p]" and tk: "ticks_ok [p] r" and rt: "sound_checksums (routers r)"
  shows "fresh_until live (apps (fst (life_step p r))) addr (last_renewal addr beat [p] + l)"
    and "lease_of (apps (fst (life_step p r))) = Some l"
    and "UnregisterService addr \<notin> set (fst (snd (life_step p r)))"
    and "(addr, a) \<in> set (snd (snd (life_step p r))) \<Longrightarrow> \<exists>cs. a = Ret \<lparr>IsLive = True, RouterCS = cs\<rparr>"
    and "length (filter (\<lambda>x. fst x = addr) (snd (snd (life_step p r)))) = refreshes addr [p]"
proof -
  show "lease_of (apps (fst (life_step p r))) = Some l"
    using l by (cases p) (simp_all add: life_step_apps cl.lease_put cl.lease_renew cl.lease_sweep del: life_step.simps cache_Refresh_default cache_sweep_fst)
  show "fresh_until live (apps (fst (life_step p r))) addr (last_renewal addr beat [p] + l)"
  proof (cases p)
    case (LRegister ma now)
    show ?thesis
      using f by (cases "ma_Addr ma = addr")
        (simp_all add: LRegister life_step_apps cs.fresh_put cs.fresh_put_other l del: life_step.simps)
  next
    case (LRefresh a t1 t2 t3)
    show ?thesis
      using f ot cs.fresh_renew(2) [OF f _ l]
      by (cases "a = addr") (simp_all add: LRefresh life_step_apps cs.fresh_renew_other del: life_step.simps)
  next
    case (LTick ks nowf ks')
    show ?thesis
      using cs.fresh_sweep(1) [OF f] ot by (simp add: LTick life_step_apps del: life_step.simps)
  next
    case (LTable m)
    then show ?thesis using f by simp
  qed
  show "UnregisterService addr \<notin> set (fst (snd (life_step p r)))"
  proof (cases p)
    case (LTick ks nowf ks')
    then have e: "enumerates ks' (snd (cache_sweep ks nowf (apps r)))" and t: "nowf addr \<le> beat + l"
      using tk ot by auto
    show ?thesis
      using Tick_silent [OF e cs.fresh_sweep(2) [where nowf = nowf, OF f t]]
      by (simp add: LTick case_prod_unfold Let_def)
  qed (simp_all add: repo_Register_def repo_Refresh_def case_prod_unfold Let_def)
  show "\<exists>cs. a = Ret \<lparr>IsLive = True, RouterCS = cs\<rparr>" if "(addr, a) \<in> set (snd (snd (life_step p r)))"
  proof (cases p)
    case (LRefresh b t1 t2 t3)
    then have b: "b = addr" "a = fst (repo_Refresh b t1 t2 t3 r)"
      using that by (auto simp: case_prod_unfold Let_def)
    then show ?thesis
      using Refresh_answers [OF rt, of b t1 t2 t3] cs.fresh_renew(1) [OF f _ l] ot LRefresh by simp
  qed (use that in \<open>auto simp: case_prod_unfold Let_def\<close>)
  show "length (filter (\<lambda>x. fst x = addr) (snd (snd (life_step p r)))) = refreshes addr [p]"
    by (cases p) (simp_all add: case_prod_unfold Let_def)
qed

lemma life_step_routers:
  "sound_checksums (routers r) \<Longrightarrow> (\<And>m. p = LTable m \<Longrightarrow> sound_checksums m) \<Longrightarrow>
   sound_checksums (routers (fst (life_step p r)))"
  by (cases p) (simp_all add: case_prod_unfold Let_def)

lemma life_run_keeps:
  "fresh_until live (apps r) addr (beat + l) \<Longrightarrow> lease_of (apps r) = Some l \<Longrightarrow>
   on_time addr l beat ps \<Longrightarrow> ticks_ok ps r \<Longrightarrow>
   sound_checksums (routers r) \<Longrightarrow> (\<forall>m. LTable m \<in> set ps \<longrightarrow> sound_checksums m) \<Longrightarrow>
   fresh_until live (apps (fst (life_run ps r))) addr (last_renewal addr beat ps + l) \<and>
   UnregisterService addr \<notin> set (fst (snd (life_run ps r))) \<and>
   (\<forall>a. (addr, a) \<in> set (snd (snd (life_run ps r))) \<longrightarrow> (\<exists>cs. a = Ret \<lparr>IsLive = True, RouterCS = cs\<rparr>)) \<and>
   length (filter (\<lambda>x. fst x = addr) (snd (snd (life_run ps r)))) = refreshes addr ps"
proof (induction ps arbitrary: r beat)
  case Nil
  then show ?case by simp
next
  case (Cons p ps)
  have o1: "on_time addr l beat [p]" and o2: "on_time addr l (last_renewal addr beat [p]) ps"
    using Cons.prems(3) by (cases p; simp split: if_splits)+
  have t1: "ticks_ok [p] r" and t2: "ticks_ok ps (fst (life_step p r))"
    using Cons.prems(4) by simp_all
  note k = life_step_keeps [OF Cons.prems(1,2) o1 t1 Cons.prems(5)]
  have rt: "sound_checksums (routers (fst (life_step p r)))" and tb: "\<forall>m. LTable m \<in> set ps \<longrightarrow> sound_checksums m"
    using life_step_routers [OF Cons.prems(5)] Cons.prems(6) by auto
  have rf: "refreshes addr (p # ps) = refreshes addr [p] + refreshes addr ps" by (cases p) simp_all
  have lr: "last_renewal addr beat (p # ps) = last_renewal addr (last_renewal addr beat [p]) ps"
    by (cases p) simp_all
  show ?case
    using Cons.IH [OF k(1,2) o2 t2 rt tb] k(3-5) unfolding lr rf
    by (auto simp: case_prod_unfold Let_def simp del: life_step.simps refreshes.simps)
qed

section \<open>The REST resource\<close>

definition StatusOK :: int where "StatusOK = 200"
definition StatusCreated :: int where "StatusCreated = 201"
definition StatusAccepted :: int where "StatusAccepted = 202"
definition StatusBadRequest :: int where "StatusBadRequest = 400"

datatype rest_body = BNull | BError ApiError | BTable "RouterTable option" | BStatus AppStatus

type_synonym rest_response = "int \<times> rest_body"

text \<open>\<open>bind\<close> is the framework's body decoder on the request's body.\<close>

definition sr_RegMicroApp ::
  "('b \<Rightarrow> MicroApp option) \<Rightarrow> 'b \<Rightarrow> time \<Rightarrow> repo \<Rightarrow> rest_response \<times> repo \<times> cluster_call list" where
  "sr_RegMicroApp bind body now r =
     (case bind body of
        None \<Rightarrow> ((StatusBadRequest, BError (NewError ''problem decoding body'')), r, [])
      | Some as \<Rightarrow> (let (r', cs) = repo_Register as now r in ((StatusCreated, BNull), r', cs)))"

definition sr_GetRouterTable :: "string \<Rightarrow> time \<Rightarrow> repo \<Rightarrow> rest_response go" where
  "sr_GetRouterTable p now r =
     (case b64_DecodeString p of
        None \<Rightarrow> Ret (StatusBadRequest, BError (NewError ''error decoding addr''))
      | Some addr \<Rightarrow> go_bind (repo_GetRouterTable addr now r) (\<lambda>rt. Ret (StatusOK, BTable rt)))"

definition sr_Refresh :: "string \<Rightarrow> time \<Rightarrow> time \<Rightarrow> time \<Rightarrow> repo \<Rightarrow> rest_response go \<times> repo" where
  "sr_Refresh p t1 t2 t3 r =
     (case b64_DecodeString p of
        None \<Rightarrow> (Ret (StatusBadRequest, BError (NewError ''error decoding addr'')), r)
      | Some addr \<Rightarrow>
          (let (st, r') = repo_Refresh addr t1 t2 t3 r
           in (go_bind st (\<lambda>s. Ret (StatusAccepted, BStatus s)), r')))"

text \<open>The routes of \<^verbatim>\<open>StartRestServer\<close>.\<close>

datatype rest_handler = HRegMicroApp | HRefresh | HGetRouterTable

definition rest_routes :: "(string \<times> string \<times> rest_handler) list" where
  "rest_routes =
     [(''PUT'', ''/msd/register'', HRegMicroApp),
      (''GET'', ''/msd/fresh/:addr'', HRefresh),
      (''GET'', ''/msd/fetch/:addr'', HGetRouterTable)]"

section \<open>The service TTL\<close>

lemma service_ttl_sint:
  assumes "\<bar>sint ttl\<bar> \<le> 9223372036"
  shows "sint (service_ttl ttl) = sint ttl * 1000000000"
proof -
  have "sint (service_ttl ttl) = sint (word_of_int (sint ttl * 1000000000) :: 64 word)"
    by (simp add: service_ttl_def)
  also have "\<dots> = sint ttl * 1000000000"
    using assms by (subst sint_sbintrunc') (simp add: signed_take_bit_int_eq_self_iff abs_le_iff)
  finally show ?thesis .
qed

lemma Create_lease:
  "lease_of (apps (d_repo (Discoverd_Create ttl m))) =
     (if 0 < sint (service_ttl ttl) then Some (sint (service_ttl ttl)) else None)"
  "cache_janitor (apps (d_repo (Discoverd_Create ttl m))) =
     (if 0 < sint (service_ttl ttl) then Some \<lparr>Interval = service_ttl ttl\<rparr> else None)"
  by (auto simp: Discoverd_Create_def NewDiscoverdRepo_def NewCache_def newCacheWithJanitor_def
      newCache_def runJanitor_def cache_RegExpiredHandler_def lease_of_def Let_def)

section \<open>Properties\<close>

text \<open>C11. An application that keeps refreshing is never unregistered: over any run of
  registrations, refreshes and janitor ticks at its node, the routing table changing in between, in which each
  refresh of its address comes, and each sweep meets it, within one lease of the last renewal, every one of its
  refreshes is answered, and answered "live", no unregistration of the address is broadcast, and it is still live one
  lease after its last renewal. The tables must have checksums of at least sixteen bytes, as all tables made by
  registrations have; a table installed from outside may not, and then a refresh can panic.\<close>

theorem heartbeat_keeps_alive:
  assumes "fresh_until live (apps r) addr (beat + l)" and "lease_of (apps r) = Some l"
    and "on_time addr l beat ps" and "ticks_ok ps r"
    and "sound_checksums (routers r)" and "\<forall>m. LTable m \<in> set ps \<longrightarrow> sound_checksums m"
  shows "UnregisterService addr \<notin> set (fst (snd (life_run ps r))) \<and>
    (\<forall>a. (addr, a) \<in> set (snd (snd (life_run ps r))) \<longrightarrow> (\<exists>cs. a = Ret \<lparr>IsLive = True, RouterCS = cs\<rparr>)) \<and>
    length (filter (\<lambda>x. fst x = addr) (snd (snd (life_run ps r)))) = refreshes addr ps \<and>
    cache_Get addr (last_renewal addr beat ps + l) (apps (fst (life_run ps r))) \<noteq> None"
  using life_run_keeps [OF assms] by (simp add: fresh_until_def live_def cache_Get_def)

definition demo_run :: "life_op list" where
  "demo_run = [LRefresh ''a1'' 50000000000 50000000000 50000000000,
     LTick [''a1''] (\<lambda>k. 70000000000) [], LRefresh ''a1'' 110000000000 110000000000 110000000000]"

lemma demo_node_lease: "lease_of (apps (d_repo demo_node)) = Some 60000000000"
  by (simp add: demo_node_def Let_def repo_Register_def cl.lease_put Create_lease del: cl.lease_put)
     (simp add: cache_Set_def lease_of_def Discoverd_Create_def NewDiscoverdRepo_def NewCache_def
        newCacheWithJanitor_def newCache_def runJanitor_def cache_RegExpiredHandler_def service_ttl_def Let_def)

theorem heartbeat_keeps_alive_witness:
  "UnregisterService ''a1'' \<notin> set (fst (snd (life_run demo_run (d_repo demo_node)))) \<and>
   (\<exists>cs cs'. filter (\<lambda>x. fst x = ''a1'') (snd (snd (life_run demo_run (d_repo demo_node)))) =
      [(''a1'', Ret \<lparr>IsLive = True, RouterCS = cs\<rparr>), (''a1'', Ret \<lparr>IsLive = True, RouterCS = cs'\<rparr>)]) \<and>
   cache_Get ''a1'' 170000000000 (apps (fst (life_run demo_run (d_repo demo_node)))) \<noteq> None"
proof -
  have f: "fresh_until live (apps (d_repo demo_node)) ''a1'' (0 + 60000000000)"
    by (simp add: fresh_until_def live_def2 demo_node_fields)
  have o: "on_time ''a1'' 60000000000 0 demo_run"
    by (simp add: demo_run_def)
  have k: "snd (cache_sweep [''a1''] (\<lambda>k. 70000000000) (apps (fst (life_step (LRefresh ''a1'' 50000000000 50000000000 50000000000) (d_repo demo_node)))))
      = Map.empty"
    unfolding life_step_apps
    using demo_node_lease
    by (simp add: cache_Refresh_def demo_node_fields cache_sweep_def cache_DeleteExpired_def Let_def
        lease_of_def DefaultExpiration_def split: if_splits)
  have t: "ticks_ok demo_run (d_repo demo_node)"
    using k by (simp add: demo_run_def del: life_step.simps)
  have m: "sound_checksums (routers (d_repo demo_node))"
    by (simp add: demo_node_def Let_def repo_Register_def Discoverd_Create_def NewDiscoverdRepo_def sound_checksums_def)
  let ?as = "filter (\<lambda>x. fst x = ''a1'') (snd (snd (life_run demo_run (d_repo demo_node))))"
  have h: "UnregisterService ''a1'' \<notin> set (fst (snd (life_run demo_run (d_repo demo_node))))"
    "length ?as = 2" "\<And>a. (''a1'', a) \<in> set ?as \<Longrightarrow> \<exists>cs. a = Ret \<lparr>IsLive = True, RouterCS = cs\<rparr>"
    "cache_Get ''a1'' 170000000000 (apps (fst (life_run demo_run (d_repo demo_node)))) \<noteq> None"
    using heartbeat_keeps_alive [OF f demo_node_lease o t m] by (simp_all add: demo_run_def del: life_run.simps)
  obtain x y where xy: "?as = [x, y]"
    using h(2) by (auto simp: numeral_2_eq_2 length_Suc_conv)
  have "fst x = ''a1''" "fst y = ''a1''"
    using arg_cong [OF xy, of set] by auto
  then have "\<exists>cs cs'. ?as = [(''a1'', Ret \<lparr>IsLive = True, RouterCS = cs\<rparr>), (''a1'', Ret \<lparr>IsLive = True, RouterCS = cs'\<rparr>)]"
    using xy h(3) [of "snd x"] h(3) [of "snd y"] by (cases x; cases y) auto
  then show ?thesis using h(1,4) by blast
qed

text \<open>C12. The service TTL in seconds becomes the lease in nanoseconds by a multiplication that wraps in 64 bits: the
  lease is the signed remainder of the product if that is positive, and then the janitor runs with that interval;
  otherwise registrations never expire and there is no janitor. The lease is the TTL exactly as long as the TTL is at
  most 9223372036. Beyond, the remainder may be negative, so that nothing ever expires (9223372037 seconds), or
  positive and absurdly short (18446744074 seconds give 0.29 seconds).\<close>

theorem service_ttl_lease:
  "lease_of (apps (d_repo (Discoverd_Create ttl m))) =
     (let d = signed_take_bit 63 (sint ttl * 1000000000) in if 0 < d then Some d else None) \<and>
   map_option (sint \<circ> Interval) (cache_janitor (apps (d_repo (Discoverd_Create ttl m)))) =
     lease_of (apps (d_repo (Discoverd_Create ttl m))) \<and>
   (\<bar>sint ttl\<bar> \<le> 9223372036 \<longrightarrow>
      lease_of (apps (d_repo (Discoverd_Create ttl m))) = (if 0 < sint ttl then Some (sint ttl * 1000000000) else None)) \<and>
   lease_of (apps (d_repo (Discoverd_Create 9223372037 m))) = None \<and>
   lease_of (apps (d_repo (Discoverd_Create 18446744074 m))) = Some 290448384"
proof (intro conjI impI)
  have "sint (service_ttl ttl) = signed_take_bit 63 (sint ttl * 1000000000)"
    using sint_sbintrunc' [where 'a = 64, of "sint ttl * 1000000000"] by (simp add: service_ttl_def)
  then show "lease_of (apps (d_repo (Discoverd_Create ttl m))) =
     (let d = signed_take_bit 63 (sint ttl * 1000000000) in if 0 < d then Some d else None)"
    by (simp add: Create_lease Let_def)
  show "map_option (sint \<circ> Interval) (cache_janitor (apps (d_repo (Discoverd_Create ttl m)))) =
     lease_of (apps (d_repo (Discoverd_Create ttl m)))"
    by (simp add: Create_lease)
  show "lease_of (apps (d_repo (Discoverd_Create ttl m))) = (if 0 < sint ttl then Some (sint ttl * 1000000000) else None)"
    if "\<bar>sint ttl\<bar> \<le> 9223372036"
    using service_ttl_sint [OF that] by (auto simp: Create_lease)
qed (simp_all add: Create_lease service_ttl_def)

theorem service_ttl_lease_witness:
  "lease_of (apps (d_repo (Discoverd_Create 60 (demo_member ''n1'')))) = Some 60000000000 \<and>
   cache_janitor (apps (d_repo (Discoverd_Create 60 (demo_member ''n1'')))) \<noteq> None"
proof -
  have "lease_of (apps (d_repo (Discoverd_Create 60 (demo_member ''n1'')))) = Some 60000000000"
    using service_ttl_lease [of 60 "demo_member ''n1''"] by simp
  then show ?thesis
    using conjunct1 [OF conjunct2 [OF service_ttl_lease [of 60 "demo_member ''n1''"]]] by (auto simp del: map_option_eq_Some)
qed

text \<open>The REST resource: a client that puts the base64 form of an address of plain text in the
  path names that very address, in a single path segment; the handlers answer with the repository's
  answer for it, and a path that does not decode is answered 400 and changes nothing.\<close>

theorem rest_address_roundtrip:
  assumes "plain_addr addr"
  shows "CHR ''/'' \<notin> set (b64_EncodeToString addr) \<and>
    sr_Refresh (b64_EncodeToString addr) t1 t2 t3 r =
      (go_bind (fst (repo_Refresh addr t1 t2 t3 r)) (\<lambda>s. Ret (202, BStatus s)), snd (repo_Refresh addr t1 t2 t3 r)) \<and>
    sr_GetRouterTable (b64_EncodeToString addr) now r =
      go_bind (repo_GetRouterTable addr now r) (\<lambda>rt. Ret (200, BTable rt)) \<and>
    (b64_DecodeString p = None \<longrightarrow>
       sr_Refresh p t1 t2 t3 r = (Ret (400, BError (NewError ''error decoding addr'')), r) \<and>
       sr_GetRouterTable p now r = Ret (400, BError (NewError ''error decoding addr'')))"
proof (intro conjI)
  have "(of_char (CHR ''?'') :: nat) = 63" by simp
  then have "c \<noteq> CHR ''?'' \<Longrightarrow> (of_char c :: nat) \<noteq> 63" for c
    by (metis of_char_eq_iff)
  then have "\<forall>x \<in> set (map of_char addr :: nat list). x < 127 \<and> x \<noteq> 63"
    using assms by (auto simp: plain_addr_def list_all_iff)
  then show "CHR ''/'' \<notin> set (b64_EncodeToString addr)"
    unfolding b64_EncodeToString_def by (rule b64_enc_slash)
qed (simp_all add: sr_Refresh_def sr_GetRouterTable_def b64_roundtrip case_prod_unfold Let_def
      StatusAccepted_def StatusOK_def StatusBadRequest_def)

theorem rest_address_roundtrip_witness:
  "CHR ''/'' \<notin> set (b64_EncodeToString ''10.0.0.1:80'') \<and> b64_DecodeString ''*'' = None \<and>
   sr_GetRouterTable ''*'' 0 (NewDiscoverdRepo 1) = Ret (400, BError (NewError ''error decoding addr''))"
proof -
  have p: "plain_addr ''10.0.0.1:80''"
    by (simp add: plain_addr_def)
  have d: "b64_DecodeString ''*'' = None"
    by (simp add: b64_DecodeString_def)
  show ?thesis
    using rest_address_roundtrip [OF p, of 0 0 0 "NewDiscoverdRepo 1" 0 "''*''"] d by simp
qed

end
