(* ===== verification/Streams.thy ===== *)
theory Streams
  imports Prelude "HOL-Library.Sublist"
begin

text \<open>
  Buffered channels and the shape shared by the log and event streams of the agent's IPC layer
  (\<^verbatim>\<open>command/agent/ipc_log_stream.go\<close>, \<^verbatim>\<open>command/agent/ipc_event_stream.go\<close>): a handler that filters
  and sends without blocking, a goroutine that forwards to the client, a stop that closes the
  channel. The locale \<open>bounded_stream\<close> states what a stream does per call; its lemmas say what a
  client sees of any run.
\<close>

section \<open>Buffered channels\<close>

record 'a chan =
  ch_buf :: "'a list"
  ch_cap :: nat
  ch_closed :: bool

definition make_chan :: "nat \<Rightarrow> 'a chan" where
  "make_chan n = \<lparr>ch_buf = [], ch_cap = n, ch_closed = False\<rparr>"

text \<open>A \<^verbatim>\<open>select\<close> with one send case and a default: sending on a closed channel panics.\<close>

definition try_send :: "'a \<Rightarrow> 'a chan \<Rightarrow> (bool \<times> 'a chan) go" where
  "try_send x c =
     (if ch_closed c then Panic
      else if length (ch_buf c) < ch_cap c then Ret (True, c\<lparr>ch_buf := ch_buf c @ [x]\<rparr>)
      else Ret (False, c))"

definition close_chan :: "'a chan \<Rightarrow> 'a chan go" where
  "close_chan c = (if ch_closed c then Panic else Ret (c\<lparr>ch_closed := True\<rparr>))"

section \<open>Streams\<close>

text \<open>\<open>handle\<close> is called by the producer, \<open>stop\<close> by the server, \<open>forward ok\<close> is one turn of the
  streaming goroutine, the client's answer to the send being \<open>ok\<close>.\<close>

datatype 'a stream_act = SHandle 'a | SForward bool | SStop

fun stream_run ::
  "('a \<Rightarrow> 's \<Rightarrow> 's go) \<Rightarrow> ('s \<Rightarrow> 's go) \<Rightarrow> (bool \<Rightarrow> 's \<Rightarrow> 's) \<Rightarrow> 'a stream_act list \<Rightarrow> 's \<Rightarrow> 's go" where
  "stream_run handle stop forward [] s = Ret s"
| "stream_run handle stop forward (SHandle x # as) s = go_bind (handle x s) (stream_run handle stop forward as)"
| "stream_run handle stop forward (SForward ok # as) s = stream_run handle stop forward as (forward ok s)"
| "stream_run handle stop forward (SStop # as) s = go_bind (stop s) (stream_run handle stop forward as)"

fun handled :: "'a stream_act list \<Rightarrow> 'a list" where
  "handled [] = []"
| "handled (SHandle x # as) = x # handled as"
| "handled (SForward ok # as) = handled as"
| "handled (SStop # as) = handled as"

locale bounded_stream =
  fixes accept :: "'a \<Rightarrow> bool"
    and renders :: "'a \<Rightarrow> 'm \<Rightarrow> bool"
    and handle :: "'a \<Rightarrow> 's \<Rightarrow> 's go"
    and stop :: "'s \<Rightarrow> 's go"
    and forward :: "bool \<Rightarrow> 's \<Rightarrow> 's"
    and ch :: "'s \<Rightarrow> 'a chan"
    and out :: "'s \<Rightarrow> 'm list"
    and ended :: "'s \<Rightarrow> bool"
    and good :: "'s \<Rightarrow> bool"
  assumes handle_skip: "good s \<Longrightarrow> \<not> accept x \<Longrightarrow> handle x s = Ret s"
    and handle_closed: "good s \<Longrightarrow> accept x \<Longrightarrow> ch_closed (ch s) \<Longrightarrow> handle x s = Panic"
    and handle_full: "good s \<Longrightarrow> accept x \<Longrightarrow> \<not> ch_closed (ch s) \<Longrightarrow> length (ch_buf (ch s)) \<ge> ch_cap (ch s) \<Longrightarrow>
      handle x s = Ret s"
    and handle_room: "good s \<Longrightarrow> accept x \<Longrightarrow> \<not> ch_closed (ch s) \<Longrightarrow> length (ch_buf (ch s)) < ch_cap (ch s) \<Longrightarrow>
      \<exists>s'. handle x s = Ret s' \<and> good s' \<and> ch s' = (ch s)\<lparr>ch_buf := ch_buf (ch s) @ [x]\<rparr> \<and> out s' = out s \<and> ended s' = ended s"
    and stop_spec: "good s \<Longrightarrow> if ch_closed (ch s) then stop s = Panic
      else \<exists>s'. stop s = Ret s' \<and> good s' \<and> ch s' = (ch s)\<lparr>ch_closed := True\<rparr> \<and> out s' = out s \<and> ended s' = ended s"
    and forward_idle: "good s \<Longrightarrow> ended s \<or> ch_buf (ch s) = [] \<Longrightarrow>
      good (forward ok s) \<and> ch (forward ok s) = ch s \<and> out (forward ok s) = out s"
    and forward_ended: "good s \<Longrightarrow> ended s \<Longrightarrow> ended (forward ok s)"
    and forward_item: "good s \<Longrightarrow> \<not> ended s \<Longrightarrow> ch_buf (ch s) = x # xs \<Longrightarrow>
      good (forward ok s) \<and> ch (forward ok s) = (ch s)\<lparr>ch_buf := xs\<rparr> \<and>
      (out (forward ok s) = out s \<and> ended (forward ok s) \<or>
       (\<exists>m. renders x m \<and> out (forward ok s) = out s @ [m] \<and> \<not> ended (forward ok s)))"
begin

text \<open>What the client was sent renders a list \<open>xs\<close> that, followed by what is still buffered, is a
  sublist of what was handled and accepted.\<close>

definition seen :: "'s \<Rightarrow> 'a list \<Rightarrow> bool" where
  "seen s h \<longleftrightarrow> (\<exists>xs. list_all2 renders xs (out s) \<and> subseq (xs @ ch_buf (ch s)) h)"

lemma seen_more: "seen s h \<Longrightarrow> seen s (h @ g)"
  unfolding seen_def by (meson subseq_order.order_trans list_emb_append2 subseq_rev_drop_many subseq_drop_many prefix_imp_subseq prefixI)

lemma handle_step:
  assumes "good s" and "seen s h" and "length (ch_buf (ch s)) \<le> ch_cap (ch s)" and "handle x s = Ret s'"
  shows "good s'" and "seen s' (h @ filter accept [x])" and "length (ch_buf (ch s')) \<le> ch_cap (ch s')"
    and "ch_cap (ch s') = ch_cap (ch s)"
proof -
  have "good s' \<and> seen s' (h @ filter accept [x]) \<and> length (ch_buf (ch s')) \<le> ch_cap (ch s') \<and> ch_cap (ch s') = ch_cap (ch s)"
  proof (cases "accept x")
    case False
    then show ?thesis using assms handle_skip [of s x] by simp
  next
    case True
    then have nc: "\<not> ch_closed (ch s)"
      using assms handle_closed [of s x] by force
    show ?thesis
    proof (cases "length (ch_buf (ch s)) < ch_cap (ch s)")
      case False
      then show ?thesis using True nc assms handle_full [of s x] seen_more by simp
    next
      case room: True
      then obtain s1 where s1: "handle x s = Ret s1" "good s1" "ch s1 = (ch s)\<lparr>ch_buf := ch_buf (ch s) @ [x]\<rparr>" "out s1 = out s"
        using handle_room [OF assms(1) True nc room] by blast
      obtain xs where "list_all2 renders xs (out s)" "subseq (xs @ ch_buf (ch s)) h"
        using assms(2) by (auto simp: seen_def)
      then have "list_all2 renders xs (out s1)" "subseq (xs @ ch_buf (ch s1)) (h @ [x])"
        using s1 list_emb_append_mono [of "(=)" "xs @ ch_buf (ch s)" h "[x]" "[x]"] by simp_all
      then show ?thesis
        using s1 assms(4) True room by (auto simp: seen_def)
    qed
  qed
  then show "good s'" and "seen s' (h @ filter accept [x])" and "length (ch_buf (ch s')) \<le> ch_cap (ch s')"
    and "ch_cap (ch s') = ch_cap (ch s)" by blast+
qed

lemma forward_step:
  assumes "good s" and "seen s h"
  shows "good (forward ok s)" and "seen (forward ok s) h"
    and "length (ch_buf (ch (forward ok s))) \<le> length (ch_buf (ch s))" and "ch_cap (ch (forward ok s)) = ch_cap (ch s)"
proof -
  have "good (forward ok s) \<and> seen (forward ok s) h \<and>
      length (ch_buf (ch (forward ok s))) \<le> length (ch_buf (ch s)) \<and> ch_cap (ch (forward ok s)) = ch_cap (ch s)"
  proof (cases "ended s \<or> ch_buf (ch s) = []")
    case True
    then show ?thesis using forward_idle [OF assms(1)] assms(2) by (simp add: seen_def)
  next
    case False
    then obtain x bs where b: "ch_buf (ch s) = x # bs" and ne: "\<not> ended s"
      by (meson neq_Nil_conv)
    obtain xs where xs: "list_all2 renders xs (out s)" "subseq (xs @ x # bs) h"
      using assms(2) b by (auto simp: seen_def)
    from forward_item [OF assms(1) ne b, of ok]
    consider (lost) "out (forward ok s) = out s" | (sent) m where "renders x m" "out (forward ok s) = out s @ [m]"
      by blast
    then have "seen (forward ok s) h"
    proof cases
      case lost
      have "subseq (xs @ bs) (xs @ x # bs)"
        by (meson list_emb_Cons subseq_append' subseq_order.order_refl)
      then show ?thesis
        using xs lost forward_item [OF assms(1) ne b, of ok] subseq_order.order_trans
        by (auto simp: seen_def)
    next
      case sent
      have "list_all2 renders (xs @ [x]) (out (forward ok s))"
        using xs(1) sent by (simp add: list_all2_appendI)
      then show ?thesis
        using xs(2) forward_item [OF assms(1) ne b, of ok] unfolding seen_def
        by (intro exI [where x = "xs @ [x]"]) auto
    qed
    then show ?thesis
      using forward_item [OF assms(1) ne b, of ok] b by auto
  qed
  then show "good (forward ok s)" and "seen (forward ok s) h"
    and "length (ch_buf (ch (forward ok s))) \<le> length (ch_buf (ch s))" and "ch_cap (ch (forward ok s)) = ch_cap (ch s)"
    by blast+
qed

lemma run_seen:
  "good s \<Longrightarrow> seen s h \<Longrightarrow> length (ch_buf (ch s)) \<le> ch_cap (ch s) \<Longrightarrow>
   stream_run handle stop forward as s = Ret s' \<Longrightarrow>
   good s' \<and> seen s' (h @ filter accept (handled as)) \<and> length (ch_buf (ch s')) \<le> ch_cap (ch s)"
proof (induction as arbitrary: s h rule: handled.induct)
  case 1
  then show ?case by simp
next
  case (2 x as)
  then obtain s1 where s1: "handle x s = Ret s1" and r: "stream_run handle stop forward as s1 = Ret s'"
    by (auto simp: go_bind_eq_Ret)
  note h = handle_step [OF 2(2-4) s1]
  from 2(1) [OF h(1-3) r] h(4) show ?case by (cases "accept x") simp_all
next
  case (3 ok as)
  note f = forward_step [OF 3(2,3), of ok]
  have "length (ch_buf (ch (forward ok s))) \<le> ch_cap (ch (forward ok s))"
    using f(3,4) 3(4) by simp
  from 3(1) [OF f(1,2) this] 3(5) f(4) show ?case by simp
next
  case (4 as)
  then obtain s1 where s1: "stop s = Ret s1" and r: "stream_run handle stop forward as s1 = Ret s'"
    by (auto simp: go_bind_eq_Ret)
  then have "\<not> ch_closed (ch s)"
    using stop_spec [OF 4(2)] by auto
  with stop_spec [OF 4(2)] s1 have "good s1" "ch s1 = (ch s)\<lparr>ch_closed := True\<rparr>" "out s1 = out s"
    by auto
  with 4(1) [of s1 h] 4(3,4) r show ?case by (simp add: seen_def)
qed

text \<open>Nothing is lost while the total accepted fits the buffer and the client takes everything.\<close>

lemma run_lossless:
  "good s \<Longrightarrow> \<not> ended s \<Longrightarrow> \<not> ch_closed (ch s) \<Longrightarrow>
   list_all2 renders xs (out s) \<Longrightarrow>
   length (ch_buf (ch s)) + length (filter accept (handled as)) \<le> ch_cap (ch s) \<Longrightarrow>
   (\<And>s ok x bs. good s \<Longrightarrow> \<not> ended s \<Longrightarrow> ch_buf (ch s) = x # bs \<Longrightarrow> \<not> ended (forward True s)) \<Longrightarrow>
   (\<And>s. good s \<Longrightarrow> \<not> ended s \<Longrightarrow> \<not> ch_closed (ch s) \<Longrightarrow> ch_buf (ch s) = [] \<Longrightarrow> \<not> ended (forward True s)) \<Longrightarrow>
   set as \<inter> {SForward False, SStop} = {} \<Longrightarrow>
   \<exists>s' ys. stream_run handle stop forward as s = Ret s' \<and> list_all2 renders ys (out s') \<and>
     ys @ ch_buf (ch s') = xs @ ch_buf (ch s) @ filter accept (handled as)"
proof (induction as arbitrary: s xs rule: handled.induct)
  case 1
  then show ?case by auto
next
  case (2 x as)
  show ?case
  proof (cases "accept x")
    case False
    then show ?thesis
      using 2 handle_skip [of s x] by simp
  next
    case True
    have room: "length (ch_buf (ch s)) < ch_cap (ch s)"
      using 2(6) True by simp
    obtain s1 where s1: "handle x s = Ret s1" "good s1" "ch s1 = (ch s)\<lparr>ch_buf := ch_buf (ch s) @ [x]\<rparr>" "out s1 = out s" "ended s1 = ended s"
      using handle_room [OF 2(2) True 2(4) room] by blast
    then have "\<exists>s' ys. stream_run handle stop forward as s1 = Ret s' \<and> list_all2 renders ys (out s') \<and>
       ys @ ch_buf (ch s') = xs @ ch_buf (ch s1) @ filter accept (handled as)"
      using 2(2-) True by (intro 2(1)) (auto simp del: append_assoc)
    then show ?thesis
      using s1 True by simp
  qed
next
  case (3 ok as)
  then have ok: "ok = True" by auto
  show ?case
  proof (cases "ch_buf (ch s)")
    case Nil
    then have f: "good (forward ok s) \<and> ch (forward ok s) = ch s \<and> out (forward ok s) = out s"
      using forward_idle [OF 3(2)] by blast
    moreover have "\<not> ended (forward ok s)"
      using 3(8) [OF 3(2,3,4) Nil] ok by simp
    ultimately show ?thesis
      using 3(1) [of "forward ok s" xs] 3(4-) by simp
  next
    case (Cons x bs)
    have ne: "\<not> ended (forward ok s)"
      using 3(7) [OF 3(2,3) Cons] ok by simp
    then obtain m where m: "renders x m" "out (forward ok s) = out s @ [m]"
        "good (forward ok s)" "ch (forward ok s) = (ch s)\<lparr>ch_buf := bs\<rparr>"
      using forward_item [OF 3(2,3) Cons, of ok] by blast
    have "\<exists>s' ys. stream_run handle stop forward as (forward ok s) = Ret s' \<and> list_all2 renders ys (out s') \<and>
       ys @ ch_buf (ch s') = (xs @ [x]) @ ch_buf (ch (forward ok s)) @ filter accept (handled as)"
      using 3(2-) m ne Cons by (intro 3(1)) (auto simp: list_all2_appendI)
    then show ?thesis
      using m Cons by simp
  qed
next
  case (4 as)
  then show ?case by auto
qed

end

end
