(* ===== verification/Logs.thy ===== *)
theory Logs
  imports GoStd Streams "HOL-Library.Multiset"
begin

text \<open>
  The agent's logging: the ring buffer of recent lines with its subscribers
  (\<^verbatim>\<open>command/agent/log_writer.go\<close>), the writer that holds output back until start-up is over
  (\<^verbatim>\<open>gated_writer.go\<close>), the level filter (\<^verbatim>\<open>log_levels.go\<close>), the syslog adapter (\<^verbatim>\<open>syslog.go\<close>) and the
  stream of log lines to an IPC client (\<^verbatim>\<open>ipc_log_stream.go\<close>). The test whether a line passes a
  level filter is the logutils library's and a parameter (\<open>check\<close>); handlers are identities.
\<close>

section \<open>The ring buffer\<close>

record 'h log_writer =
  lw_logs :: "string list"
  lw_index :: nat
  lw_handlers :: "'h set"

definition NewLogWriter :: "nat \<Rightarrow> 'h log_writer" where
  "NewLogWriter buf = \<lparr>lw_logs = replicate buf '''', lw_index = 0, lw_handlers = {}\<rparr>"

text \<open>The calls \<^verbatim>\<open>HandleLog\<close> are returned in order; indexing outside the buffer is \<open>Panic\<close>.\<close>

definition lw_RegisterHandler :: "'h \<Rightarrow> 'h log_writer \<Rightarrow> (('h \<times> string) list \<times> 'h log_writer) go" where
  "lw_RegisterHandler lh l =
     (if lh \<in> lw_handlers l then Ret ([], l)
      else if \<not> lw_index l < length (lw_logs l) then Panic
      else (let old = (if lw_logs l ! lw_index l \<noteq> '''' then drop (lw_index l) (lw_logs l) else []);
                new = take (lw_index l) (lw_logs l)
            in Ret (map (\<lambda>s. (lh, s)) (old @ new), l\<lparr>lw_handlers := insert lh (lw_handlers l)\<rparr>)))"

definition lw_DeregisterHandler :: "'h \<Rightarrow> 'h log_writer \<Rightarrow> 'h log_writer" where
  "lw_DeregisterHandler lh l = l\<lparr>lw_handlers := lw_handlers l - {lh}\<rparr>"

definition strip_newline :: "string \<Rightarrow> string" where
  "strip_newline p = (if p \<noteq> [] \<and> last p = CHR 0x0A then butlast p else p)"

text \<open>\<open>ord\<close> is the order in which the loop ranges over the set of registered handlers, each of them once
  (\<open>ranges ord\<close>); the result carries the reported length.\<close>

definition ranges :: "('h set \<Rightarrow> 'h list) \<Rightarrow> bool" where
  "ranges ord \<longleftrightarrow> (\<forall>H. finite H \<longrightarrow> set (ord H) = H \<and> distinct (ord H))"

definition lw_Write :: "('h set \<Rightarrow> 'h list) \<Rightarrow> string \<Rightarrow> 'h log_writer \<Rightarrow> (nat \<times> ('h \<times> string) list \<times> 'h log_writer) go" where
  "lw_Write ord p l =
     (if p = [] then Panic
      else if \<not> lw_index l < length (lw_logs l) then Panic
      else (let s = strip_newline p
            in Ret (length p, map (\<lambda>h. (h, s)) (ord (lw_handlers l)),
                    l\<lparr>lw_logs := (lw_logs l)[lw_index l := s],
                      lw_index := (lw_index l + 1) mod length (lw_logs l)\<rparr>)))"

text \<open>The life of a log writer: writes, each with its order of handlers, and handlers coming and going. The lock makes
  each of them one step.\<close>

datatype 'h log_act = LWrite "'h set \<Rightarrow> 'h list" string | LRegister 'h | LDeregister 'h

fun lw_act :: "'h log_act \<Rightarrow> 'h log_writer \<Rightarrow> (('h \<times> string) list \<times> 'h log_writer) go" where
  "lw_act (LWrite ord p) l = go_bind (lw_Write ord p l) (\<lambda>(n, ds, l'). Ret (ds, l'))"
| "lw_act (LRegister h) l = lw_RegisterHandler h l"
| "lw_act (LDeregister h) l = Ret ([], lw_DeregisterHandler h l)"

fun lw_run :: "'h log_act list \<Rightarrow> 'h log_writer \<Rightarrow> (('h \<times> string) list \<times> 'h log_writer) go" where
  "lw_run [] l = Ret ([], l)"
| "lw_run (a # as) l =
     go_bind (lw_act a l) (\<lambda>(ds, l'). go_bind (lw_run as l') (\<lambda>(ds', l''). Ret (ds @ ds', l'')))"

fun written_lines :: "'h log_act list \<Rightarrow> string list" where
  "written_lines [] = []"
| "written_lines (LWrite ord p # as) = strip_newline p # written_lines as"
| "written_lines (a # as) = written_lines as"

fun proper_act :: "'h log_act \<Rightarrow> bool" where
  "proper_act (LWrite ord p) = (p \<noteq> [] \<and> ranges ord)"
| "proper_act a = True"

definition last_lines :: "nat \<Rightarrow> string list \<Rightarrow> string list" where
  "last_lines n h = drop (length h - n) h"

text \<open>The ring holds the last lines of the history: written slots in order of age, empty ones until it
  has filled once.\<close>

definition ring_repr :: "string list \<Rightarrow> 'h log_writer \<Rightarrow> bool" where
  "ring_repr h l \<longleftrightarrow>
     0 < length (lw_logs l) \<and> lw_index l = length h mod length (lw_logs l) \<and>
     (if length h < length (lw_logs l)
      then lw_logs l = h @ replicate (length (lw_logs l) - length h) ''''
      else drop (lw_index l) (lw_logs l) @ take (lw_index l) (lw_logs l) = last_lines (length (lw_logs l)) h)"

lemma ring_repr_new: "0 < n \<Longrightarrow> ring_repr [] (NewLogWriter n)"
  by (simp add: ring_repr_def NewLogWriter_def)

lemma ring_repr_full:
  "ring_repr h l \<Longrightarrow> length (lw_logs l) \<le> length h \<Longrightarrow>
   drop (lw_index l) (lw_logs l) @ take (lw_index l) (lw_logs l) = last_lines (length (lw_logs l)) h"
  unfolding ring_repr_def by (metis not_less)

lemma rotate_update:
  assumes "i < length xs"
  shows "drop (Suc i) (xs[i := y]) @ take (Suc i) (xs[i := y]) = tl (drop i xs @ take i xs) @ [y]"
  using assms by (simp add: take_Suc_conv_app_nth Cons_nth_drop_Suc [symmetric] drop_update_cancel)

lemma last_lines_snoc:
  "n \<le> length h \<Longrightarrow> 0 < n \<Longrightarrow> last_lines n (h @ [y]) = tl (last_lines n h) @ [y]"
  by (simp add: last_lines_def Suc_diff_le drop_Suc tl_drop)

lemma ring_repr_write:
  assumes r: "ring_repr h l"
  shows "ring_repr (h @ [y])
    (l\<lparr>lw_logs := (lw_logs l)[lw_index l := y], lw_index := (lw_index l + 1) mod length (lw_logs l)\<rparr>)"
proof -
  let ?n = "length (lw_logs l)" and ?i = "lw_index l"
  have n: "0 < ?n" and i: "?i = length h mod ?n" and ib: "?i < ?n"
    using r by (simp_all add: ring_repr_def)
  have idx: "(?i + 1) mod ?n = length (h @ [y]) mod ?n"
    by (simp add: i mod_Suc_eq)
  show ?thesis
  proof (cases "length h < ?n")
    case True
    then have logs: "lw_logs l = h @ replicate (?n - length h) ''''" and ih: "?i = length h"
      using r i by (simp_all add: ring_repr_def)
    have upd: "(lw_logs l)[?i := y] = (h @ [y]) @ replicate (?n - Suc (length h)) ''''"
    proof -
      have "?n - length h = Suc (?n - Suc (length h))" using True by simp
      then have "lw_logs l = h @ '''' # replicate (?n - Suc (length h)) ''''"
        using logs by (metis replicate_Suc)
      then show ?thesis using ih by (metis append_Cons append_Nil append_assoc list_update_length)
    qed
    show ?thesis
    proof (cases "Suc (length h) < ?n")
      case True
      then show ?thesis using n idx upd by (simp add: ring_repr_def)
    next
      case False
      then have e: "Suc (length h) = ?n" using \<open>length h < ?n\<close> by simp
      then show ?thesis
        using n idx upd ih by (simp add: ring_repr_def last_lines_def)
    qed
  next
    case False
    have rot: "drop ?i (lw_logs l) @ take ?i (lw_logs l) = last_lines ?n h"
      using ring_repr_full [OF r] False by simp
    have "drop (Suc ?i) ((lw_logs l)[?i := y]) @ take (Suc ?i) ((lw_logs l)[?i := y]) = last_lines ?n (h @ [y])"
      using rotate_update [OF ib, of y] rot last_lines_snoc [of ?n h y] False n by simp
    moreover have "Suc ?i mod ?n = (if Suc ?i = ?n then 0 else Suc ?i)"
      using ib by auto
    ultimately show ?thesis
      using n idx False by (auto simp: ring_repr_def split: if_splits)
  qed
qed

lemma last_lines_short: "length h \<le> n \<Longrightarrow> last_lines n h = h"
  by (simp add: last_lines_def)

lemma ring_backlog:
  assumes r: "ring_repr h l" and new: "lh \<notin> lw_handlers l"
    and ne: "length h \<ge> length (lw_logs l) \<Longrightarrow> hd (last_lines (length (lw_logs l)) h) \<noteq> ''''"
  shows "lw_RegisterHandler lh l =
    Ret (map (\<lambda>s. (lh, s)) (last_lines (length (lw_logs l)) h), l\<lparr>lw_handlers := insert lh (lw_handlers l)\<rparr>)"
proof -
  let ?n = "length (lw_logs l)" and ?i = "lw_index l"
  have n: "0 < ?n" and ib: "?i < ?n"
    using r by (simp_all add: ring_repr_def)
  show ?thesis
  proof (cases "length h < ?n")
    case True
    then have logs: "lw_logs l = h @ replicate (?n - length h) ''''" and ih: "?i = length h"
      using r by (simp_all add: ring_repr_def)
    have "lw_logs l ! ?i = ''''"
      by (subst logs) (use ih True in \<open>simp add: nth_append\<close>)
    moreover have "take ?i (lw_logs l) = h"
      by (subst logs) (simp add: ih)
    ultimately show ?thesis
      using new ib True by (simp add: lw_RegisterHandler_def last_lines_short)
  next
    case False
    then have rot: "drop ?i (lw_logs l) @ take ?i (lw_logs l) = last_lines ?n h"
      using ring_repr_full [OF r] False by simp
    then have "lw_logs l ! ?i = hd (last_lines ?n h)"
      using ib by (metis Cons_nth_drop_Suc append_Cons list.sel(1))
    then show ?thesis
      using new ib rot ne False
      by (simp add: lw_RegisterHandler_def map_append [symmetric] del: map_append)
  qed
qed

text \<open>With an empty line in the oldest slot only the younger part up to the index is sent.\<close>

lemma ring_backlog_hidden:
  assumes r: "ring_repr h l" and new: "lh \<notin> lw_handlers l" and full: "length h \<ge> length (lw_logs l)"
    and e: "hd (last_lines (length (lw_logs l)) h) = ''''"
  shows "lw_RegisterHandler lh l =
    Ret (map (\<lambda>s. (lh, s)) (last_lines (length h mod length (lw_logs l)) h), l\<lparr>lw_handlers := insert lh (lw_handlers l)\<rparr>)"
proof -
  let ?n = "length (lw_logs l)" and ?i = "lw_index l"
  have n: "0 < ?n" and i: "?i = length h mod ?n" and ib: "?i < ?n"
    using r by (simp_all add: ring_repr_def)
  note rot = ring_repr_full [OF r full]
  then have "lw_logs l ! ?i = ''''"
    using e ib by (metis Cons_nth_drop_Suc append_Cons list.sel(1))
  moreover have "take ?i (lw_logs l) = last_lines ?i h"
  proof -
    have "take ?i (lw_logs l) = drop (?n - ?i) (drop ?i (lw_logs l) @ take ?i (lw_logs l))"
      using ib by simp
    also have "\<dots> = last_lines ?i h"
      unfolding rot using full ib by (simp add: last_lines_def)
    finally show ?thesis .
  qed
  ultimately show ?thesis
    using new ib i by (simp add: lw_RegisterHandler_def)
qed

lemma ring_repr_handlers [simp]: "ring_repr h (l\<lparr>lw_handlers := H\<rparr>) = ring_repr h l"
  by (simp add: ring_repr_def)

lemma filter_deliveries:
  "distinct hs \<Longrightarrow> filter (\<lambda>d. fst d = lh) (map (\<lambda>x. (x, s)) hs) = (if lh \<in> set hs then [(lh, s)] else [])"
proof (induction hs)
  case (Cons a hs)
  then show ?case
    by (cases "a = lh") (auto simp: filter_empty_conv)
qed simp

lemma register_frame:
  "ring_repr h l \<Longrightarrow> \<exists>ds. lw_RegisterHandler g l = Ret (ds, l\<lparr>lw_handlers := insert g (lw_handlers l)\<rparr>) \<and>
     (\<forall>d \<in> set ds. fst d = g) \<and> (g \<in> lw_handlers l \<longrightarrow> ds = [])"
  by (cases "g \<in> lw_handlers l")
    (auto simp: lw_RegisterHandler_def ring_repr_def insert_absorb Let_def)

text \<open>What one action sends to a given handler: a line to a registered one, nothing otherwise.\<close>

definition told_act :: "'h \<Rightarrow> 'h log_act \<Rightarrow> 'h log_writer \<Rightarrow> ('h \<times> string) list \<Rightarrow> 'h log_writer \<Rightarrow> bool" where
  "told_act lh a l ds l' \<longleftrightarrow>
     (lh \<in> lw_handlers l \<and> a \<noteq> LDeregister lh \<longrightarrow>
        lh \<in> lw_handlers l' \<and> filter (\<lambda>d. fst d = lh) ds = map (Pair lh) (written_lines [a])) \<and>
     (lh \<notin> lw_handlers l \<and> a \<noteq> LRegister lh \<longrightarrow> lh \<notin> lw_handlers l' \<and> filter (\<lambda>d. fst d = lh) ds = [])"

lemma lw_act_spec:
  assumes r: "ring_repr h l" and f: "finite (lw_handlers l)" and p: "proper_act a"
  shows "\<exists>ds l'. lw_act a l = Ret (ds, l') \<and> ring_repr (h @ written_lines [a]) l' \<and>
     finite (lw_handlers l') \<and> length (lw_logs l') = length (lw_logs l) \<and> told_act lh a l ds l'"
proof (cases a)
  case (LWrite ord p)
  have "0 < length (lw_logs l)" "lw_index l < length (lw_logs l)"
    using r by (simp_all add: ring_repr_def)
  moreover have "set (ord (lw_handlers l)) = lw_handlers l" "distinct (ord (lw_handlers l))" "p \<noteq> []"
    using p f LWrite by (auto simp: ranges_def)
  ultimately show ?thesis
    using ring_repr_write [OF r, of "strip_newline p"] f LWrite
    by (simp add: lw_Write_def Let_def told_act_def filter_deliveries)
next
  case (LRegister g)
  then show ?thesis
    using register_frame [OF r, of g] r f by (auto simp: told_act_def filter_empty_conv)
next
  case (LDeregister g)
  then show ?thesis
    using r f by (auto simp: told_act_def lw_DeregisterHandler_def)
qed

lemma written_lines_Cons: "written_lines (a # as) = written_lines [a] @ written_lines as"
  by (cases a) simp_all

lemma lw_run_spec:
  assumes "ring_repr h l" and "finite (lw_handlers l)" and "\<forall>a \<in> set as. proper_act a"
  shows "\<exists>ds l'. lw_run as l = Ret (ds, l') \<and> ring_repr (h @ written_lines as) l' \<and>
     finite (lw_handlers l') \<and> length (lw_logs l') = length (lw_logs l) \<and>
     (lh \<in> lw_handlers l \<and> LDeregister lh \<notin> set as \<longrightarrow>
        lh \<in> lw_handlers l' \<and> filter (\<lambda>d. fst d = lh) ds = map (Pair lh) (written_lines as)) \<and>
     (lh \<notin> lw_handlers l \<and> LRegister lh \<notin> set as \<longrightarrow> lh \<notin> lw_handlers l' \<and> filter (\<lambda>d. fst d = lh) ds = [])"
  using assms
proof (induction as arbitrary: h l)
  case (Cons a as)
  obtain ds1 l1 where a: "lw_act a l = Ret (ds1, l1)" "ring_repr (h @ written_lines [a]) l1"
      "finite (lw_handlers l1)" "length (lw_logs l1) = length (lw_logs l)" "told_act lh a l ds1 l1"
    using lw_act_spec [OF Cons.prems(1,2), of a lh] Cons.prems(3) by auto
  from Cons.IH [OF a(2,3)] Cons.prems(3) obtain ds2 l2 where
    as: "lw_run as l1 = Ret (ds2, l2)" "ring_repr ((h @ written_lines [a]) @ written_lines as) l2"
      "finite (lw_handlers l2)" "length (lw_logs l2) = length (lw_logs l1)"
      "lh \<in> lw_handlers l1 \<and> LDeregister lh \<notin> set as \<longrightarrow>
        lh \<in> lw_handlers l2 \<and> filter (\<lambda>d. fst d = lh) ds2 = map (Pair lh) (written_lines as)"
      "lh \<notin> lw_handlers l1 \<and> LRegister lh \<notin> set as \<longrightarrow> lh \<notin> lw_handlers l2 \<and> filter (\<lambda>d. fst d = lh) ds2 = []"
    by auto
  have "lw_run (a # as) l = Ret (ds1 @ ds2, l2)"
    using a(1) as(1) by simp
  then show ?case
    using a(4,5) as(2-6) unfolding written_lines_Cons [of a as] told_act_def by auto
qed simp

section \<open>The gated writer\<close>

text \<open>\<open>gw_out\<close> is what the underlying writer has received.\<close>

record gated =
  gw_buf :: "string list"
  gw_flush :: bool
  gw_out :: "string list"

text \<open>A \<^verbatim>\<open>Write\<close> holds the lock for reading only. Entering, it either passes the line on or, while the gate is
  closed, reads \<^verbatim>\<open>w.buf\<close> (\<open>gw_enter\<close>, whose second result is the buffer read); leaving, it assigns the appended buffer
  (\<open>gw_store\<close>). \<open>gw_Write\<close> is the two without anything in between.\<close>

definition gw_enter :: "string \<Rightarrow> gated \<Rightarrow> gated \<times> string list option" where
  "gw_enter p w =
     (if gw_flush w then (w\<lparr>gw_out := gw_out w @ [p]\<rparr>, None)
      else (w, Some (gw_buf w)))"

definition gw_store :: "string list \<Rightarrow> string \<Rightarrow> gated \<Rightarrow> gated" where
  "gw_store buf p w = w\<lparr>gw_buf := buf @ [p]\<rparr>"

definition gw_Write :: "string \<Rightarrow> gated \<Rightarrow> nat \<times> gated" where
  "gw_Write p w =
     (case gw_enter p w of
        (w', None) \<Rightarrow> (length p, w')
      | (w', Some buf) \<Rightarrow> (length p, gw_store buf p w'))"

fun gw_replay :: "string list \<Rightarrow> gated \<Rightarrow> gated" where
  "gw_replay [] w = w"
| "gw_replay (p # ps) w = gw_replay ps (snd (gw_Write p w))"

definition gw_Flush :: "gated \<Rightarrow> gated" where
  "gw_Flush w = (let w1 = w\<lparr>gw_flush := True\<rparr> in (gw_replay (gw_buf w1) w1)\<lparr>gw_buf := []\<rparr>)"

text \<open>The writer among goroutines. \<open>gs_busy\<close> are the writes that hold the read lock between their two steps, as the buffer each
  has read and its line. A flush takes the lock for writing, so it waits until there are none; then it replays the
  buffer without the lock: \<open>gs_todo\<close> is what it still has to replay (\<open>None\<close> before and after). \<open>gs_written\<close> are the lines
  written, in the order in which the writes entered.\<close>

record gated_sys =
  gs_w :: gated
  gs_busy :: "(string list \<times> string) list"
  gs_todo :: "string list option"
  gs_written :: "string list"

datatype gated_act = GEnter string | GStore nat | GFlushStart | GReplay | GFlushEnd

fun gated_step :: "gated_act \<Rightarrow> gated_sys \<Rightarrow> gated_sys option" where
  "gated_step (GEnter p) s =
     (let (w, read) = gw_enter p (gs_w s)
      in Some (s\<lparr>gs_w := w, gs_written := gs_written s @ [p],
                 gs_busy := gs_busy s @ (case read of None \<Rightarrow> [] | Some buf \<Rightarrow> [(buf, p)])\<rparr>))"
| "gated_step (GStore i) s =
     (if i < length (gs_busy s)
      then (let (buf, p) = gs_busy s ! i
            in Some (s\<lparr>gs_w := gw_store buf p (gs_w s), gs_busy := take i (gs_busy s) @ drop (Suc i) (gs_busy s)\<rparr>))
      else None)"
| "gated_step GFlushStart s =
     (if gs_todo s = None \<and> gs_busy s = []
      then (let w = (gs_w s)\<lparr>gw_flush := True\<rparr> in Some (s\<lparr>gs_w := w, gs_todo := Some (gw_buf w)\<rparr>))
      else None)"
| "gated_step GReplay s =
     (case gs_todo s of
        Some (p # ps) \<Rightarrow> Some (s\<lparr>gs_w := snd (gw_Write p (gs_w s)), gs_todo := Some ps\<rparr>)
      | _ \<Rightarrow> None)"
| "gated_step GFlushEnd s =
     (case gs_todo s of
        Some [] \<Rightarrow> Some (s\<lparr>gs_w := (gs_w s)\<lparr>gw_buf := []\<rparr>, gs_todo := None\<rparr>)
      | _ \<Rightarrow> None)"

fun gated_run :: "gated_act list \<Rightarrow> gated_sys \<Rightarrow> gated_sys option" where
  "gated_run [] s = Some s"
| "gated_run (a # as) s = Option.bind (gated_step a s) (gated_run as)"

text \<open>A run in which no two writes append at the same time.\<close>

fun apart :: "gated_act list \<Rightarrow> gated_sys \<Rightarrow> bool" where
  "apart [] s = (length (gs_busy s) \<le> 1)"
| "apart (a # as) s = (length (gs_busy s) \<le> 1 \<and> (case gated_step a s of None \<Rightarrow> True | Some s' \<Rightarrow> apart as s'))"

definition gated_init :: gated_sys where
  "gated_init = \<lparr>gs_w = \<lparr>gw_buf = [], gw_flush = False, gw_out = []\<rparr>, gs_busy = [], gs_todo = None, gs_written = []\<rparr>"

text \<open>What has been written is in the output, still to be replayed, being appended, or (before a flush) buffered.\<close>

definition gated_inv :: "gated_sys \<Rightarrow> bool" where
  "gated_inv s \<longleftrightarrow>
     (if gw_flush (gs_w s)
      then gs_busy s = [] \<and>
        (case gs_todo s of
           Some ps \<Rightarrow> mset (gw_out (gs_w s)) + mset ps = mset (gs_written s)
         | None \<Rightarrow> gw_buf (gs_w s) = [] \<and> mset (gw_out (gs_w s)) = mset (gs_written s))
      else gs_todo s = None \<and> gw_out (gs_w s) = [] \<and>
        (case gs_busy s of
           [] \<Rightarrow> gw_buf (gs_w s) = gs_written s
         | [(buf, p)] \<Rightarrow> buf = gw_buf (gs_w s) \<and> gs_written s = buf @ [p]
         | _ \<Rightarrow> False))"

text \<open>Also where writes overlap, nothing is there twice or out of the blue.\<close>

definition gated_sub :: "gated_sys \<Rightarrow> bool" where
  "gated_sub s \<longleftrightarrow>
     (if gw_flush (gs_w s)
      then gs_busy s = [] \<and>
        (case gs_todo s of
           Some ps \<Rightarrow> mset (gw_out (gs_w s)) + mset ps \<subseteq># mset (gs_written s)
         | None \<Rightarrow> gw_buf (gs_w s) = [] \<and> mset (gw_out (gs_w s)) \<subseteq># mset (gs_written s))
      else gs_todo s = None \<and> gw_out (gs_w s) = [] \<and> mset (gw_buf (gs_w s)) \<subseteq># mset (gs_written s) \<and>
        (\<forall>(buf, p) \<in> set (gs_busy s). mset (buf @ [p]) \<subseteq># mset (gs_written s)))"

lemma subset_mset_snoc: "A \<subseteq># B \<Longrightarrow> A \<subseteq># add_mset x B"
  by (metis add_mset_add_single mset_subset_eq_add_left subset_mset.order_trans)

lemma gated_step_sub: "gated_step a s = Some s' \<Longrightarrow> gated_sub s \<Longrightarrow> gated_sub s'"
proof (cases a)
  case (GEnter p)
  then show "gated_step a s = Some s' \<Longrightarrow> gated_sub s \<Longrightarrow> gated_sub s'"
    by (auto simp: gated_sub_def gw_enter_def split: if_splits option.splits) (fastforce intro: subset_mset_snoc)+
next
  case (GStore i)
  assume s: "gated_step a s = Some s'" and sub: "gated_sub s"
  obtain buf p where b: "gs_busy s ! i = (buf, p)" "i < length (gs_busy s)"
    using s GStore by (cases "gs_busy s ! i") (auto split: if_splits)
  then have m: "(buf, p) \<in> set (gs_busy s)"
    by (metis nth_mem)
  then have "\<not> gw_flush (gs_w s)" and "mset (buf @ [p]) \<subseteq># mset (gs_written s)"
    using sub by (auto simp: gated_sub_def split: if_splits)
  then show "gated_sub s'"
    using s sub GStore b
    by (auto simp: gated_sub_def gw_store_def dest!: in_set_takeD in_set_dropD)
qed (auto simp: gated_sub_def gw_Write_def gw_enter_def Let_def split: option.splits if_splits list.splits)

lemma gated_step_inv:
  assumes st: "gated_step a s = Some s'" and inv: "gated_inv s" and one: "length (gs_busy s') \<le> 1"
  shows "gated_inv s'"
proof (cases "gw_flush (gs_w s)")
  case True
  then have "gs_busy s = []" using inv by (simp add: gated_inv_def)
  then show ?thesis
    using st inv True
    by (cases a) (auto simp: gated_inv_def gw_Write_def gw_enter_def Let_def split: option.splits if_splits list.splits)
next
  case False
  then have t: "gs_todo s = None" "gw_out (gs_w s) = []" using inv by (simp_all add: gated_inv_def)
  show ?thesis
  proof (cases "gs_busy s")
    case Nil
    then have "gw_buf (gs_w s) = gs_written s" using inv False by (simp add: gated_inv_def)
    then show ?thesis
      using st t False Nil by (cases a) (auto simp: gated_inv_def gw_enter_def Let_def)
  next
    case (Cons x xs)
    then obtain buf p where x: "x = (buf, p)" "xs = []" "buf = gw_buf (gs_w s)" "gs_written s = buf @ [p]"
      using inv False by (cases x) (auto simp: gated_inv_def split: list.splits)
    then show ?thesis
      using st t False Cons one by (cases a) (auto simp: gated_inv_def gw_enter_def gw_store_def Let_def split: if_splits)
  qed
qed

lemma apart_busy: "apart as s \<Longrightarrow> length (gs_busy s) \<le> 1"
  by (cases as) simp_all

lemma gated_run_inv: "gated_run as s = Some s' \<Longrightarrow> apart as s \<Longrightarrow> gated_inv s \<Longrightarrow> gated_inv s'"
proof (induction as arbitrary: s)
  case (Cons a as)
  then obtain s1 where s1: "gated_step a s = Some s1" "gated_run as s1 = Some s'" "apart as s1"
    by (auto simp: bind_eq_Some_conv)
  then have "gated_inv s1"
    using gated_step_inv Cons.prems(3) apart_busy by blast
  then show ?case
    using Cons.IH s1 by blast
qed simp

lemma gated_run_sub: "gated_run as s = Some s' \<Longrightarrow> gated_sub s \<Longrightarrow> gated_sub s'"
  by (induction as arbitrary: s) (auto simp: bind_eq_Some_conv dest: gated_step_sub)

lemma gated_init_inv: "gated_inv gated_init" "gated_sub gated_init"
  by (simp_all add: gated_inv_def gated_sub_def gated_init_def)

lemma gw_replay_out: "gw_flush w \<Longrightarrow> gw_replay ps w = w\<lparr>gw_out := gw_out w @ ps\<rparr>"
  by (induction ps arbitrary: w) (simp_all add: gw_Write_def gw_enter_def)

text \<open>A flush that nobody disturbs, step by step.\<close>

lemma gated_run_append: "gated_run (as @ bs) s = Option.bind (gated_run as s) (gated_run bs)"
proof (induction as arbitrary: s)
  case (Cons a as)
  then show ?case by (cases "gated_step a s") simp_all
qed simp

lemma replay_steps:
  "gs_todo s = Some ps \<Longrightarrow> gated_run (replicate (length ps) GReplay) s = Some (s\<lparr>gs_w := gw_replay ps (gs_w s), gs_todo := Some []\<rparr>)"
  by (induction ps arbitrary: s) simp_all

lemma flush_steps:
  assumes "gs_todo s = None" and "gs_busy s = []"
  shows "gated_run (GFlushStart # replicate (length (gw_buf (gs_w s))) GReplay @ [GFlushEnd]) s = Some (s\<lparr>gs_w := gw_Flush (gs_w s)\<rparr>)"
  using assms
  by (simp add: gated_run_append Let_def replay_steps gw_Flush_def)

section \<open>Levels and syslog\<close>

definition filter_levels :: "string list" where
  "filter_levels = [''TRACE'', ''DEBUG'', ''INFO'', ''WARN'', ''ERR'']"

record level_filter =
  lf_Levels :: "string list"
  lf_MinLevel :: string

definition LevelFilter :: level_filter where
  "LevelFilter = \<lparr>lf_Levels = filter_levels, lf_MinLevel = ''INFO''\<rparr>"

definition ValidateLevelFilter :: "string \<Rightarrow> level_filter \<Rightarrow> bool" where
  "ValidateLevelFilter minLevel f = list_ex (\<lambda>level. level = minLevel) (lf_Levels f)"

datatype syslog_priority = LOG_CRIT | LOG_ERR | LOG_WARNING | LOG_NOTICE | LOG_INFO | LOG_DEBUG

definition levelPriority :: "string \<rightharpoonup> syslog_priority" where
  "levelPriority =
     [''TRACE'' \<mapsto> LOG_DEBUG, ''DEBUG'' \<mapsto> LOG_INFO, ''INFO'' \<mapsto> LOG_NOTICE,
      ''WARN'' \<mapsto> LOG_WARNING, ''ERR'' \<mapsto> LOG_ERR, ''CRIT'' \<mapsto> LOG_CRIT]"

text \<open>\<^verbatim>\<open>bytes.IndexByte\<close>; the level lies between the first bracket and the next closing one.\<close>

fun IndexByte :: "char \<Rightarrow> string \<Rightarrow> nat option" where
  "IndexByte c [] = None"
| "IndexByte c (x # xs) = (if x = c then Some 0 else map_option Suc (IndexByte c xs))"

text \<open>The result is the reported length and the call to syslog; slicing beyond the end is \<open>Panic\<close>.\<close>

definition syslog_Write ::
  "(string \<Rightarrow> bool) \<Rightarrow> string \<Rightarrow> (nat \<times> (syslog_priority \<times> string) option) go" where
  "syslog_Write check p =
     (if \<not> check p then Ret (0, None)
      else go_bind
        (case IndexByte (CHR ''['') p of
           None \<Rightarrow> Ret ('''', p)
         | Some x \<Rightarrow>
             (case IndexByte (CHR '']'') (drop x p) of
                None \<Rightarrow> Ret ('''', p)
              | Some y \<Rightarrow>
                  if x + y + 2 \<le> length p then Ret (drop (x + 1) (take (x + y) p), drop (x + y + 2) p)
                  else Panic))
        (\<lambda>(level, afterLevel).
           let priority = (case levelPriority level of None \<Rightarrow> LOG_NOTICE | Some pr \<Rightarrow> pr)
           in Ret (length p, Some (priority, afterLevel))))"

lemma IndexByte_append: "c \<notin> set a \<Longrightarrow> IndexByte c (a @ c # b) = Some (length a)"
  by (induction a) auto

lemma IndexByte_Some:
  "IndexByte c s = Some i \<Longrightarrow> i < length s \<and> s ! i = c \<and> c \<notin> set (take i s)"
  by (induction s arbitrary: i) (auto split: if_splits)

section \<open>The log stream\<close>

record log_record =
  log_Log :: string

text \<open>\<open>ls_out\<close> is what the client accepted, as (sequence number, record); the sends are those of the
  streaming goroutine, which returns at the first error or when the closed channel is empty.\<close>

record log_stream =
  ls_logCh :: "string chan"
  ls_seq :: uint64
  ls_out :: "(uint64 \<times> log_record) list"
  ls_returned :: bool

definition newLogStream :: "uint64 \<Rightarrow> log_stream" where
  "newLogStream seq = \<lparr>ls_logCh = make_chan 512, ls_seq = seq, ls_out = [], ls_returned = False\<rparr>"

definition ls_HandleLog :: "(string \<Rightarrow> bool) \<Rightarrow> string \<Rightarrow> log_stream \<Rightarrow> log_stream go" where
  "ls_HandleLog check l ls =
     (if \<not> check l then Ret ls
      else go_bind (try_send l (ls_logCh ls)) (\<lambda>(sent, c). Ret (ls\<lparr>ls_logCh := c\<rparr>)))"

definition ls_Stop :: "log_stream \<Rightarrow> log_stream go" where
  "ls_Stop ls = go_bind (close_chan (ls_logCh ls)) (\<lambda>c. Ret (ls\<lparr>ls_logCh := c\<rparr>))"

definition ls_stream :: "bool \<Rightarrow> log_stream \<Rightarrow> log_stream" where
  "ls_stream ok ls =
     (if ls_returned ls then ls
      else case ch_buf (ls_logCh ls) of
        [] \<Rightarrow> if ch_closed (ls_logCh ls) then ls\<lparr>ls_returned := True\<rparr> else ls
      | line # rest \<Rightarrow>
          (let ls1 = ls\<lparr>ls_logCh := (ls_logCh ls)\<lparr>ch_buf := rest\<rparr>\<rparr>
           in if ok then ls1\<lparr>ls_out := ls_out ls1 @ [(ls_seq ls, \<lparr>log_Log = line\<rparr>)]\<rparr>
              else ls1\<lparr>ls_returned := True\<rparr>))"

interpretation log_sink: bounded_stream check "\<lambda>l m. m = (seq, \<lparr>log_Log = l\<rparr>)" "ls_HandleLog check" ls_Stop ls_stream
    ls_logCh ls_out ls_returned "\<lambda>s. ls_seq s = seq" for check seq
  by unfold_locales
    (auto simp: ls_HandleLog_def try_send_def ls_Stop_def close_chan_def ls_stream_def Let_def split: list.splits)

section \<open>Properties\<close>

text \<open>C13. A log subscriber sees a contiguous piece of the log. Whatever was written and whichever handlers came and went
  before, a handler that registers is first sent the last \<open>n\<close> lines (of a buffer of \<open>n\<close>) in order; from then on, until it
  deregisters, every line written, exactly once and in order, whatever the order in which each write visits the registered
  handlers, and however other handlers come and go or this one registers again; and before and after that
  nothing. None of it panics. The one exception is a full buffer whose oldest line is empty: the code takes the slot for unused and
  withholds all older lines, sending only the \<open>length h mod n\<close> lines since the ring last wrapped.\<close>

theorem log_subscription:
  assumes n: "0 < n" and proper: "\<forall>a \<in> set (before @ during @ after). proper_act a"
    and new: "LRegister lh \<notin> set before" and stays: "LDeregister lh \<notin> set during" and gone: "LRegister lh \<notin> set after"
    and h: "h = written_lines before"
  shows "\<exists>ds1 l1 recent l2 ds2 l3 ds3 l4. lw_run before (NewLogWriter n) = Ret (ds1, l1) \<and>
      lw_RegisterHandler lh l1 = Ret (map (Pair lh) recent, l2) \<and>
      lw_run during l2 = Ret (ds2, l3) \<and>
      lw_run after (lw_DeregisterHandler lh l3) = Ret (ds3, l4) \<and>
      recent = (if n \<le> length h \<and> hd (last_lines n h) = '''' then last_lines (length h mod n) h else last_lines n h) \<and>
      filter (\<lambda>d. fst d = lh) ds1 = [] \<and>
      filter (\<lambda>d. fst d = lh) ds2 = map (Pair lh) (written_lines during) \<and>
      filter (\<lambda>d. fst d = lh) ds3 = []"
proof -
  have init: "finite (lw_handlers (NewLogWriter n))" "lh \<notin> lw_handlers (NewLogWriter n)" "length (lw_logs (NewLogWriter n)) = n"
    by (simp_all add: NewLogWriter_def)
  obtain ds1 l1 where w1: "lw_run before (NewLogWriter n) = Ret (ds1, l1)" "ring_repr h l1" "finite (lw_handlers l1)"
      "length (lw_logs l1) = n" "lh \<notin> lw_handlers l1" "filter (\<lambda>d. fst d = lh) ds1 = []"
    using lw_run_spec [OF ring_repr_new [OF n] init(1), of before lh] proper new init(2,3) h by auto
  let ?l2 = "l1\<lparr>lw_handlers := insert lh (lw_handlers l1)\<rparr>"
  let ?recent = "if n \<le> length h \<and> hd (last_lines n h) = '''' then last_lines (length h mod n) h else last_lines n h"
  have reg: "lw_RegisterHandler lh l1 = Ret (map (Pair lh) ?recent, ?l2)"
    using ring_backlog [OF w1(2,5)] ring_backlog_hidden [OF w1(2,5)] w1(4) by (cases "n \<le> length h") auto
  obtain ds2 l3 where w2: "lw_run during ?l2 = Ret (ds2, l3)" "ring_repr (h @ written_lines during) l3" "finite (lw_handlers l3)"
      "filter (\<lambda>d. fst d = lh) ds2 = map (Pair lh) (written_lines during)"
    using lw_run_spec [of h ?l2 during lh] w1(2,3) proper stays by auto
  obtain ds3 l4 where w3: "lw_run after (lw_DeregisterHandler lh l3) = Ret (ds3, l4)" "filter (\<lambda>d. fst d = lh) ds3 = []"
    using lw_run_spec [of "h @ written_lines during" "lw_DeregisterHandler lh l3" after lh] w2(2,3) proper gone
    by (auto simp: lw_DeregisterHandler_def)
  show ?thesis
    using w1(1,6) reg w2(1,4) w3 by (intro exI conjI) (assumption | rule refl)+
qed

definition demo_order :: "nat set \<Rightarrow> nat list" where
  "demo_order = sorted_list_of_set"

lemma demo_order_ranges: "ranges demo_order"
  by (simp add: ranges_def demo_order_def)

theorem log_subscription_witness:
  "\<exists>l1 l2 l3 ds2. lw_run [LWrite demo_order ''a'', LWrite demo_order [CHR 0x0A], LWrite demo_order ''c''] (NewLogWriter 2) = Ret ([], l1) \<and>
     lw_RegisterHandler 7 l1 = Ret ([(7, ''c'')], l2) \<and>
     lw_run [LRegister 8, LWrite demo_order ''d''] l2 = Ret (ds2, l3) \<and> filter (\<lambda>d. fst d = 7) ds2 = [(7, ''d'')]"
proof -
  let ?b = "[LWrite demo_order ''a'', LWrite demo_order [CHR 0x0A], LWrite demo_order ''c'']"
  let ?d = "[LRegister 8, LWrite demo_order ''d'']"
  have e: "[''a'', '''', ''c''] = written_lines ?b"
    by (simp add: strip_newline_def)
  have p: "\<forall>a \<in> set (?b @ ?d @ []). proper_act a"
    by (simp add: demo_order_ranges)
  have r: "\<exists>l1. lw_run ?b (NewLogWriter 2) = Ret ([], l1)"
    by (simp add: lw_Write_def NewLogWriter_def Let_def demo_order_def)
  have "\<exists>ds1 l1 l2 ds2 l3. lw_run ?b (NewLogWriter 2) = Ret (ds1, l1) \<and> lw_RegisterHandler 7 l1 = Ret ([(7, ''c'')], l2) \<and>
     lw_run ?d l2 = Ret (ds2, l3) \<and> filter (\<lambda>d. fst d = 7) ds2 = [(7, ''d'')]"
    using log_subscription [of 2 ?b ?d "[]" 7, OF _ p _ _ _ e]
    by (simp add: last_lines_def strip_newline_def del: lw_run.simps) fastforce
  then show ?thesis using r by fastforce
qed

text \<open>C14. What the gated writer keeps. As long as no two writes append at the same time, it loses and duplicates
  nothing, however writes of other goroutines fall between the steps of its flush: when no flush is in progress and one has
  happened, the output holds exactly the lines written. Writes may overlap, though, since they share the lock: then still no line comes out
  twice or from nowhere, but of two lines appended at once to the same buffer one is lost, as the run below shows.
  A flush that nobody disturbs puts out the buffered lines in order; a write that arrives while the buffer is replayed overtakes
  the buffered ones.\<close>

theorem gated_writer_conserves:
  "(\<forall>as s. gated_run as gated_init = Some s \<longrightarrow> apart as gated_init \<longrightarrow> gs_todo s = None \<longrightarrow> gw_flush (gs_w s) \<longrightarrow>
      mset (gw_out (gs_w s)) = mset (gs_written s)) \<and>
   (\<forall>as s. gated_run as gated_init = Some s \<longrightarrow> mset (gw_out (gs_w s)) \<subseteq># mset (gs_written s)) \<and>
   (\<forall>s. gs_todo s = None \<longrightarrow> gs_busy s = [] \<longrightarrow>
      (\<exists>s'. gated_run (GFlushStart # replicate (length (gw_buf (gs_w s))) GReplay @ [GFlushEnd]) s = Some s' \<and>
         gs_w s' = gw_Flush (gs_w s) \<and> gw_flush (gs_w s') \<and> gw_buf (gs_w s') = [] \<and>
         gw_out (gs_w s') = gw_out (gs_w s) @ gw_buf (gs_w s))) \<and>
   (\<exists>s. gated_run [GEnter ''a'', GStore 0, GFlushStart, GEnter ''b'', GReplay, GFlushEnd] gated_init = Some s \<and>
      gs_written s = [''a'', ''b''] \<and> gw_out (gs_w s) = [''b'', ''a'']) \<and>
   (\<exists>s. gated_run [GEnter ''a'', GEnter ''b'', GStore 0, GStore 0, GFlushStart, GReplay, GFlushEnd] gated_init = Some s \<and>
      gs_written s = [''a'', ''b''] \<and> gw_out (gs_w s) = [''b''])"
proof (intro conjI allI impI)
  fix as s
  assume "gated_run as gated_init = Some s" and "apart as gated_init" and "gs_todo s = None" and "gw_flush (gs_w s)"
  then show "mset (gw_out (gs_w s)) = mset (gs_written s)"
    using gated_run_inv [OF _ _ gated_init_inv(1), of as s] by (simp add: gated_inv_def)
next
  fix as s
  assume "gated_run as gated_init = Some s"
  then have "gated_sub s" by (rule gated_run_sub) (rule gated_init_inv)
  then show "mset (gw_out (gs_w s)) \<subseteq># mset (gs_written s)"
    by (auto simp: gated_sub_def split: if_splits option.splits
        intro: subset_mset.order_trans [OF mset_subset_eq_add_left])
next
  fix s :: gated_sys
  assume "gs_todo s = None" "gs_busy s = []"
  from flush_steps [OF this]
  show "\<exists>s'. gated_run (GFlushStart # replicate (length (gw_buf (gs_w s))) GReplay @ [GFlushEnd]) s = Some s' \<and>
         gs_w s' = gw_Flush (gs_w s) \<and> gw_flush (gs_w s') \<and> gw_buf (gs_w s') = [] \<and>
         gw_out (gs_w s') = gw_out (gs_w s) @ gw_buf (gs_w s)"
    by (intro exI conjI) (assumption | simp add: gw_Flush_def gw_replay_out Let_def)+
next
  show "\<exists>s. gated_run [GEnter ''a'', GStore 0, GFlushStart, GEnter ''b'', GReplay, GFlushEnd] gated_init = Some s \<and>
      gs_written s = [''a'', ''b''] \<and> gw_out (gs_w s) = [''b'', ''a'']"
    by (simp add: gated_init_def gw_Write_def gw_enter_def gw_store_def Let_def)
  show "\<exists>s. gated_run [GEnter ''a'', GEnter ''b'', GStore 0, GStore 0, GFlushStart, GReplay, GFlushEnd] gated_init = Some s \<and>
      gs_written s = [''a'', ''b''] \<and> gw_out (gs_w s) = [''b'']"
    by (simp add: gated_init_def gw_Write_def gw_enter_def gw_store_def Let_def)
qed

theorem gated_writer_conserves_witness:
  "\<exists>s. gated_run [GEnter ''a'', GStore 0, GFlushStart, GEnter ''b'', GReplay, GFlushEnd] gated_init = Some s \<and>
      mset (gw_out (gs_w s)) = mset [''a'', ''b'']"
proof -
  let ?as = "[GEnter ''a'', GStore 0, GFlushStart, GEnter ''b'', GReplay, GFlushEnd]"
  have "apart ?as gated_init \<and> (\<exists>s. gated_run ?as gated_init = Some s \<and> gs_todo s = None \<and> gw_flush (gs_w s) \<and> gs_written s = [''a'', ''b''])"
    by (simp add: gated_init_def gw_Write_def gw_enter_def gw_store_def Let_def)
  then show ?thesis
    using gated_writer_conserves by metis
qed

text \<open>The syslog adapter cuts a line of the form "prefix [LEVEL] message" into its level's
  priority and the message (LOG_NOTICE for an unknown level), reports the whole line as written, and
  writes nothing for a line below the filter's level; a line that ends right after the closing
  bracket panics.\<close>

theorem syslog_cuts_level:
  assumes pre: "CHR ''['' \<notin> set pre" and lvl: "CHR '']'' \<notin> set lvl" "CHR ''['' \<notin> set lvl"
  shows "(\<not> check p \<longrightarrow> syslog_Write check p = Ret (0, None)) \<and>
    (p = pre @ ''['' @ lvl @ '']'' @ c # msg \<and> check p \<longrightarrow>
       syslog_Write check p =
         Ret (length p, Some (case levelPriority lvl of None \<Rightarrow> LOG_NOTICE | Some pr \<Rightarrow> pr, msg))) \<and>
    (p = pre @ ''['' @ lvl @ '']'' \<and> check p \<longrightarrow> syslog_Write check p = Panic)"
proof (intro conjI impI)
  assume "\<not> check p"
  then show "syslog_Write check p = Ret (0, None)"
    by (simp add: syslog_Write_def)
next
  assume a: "p = pre @ ''['' @ lvl @ '']'' @ c # msg \<and> check p"
  then have i: "IndexByte (CHR ''['') p = Some (length pre)"
    using pre by (simp add: IndexByte_append)
  have j: "IndexByte (CHR '']'') (drop (length pre) p) = Some (Suc (length lvl))"
    using a lvl by (simp add: IndexByte_append)
  show "syslog_Write check p =
         Ret (length p, Some (case levelPriority lvl of None \<Rightarrow> LOG_NOTICE | Some pr \<Rightarrow> pr, msg))"
  proof -
    have q: "p = (pre @ ''['' @ lvl @ '']'' @ [c]) @ msg" and r: "p = (pre @ ''['') @ lvl @ '']'' @ c # msg"
      using a by simp_all
    have "length (pre @ ''['' @ lvl @ '']'' @ [c]) = length pre + Suc (length lvl) + 2"
      by simp
    then have "drop (length pre + Suc (length lvl) + 2) p = msg"
      by (metis append_eq_conv_conj q)
    moreover have "drop (length pre + 1) (take (length pre + Suc (length lvl)) p) = lvl"
      by (subst r) simp
    moreover have "length pre + Suc (length lvl) + 2 \<le> length p"
      using a by simp
    moreover have "check p" by (rule conjunct2 [OF a])
    ultimately show ?thesis
      using i j by (simp add: syslog_Write_def Let_def)
  qed
next
  assume a: "p = pre @ ''['' @ lvl @ '']'' \<and> check p"
  then have i: "IndexByte (CHR ''['') p = Some (length pre)"
    using pre by (simp add: IndexByte_append)
  have j: "IndexByte (CHR '']'') (drop (length pre) p) = Some (Suc (length lvl))"
    using a lvl by (simp add: IndexByte_append)
  have "check p" by (rule conjunct2 [OF a])
  moreover have "length p = length pre + Suc (length lvl) + 1" using a by simp
  ultimately show "syslog_Write check p = Panic"
    using i j by (simp add: syslog_Write_def)
qed

theorem syslog_cuts_level_witness:
  "syslog_Write (\<lambda>p. True) ''12:00 [ERR] disk'' = Ret (16, Some (LOG_ERR, ''disk'')) \<and>
   syslog_Write (\<lambda>p. True) ''x [INFO]'' = Panic"
  using syslog_cuts_level [of "''12:00 ''" "''ERR''" "\<lambda>p. True" "''12:00 [ERR] disk''" "CHR '' ''" "''disk''"]
    syslog_cuts_level [of "''x ''" "''INFO''" "\<lambda>p. True" "''x [INFO]''" "CHR '' ''" "''''"]
  by (simp add: levelPriority_def)

text \<open>A log stream: whatever the interleaving of logging, streaming and stopping, the client is
  sent, under its own sequence number and in order, a sublist of the lines that pass the filter; at
  most 512 lines are ever buffered; and when no more than 512 lines are logged and every send
  succeeds, no line is lost.\<close>

theorem log_stream_in_order:
  "(stream_run (ls_HandleLog check) ls_Stop ls_stream as (newLogStream seq) = Ret s \<longrightarrow>
      (\<exists>xs. ls_out s = map (\<lambda>l. (seq, \<lparr>log_Log = l\<rparr>)) xs \<and>
        subseq (xs @ ch_buf (ls_logCh s)) (filter check (handled as)) \<and> length (ch_buf (ls_logCh s)) \<le> 512)) \<and>
   (length (filter check (handled as)) \<le> 512 \<and> set as \<inter> {SForward False, SStop} = {} \<longrightarrow>
      (\<exists>s xs. stream_run (ls_HandleLog check) ls_Stop ls_stream as (newLogStream seq) = Ret s \<and>
        ls_out s = map (\<lambda>l. (seq, \<lparr>log_Log = l\<rparr>)) xs \<and>
        xs @ ch_buf (ls_logCh s) = filter check (handled as)))"
proof -
  have rend: "list_all2 (\<lambda>l m. m = (seq, \<lparr>log_Log = l\<rparr>)) xs ms \<longleftrightarrow> ms = map (\<lambda>l. (seq, \<lparr>log_Log = l\<rparr>)) xs" for xs ms
    by (induction xs arbitrary: ms) (auto simp: list_all2_Cons1)
  have init: "ls_seq (newLogStream seq) = seq" "ls_out (newLogStream seq) = []" "ch_buf (ls_logCh (newLogStream seq)) = []"
      "ch_cap (ls_logCh (newLogStream seq)) = 512" "\<not> ls_returned (newLogStream seq)" "\<not> ch_closed (ls_logCh (newLogStream seq))"
    by (simp_all add: newLogStream_def make_chan_def)
  have "log_sink.seen seq (newLogStream seq) []"
    by (simp add: log_sink.seen_def init)
  then have "stream_run (ls_HandleLog check) ls_Stop ls_stream as (newLogStream seq) = Ret s \<longrightarrow>
      log_sink.seen seq s (filter check (handled as)) \<and> length (ch_buf (ls_logCh s)) \<le> 512"
    using log_sink.run_seen [where check = check and seq = seq and s = "newLogStream seq" and h = "[]"] init by auto
  moreover have "length (filter check (handled as)) \<le> 512 \<and> set as \<inter> {SForward False, SStop} = {} \<longrightarrow>
      (\<exists>s xs. stream_run (ls_HandleLog check) ls_Stop ls_stream as (newLogStream seq) = Ret s \<and>
        list_all2 (\<lambda>l m. m = (seq, \<lparr>log_Log = l\<rparr>)) xs (ls_out s) \<and>
        xs @ ch_buf (ls_logCh s) = filter check (handled as))"
    using log_sink.run_lossless [where check = check and seq = seq and s = "newLogStream seq" and xs = "[]" and as = as] init
    by (auto simp: ls_stream_def Let_def)
  ultimately show ?thesis
    by (auto simp: log_sink.seen_def rend)
qed

end
