(* ===== verification/Events.thy ===== *)
theory Events
  imports GoStd Serf
begin

text \<open>
  Event scripts: filters, scripts and their dispatch (\<^verbatim>\<open>command/agent/event_handler.go\<close>) and the
  command line, environment and standard input a script is run with
  (\<^verbatim>\<open>command/agent/invoke.go\<close>). The text of an event type (\<open>tyname\<close>) is the serf library's, the
  outcome of running a command is the operating system's; both are parameters.
  Tag names and the case mapping are treated byte by byte, as for ASCII text.
\<close>

section \<open>Filters and scripts\<close>

record EventFilter =
  ef_Event :: string
  ef_Name :: string

record EventScript =
  es_EventFilter :: EventFilter
  es_Script :: string

abbreviation "es_Event s \<equiv> ef_Event (es_EventFilter s)"
abbreviation "es_Name s \<equiv> ef_Name (es_EventFilter s)"

definition EventFilter_Invoke :: "(EventType \<Rightarrow> string) \<Rightarrow> EventFilter \<Rightarrow> Event \<Rightarrow> bool" where
  "EventFilter_Invoke tyname s e =
     (if ef_Event s = ''*'' then True
      else if tyname (event_type e) \<noteq> ef_Event s then False
      else
        (if ef_Event s = ''user'' \<and> ef_Name s \<noteq> ''''
         then (case e of UserEvent lt name p co \<Rightarrow> name = ef_Name s | _ \<Rightarrow> False) else True) \<and>
        (if ef_Event s = ''query'' \<and> ef_Name s \<noteq> ''''
         then (case e of QueryEvent q \<Rightarrow> q_Name q = ef_Name s | _ \<Rightarrow> False) else True))"

definition valid_events :: "string list" where
  "valid_events = [''member-join'', ''member-leave'', ''member-failed'', ''member-update'', ''member-reap'',
     ''user'', ''query'', ''*'']"

definition EventFilter_Valid :: "EventFilter \<Rightarrow> bool" where
  "EventFilter_Valid s = (ef_Event s \<in> set valid_events)"

definition EventScript_String :: "EventScript \<Rightarrow> string" where
  "EventScript_String s =
     (if es_Name s \<noteq> ''''
      then ''Event '' @ [CHR 0x27] @ es_Event s @ '':'' @ es_Name s @ [CHR 0x27] @ '' invoking '' @ [CHR 0x27] @ es_Script s @ [CHR 0x27]
      else ''Event '' @ [CHR 0x27] @ es_Event s @ [CHR 0x27] @ '' invoking '' @ [CHR 0x27] @ es_Script s @ [CHR 0x27])"

definition parse_one_filter :: "string \<Rightarrow> EventFilter" where
  "parse_one_filter event =
     (if HasPrefix event ''user:''
      then \<lparr>ef_Event = ''user'', ef_Name = drop (length ''user:'') event\<rparr>
      else if HasPrefix event ''query:''
      then \<lparr>ef_Event = ''query'', ef_Name = drop (length ''query:'') event\<rparr>
      else \<lparr>ef_Event = event, ef_Name = ''''\<rparr>)"

definition ParseEventFilter :: "string \<Rightarrow> EventFilter list" where
  "ParseEventFilter v =
     (let v = (if v = '''' then ''*'' else v) in map parse_one_filter (Split (CHR '','') v))"

definition ParseEventScript :: "string \<Rightarrow> EventScript list" where
  "ParseEventScript v =
     (let parts = SplitN2 (CHR ''='') v;
          (filter, script) = (if length parts = 1 then ('''', parts ! 0) else (parts ! 0, parts ! 1))
      in map (\<lambda>filt. \<lparr>es_EventFilter = filt, es_Script = script\<rparr>) (ParseEventFilter filter))"

text \<open>The scripts that run and those that replace them at the next event; a nil slice is \<open>None\<close>.\<close>

record script_handler =
  sh_Scripts :: "EventScript list"
  sh_newScripts :: "EventScript list option"

definition sh_UpdateScripts :: "EventScript list option \<Rightarrow> script_handler \<Rightarrow> script_handler" where
  "sh_UpdateScripts scripts h = h\<lparr>sh_newScripts := scripts\<rparr>"

text \<open>\<open>invoke\<close> runs one script on the event and yields its error; the result is the errors logged,
  the scripts invoked and the handler.\<close>

fun run_scripts ::
  "(EventType \<Rightarrow> string) \<Rightarrow> (string \<Rightarrow> Event \<Rightarrow> string option) \<Rightarrow> Event \<Rightarrow> EventScript list \<Rightarrow>
   (string \<times> string) list \<times> string list" where
  "run_scripts tyname invoke e [] = ([], [])"
| "run_scripts tyname invoke e (script # scripts) =
     (let (errs, invoked) = run_scripts tyname invoke e scripts
      in if \<not> EventFilter_Invoke tyname (es_EventFilter script) e then (errs, invoked)
         else (case invoke (es_Script script) e of
                 None \<Rightarrow> (errs, es_Script script # invoked)
               | Some err \<Rightarrow> ((es_Script script, err) # errs, es_Script script # invoked)))"

definition sh_HandleEvent ::
  "(EventType \<Rightarrow> string) \<Rightarrow> (string \<Rightarrow> Event \<Rightarrow> string option) \<Rightarrow> Event \<Rightarrow> script_handler \<Rightarrow>
   ((string \<times> string) list \<times> string list) \<times> script_handler" where
  "sh_HandleEvent tyname invoke e h =
     (let h1 = (case sh_newScripts h of None \<Rightarrow> h | Some ss \<Rightarrow> h\<lparr>sh_Scripts := ss, sh_newScripts := None\<rparr>)
      in (run_scripts tyname invoke e (sh_Scripts h1), h1))"

section \<open>Running a script\<close>

text \<open>Characters allowed in the environment variable of a tag; names are taken to be ASCII, a longer character would be
  replaced as a whole.\<close>

definition sanitize_char :: "char \<Rightarrow> char" where
  "sanitize_char c =
     (let n = of_char c :: nat
      in if (65 \<le> n \<and> n \<le> 90) \<or> (48 \<le> n \<and> n \<le> 57) \<or> n = 95 then c else CHR ''_'')"

definition sanitize_tag :: "string \<Rightarrow> string" where
  "sanitize_tag name = map sanitize_char (ToUpper name)"

definition nil_string :: "string option \<Rightarrow> string" where
  "nil_string v = (case v of None \<Rightarrow> '''' | Some s \<Rightarrow> s)"

fun tag_env :: "(string \<rightharpoonup> string) \<Rightarrow> string list \<Rightarrow> string list" where
  "tag_env tags [] = []"
| "tag_env tags (name # names) =
     (case tags name of
        None \<Rightarrow> tag_env tags names
      | Some val \<Rightarrow> (''SERF_TAG_'' @ sanitize_tag name @ ''='' @ val) # tag_env tags names)"

definition eventClean :: "string \<Rightarrow> string" where
  "eventClean v = ReplaceAll (CHR 0x0A) [CHR 0x5C, CHR ''n''] (ReplaceAll (CHR 0x09) [CHR 0x5C, CHR ''t''] v)"

text \<open>The textual form of an address (\<^verbatim>\<open>net.IP.String\<close>) on its bytes.\<close>

fun be16 :: "nat list \<Rightarrow> nat list" where
  "be16 (a # b # r) = (a * 256 + b) # be16 r"
| "be16 _ = []"

definition ip_to4 :: "nat list \<Rightarrow> nat list option" where
  "ip_to4 p =
     (if length p = 4 then Some p
      else if length p = 16 \<and> take 12 p = replicate 10 0 @ [255, 255] then Some (drop 12 p) else None)"

fun show_hex :: "nat \<Rightarrow> string" where
  "show_hex n = (if n < 16 then [digit_char n] else show_hex (n div 16) @ [digit_char (n mod 16)])"

declare show_hex.simps [simp del]

definition zero_run :: "nat list \<Rightarrow> nat \<Rightarrow> nat" where
  "zero_run gs i = length (takeWhile (\<lambda>g. g = 0) (drop i gs))"

fun longest_zeros :: "nat list \<Rightarrow> nat \<Rightarrow> nat \<times> nat" where
  "longest_zeros gs 0 = (0, zero_run gs 0)"
| "longest_zeros gs (Suc i) =
     (let (s, l) = longest_zeros gs i in if zero_run gs (Suc i) > l then (Suc i, zero_run gs (Suc i)) else (s, l))"

definition ip_String :: "string \<Rightarrow> string" where
  "ip_String ip =
     (let p = map of_char ip :: nat list in
      if p = [] then ''<nil>''
      else case ip_to4 p of
        Some q \<Rightarrow> Join (map show_nat q) ''.''
      | None \<Rightarrow>
          if length p \<noteq> 16 then ''?'' @ concat (map (\<lambda>b. [digit_char (b div 16), digit_char (b mod 16)]) p)
          else
            (let gs = be16 p; (s, l) = longest_zeros gs 7
             in if l < 2 then Join (map show_hex gs) '':''
                else Join (map show_hex (take s gs)) '':'' @ ''::'' @ Join (map show_hex (drop (s + l) gs)) '':''))"

fun tag_pairs :: "(string \<rightharpoonup> string) \<Rightarrow> string list \<Rightarrow> string list" where
  "tag_pairs tags [] = []"
| "tag_pairs tags (name # names) =
     (case tags name of
        None \<Rightarrow> tag_pairs tags names
      | Some val \<Rightarrow> (name @ ''='' @ val) # tag_pairs tags names)"

definition member_line :: "string list \<Rightarrow> Member \<Rightarrow> string" where
  "member_line names m =
     eventClean (m_Name m) @ [CHR 0x09] @ ip_String (m_Addr m) @ [CHR 0x09] @
     eventClean (nil_string (m_Tags m ''role'')) @ [CHR 0x09] @
     eventClean (Join (tag_pairs (m_Tags m) names) '','') @ [CHR 0x0A]"

text \<open>\<open>order\<close> gives the order in which the tags of each member are visited.\<close>

fun memberEventStdin :: "(Member \<Rightarrow> string list) \<Rightarrow> Member list \<Rightarrow> string" where
  "memberEventStdin order [] = ''''"
| "memberEventStdin order (m # ms) = member_line (order m) m @ memberEventStdin order ms"

definition streamPayload :: "string \<Rightarrow> string" where
  "streamPayload buf = (if buf \<noteq> [] \<and> last buf \<noteq> CHR 0x0A then buf @ [CHR 0x0A] else buf)"

record command =
  cmd_shell :: string
  cmd_flag :: string
  cmd_script :: string
  cmd_env :: "string list"
  cmd_stdin :: string

text \<open>The part of \<^verbatim>\<open>invokeEventScript\<close> before the command is started; \<open>pipe\<close> is the error of
  opening its standard input.\<close>

definition prepare_command ::
  "string \<Rightarrow> string list \<Rightarrow> (EventType \<Rightarrow> string) \<Rightarrow> string list \<Rightarrow> (Member \<Rightarrow> string list) \<Rightarrow> string option \<Rightarrow>
   string \<Rightarrow> Member \<Rightarrow> Event \<Rightarrow> string + command" where
  "prepare_command goos environ tyname names order pipe script self event =
     (let (shell, flag) = (if goos = ''windows'' then (''cmd'', ''/C'') else (''/bin/sh'', ''-c''));
          env = environ @
            [''SERF_EVENT='' @ tyname (event_type event),
             ''SERF_SELF_NAME='' @ m_Name self,
             ''SERF_SELF_ROLE='' @ nil_string (m_Tags self ''role'')] @
            tag_env (m_Tags self) names;
          cmd = (\<lambda>more input. \<lparr>cmd_shell = shell, cmd_flag = flag, cmd_script = script, cmd_env = env @ more, cmd_stdin = input\<rparr>)
      in case pipe of
           Some err \<Rightarrow> Inl err
         | None \<Rightarrow>
             (case event of
                MemberEvent t ms \<Rightarrow> Inr (cmd [] (memberEventStdin order ms))
              | UserEvent lt name payload co \<Rightarrow>
                  Inr (cmd [''SERF_USER_EVENT='' @ name, ''SERF_USER_LTIME='' @ show_nat (unat lt)] (streamPayload payload))
              | QueryEvent q \<Rightarrow>
                  Inr (cmd [''SERF_QUERY_NAME='' @ q_Name q, ''SERF_QUERY_LTIME='' @ show_nat (unat (q_LTime q))]
                        (streamPayload (q_Payload q)))
              | OtherEvent t \<Rightarrow> Inl (''Unknown event type: '' @ tyname t)))"

text \<open>What the operating system and the output buffer make of a command.\<close>

record exec =
  ex_start :: "string option"
  ex_wait :: "string option"
  ex_output :: string
  ex_total :: nat

definition invokeEventScript ::
  "string \<Rightarrow> string list \<Rightarrow> (EventType \<Rightarrow> string) \<Rightarrow> string list \<Rightarrow> (Member \<Rightarrow> string list) \<Rightarrow> string option \<Rightarrow>
   (command \<Rightarrow> exec) \<Rightarrow> string \<Rightarrow> Member \<Rightarrow> Event \<Rightarrow> string option \<times> string option" where
  "invokeEventScript goos environ tyname names order pipe run script self event =
     (case prepare_command goos environ tyname names order pipe script self event of
        Inl err \<Rightarrow> (Some err, None)
      | Inr cmd \<Rightarrow>
          (let x = run cmd in
           case ex_start x of
             Some err \<Rightarrow> (Some err, None)
           | None \<Rightarrow>
               (case ex_wait x of
                  Some err \<Rightarrow> (Some err, None)
                | None \<Rightarrow>
                    (None,
                     (case event of
                        QueryEvent q \<Rightarrow> if ex_total x > 0 then Some (ex_output x) else None
                      | _ \<Rightarrow> None)))))"

section \<open>Lines on standard input\<close>

definition one_field :: "string \<Rightarrow> bool" where
  "one_field s \<longleftrightarrow> CHR 0x09 \<notin> set s \<and> CHR 0x0A \<notin> set s"

lemma one_field_simps [simp]:
  "one_field []" "one_field (c # s) \<longleftrightarrow> c \<noteq> CHR 0x09 \<and> c \<noteq> CHR 0x0A \<and> one_field s"
  "one_field (s @ t) \<longleftrightarrow> one_field s \<and> one_field t"
  by (auto simp: one_field_def)

lemma set_ReplaceAll: "set (ReplaceAll c new s) \<subseteq> (set s - {c}) \<union> set new"
  by (auto simp: ReplaceAll_def split: if_splits)

lemma one_field_eventClean [simp]: "one_field (eventClean v)"
  using set_ReplaceAll [of "CHR 0x0A" "[CHR 0x5C, CHR ''n'']" "ReplaceAll (CHR 0x09) [CHR 0x5C, CHR ''t''] v"]
    set_ReplaceAll [of "CHR 0x09" "[CHR 0x5C, CHR ''t'']" v]
  by (auto simp: one_field_def eventClean_def)

lemma digit_char_field: "n < 16 \<Longrightarrow> one_field [digit_char n]"
proof -
  assume n: "n < 16"
  have "of_char (digit_char n) = (if n < 10 then 48 + n else 87 + n)" by (rule of_char_digit [OF n])
  moreover have "of_char (CHR 0x09) = (9::nat)" "of_char (CHR 0x0A) = (10::nat)" by simp_all
  moreover have "(if n < 10 then 48 + n else 87 + n) \<noteq> 9" "(if n < 10 then 48 + n else 87 + n) \<noteq> 10" by simp_all
  ultimately have "digit_char n \<noteq> CHR 0x09" "digit_char n \<noteq> CHR 0x0A" by metis+
  then show ?thesis by simp
qed

lemma one_field_digits: "n < 16 \<Longrightarrow> one_field (digit_char n # s) = one_field s"
  using digit_char_field [of n] by simp

lemma one_field_show_nat [simp]: "one_field (show_nat n)"
proof (induction n rule: less_induct)
  case (less n)
  show ?case
    by (subst show_nat.simps) (simp add: less one_field_digits del: one_field_simps(2))
qed

lemma one_field_show_hex [simp]: "one_field (show_hex n)"
proof (induction n rule: less_induct)
  case (less n)
  show ?case
    by (subst show_hex.simps) (simp add: less one_field_digits del: one_field_simps(2))
qed

lemma one_field_Join: "(\<And>s. s \<in> set ss \<Longrightarrow> one_field s) \<Longrightarrow> one_field sep \<Longrightarrow> one_field (Join ss sep)"
  by (induction ss sep rule: Join.induct) auto

lemma one_field_ip [simp]: "one_field (ip_String ip)"
proof -
  have c: "one_field (concat (map (\<lambda>b. [digit_char (b div 16), digit_char (b mod 16)]) bs))"
    if "\<forall>b \<in> set bs. b < 256" for bs
    using that by (induction bs) (auto simp: one_field_digits simp del: one_field_simps(2) intro: less_mult_imp_div_less)
  have "\<forall>b \<in> set (map of_char ip :: nat list). b < 256"
    by (auto simp: of_char_def)
  from c [OF this] show ?thesis
    by (auto simp: ip_String_def Let_def split: option.splits prod.splits intro!: one_field_Join)
qed

definition member_fields :: "string list \<Rightarrow> Member \<Rightarrow> string list" where
  "member_fields names m =
     [eventClean (m_Name m), ip_String (m_Addr m), eventClean (nil_string (m_Tags m ''role'')),
      eventClean (Join (tag_pairs (m_Tags m) names) '','')]"

lemma member_line_fields: "member_line names m = Join (member_fields names m) [CHR 0x09] @ [CHR 0x0A]"
  by (simp add: member_line_def member_fields_def)

lemma member_fields_clean: "f \<in> set (member_fields names m) \<Longrightarrow> one_field f"
  by (auto simp: member_fields_def)

lemma Split_member_line: "Split (CHR 0x09) (Join (member_fields names m) [CHR 0x09]) = member_fields names m"
  by (rule Split_Join) (use member_fields_clean in \<open>auto simp: one_field_def member_fields_def\<close>)

lemma stdin_lines:
  "Split (CHR 0x0A) (memberEventStdin order ms) =
   map (\<lambda>m. Join (member_fields (order m) m) [CHR 0x09]) ms @ [[]]"
proof (induction ms)
  case (Cons m ms)
  have "CHR 0x0A \<notin> set (Join (member_fields (order m) m) [CHR 0x09])"
    by (simp add: member_fields_def one_field_def [symmetric] flip: one_field_def)
       (metis one_field_def one_field_eventClean one_field_ip)
  then show ?case
    using Cons by (simp add: member_line_fields Split_append)
qed simp

section \<open>Properties\<close>

text \<open>The text of a filter.\<close>

definition filter_text :: "EventFilter \<Rightarrow> string" where
  "filter_text f = (if ef_Name f = '''' then ef_Event f else ef_Event f @ '':'' @ ef_Name f)"

definition plain_filter :: "EventFilter \<Rightarrow> bool" where
  "plain_filter f \<longleftrightarrow> EventFilter_Valid f \<and> CHR '','' \<notin> set (ef_Name f) \<and> CHR ''='' \<notin> set (ef_Name f) \<and>
     (ef_Name f \<noteq> '''' \<longrightarrow> ef_Event f = ''user'' \<or> ef_Event f = ''query'')"

lemma parse_one_filter_text: "plain_filter f \<Longrightarrow> parse_one_filter (filter_text f) = f"
  by (cases f) (auto simp: plain_filter_def EventFilter_Valid_def valid_events_def filter_text_def
      parse_one_filter_def HasPrefix_def)

lemma plain_filter_text:
  assumes "plain_filter f"
  shows "CHR '','' \<notin> set (filter_text f)" and "CHR ''='' \<notin> set (filter_text f)" and "filter_text f \<noteq> ''''"
  using assms by (auto simp: plain_filter_def EventFilter_Valid_def valid_events_def filter_text_def)

lemma parse_filter_list:
  assumes "fs \<noteq> []" and "\<And>f. f \<in> set fs \<Longrightarrow> plain_filter f"
  shows "ParseEventFilter (Join (map filter_text fs) '','') = fs"
proof -
  have "Join (map filter_text fs) '','' \<noteq> ''''"
    using assms plain_filter_text(3) by (cases fs; cases "tl fs") (auto simp: Join_Cons)
  moreover have "Split (CHR '','') (Join (map filter_text fs) '','') = map filter_text fs"
    by (rule Split_Join) (use assms plain_filter_text(1) in auto)
  ultimately show ?thesis
    using assms(2) by (simp add: ParseEventFilter_def Let_def map_idI parse_one_filter_text)
qed

lemma Join_equals: "(\<And>s. s \<in> set ss \<Longrightarrow> c \<notin> set s) \<Longrightarrow> c \<notin> set sep \<Longrightarrow> c \<notin> set (Join ss sep)"
  by (induction ss sep rule: Join.induct) auto

text \<open>Parsing a filter list reads back what was written: for valid filters with plain names, the
  comma-separated text parses to exactly these filters, the text "filters=script" to one script entry
  per filter, and a text without "=" to a script for all events.\<close>

theorem event_script_roundtrip:
  assumes "fs \<noteq> []" and "\<And>f. f \<in> set fs \<Longrightarrow> plain_filter f" and "CHR ''='' \<notin> set bare"
  shows "ParseEventFilter (Join (map filter_text fs) '','') = fs \<and>
    ParseEventScript (Join (map filter_text fs) '','' @ ''='' @ script) =
      map (\<lambda>f. \<lparr>es_EventFilter = f, es_Script = script\<rparr>) fs \<and>
    ParseEventScript bare = [\<lparr>es_EventFilter = \<lparr>ef_Event = ''*'', ef_Name = ''''\<rparr>, es_Script = bare\<rparr>]"
proof (intro conjI)
  show p: "ParseEventFilter (Join (map filter_text fs) '','') = fs"
    by (rule parse_filter_list [OF assms(1,2)])
  have "CHR ''='' \<notin> set (Join (map filter_text fs) '','')"
    by (rule Join_equals) (use assms(2) plain_filter_text(2) in auto)
  then show "ParseEventScript (Join (map filter_text fs) '','' @ ''='' @ script) =
      map (\<lambda>f. \<lparr>es_EventFilter = f, es_Script = script\<rparr>) fs"
    by (simp add: ParseEventScript_def SplitN2_found p)
  show "ParseEventScript bare = [\<lparr>es_EventFilter = \<lparr>ef_Event = ''*'', ef_Name = ''''\<rparr>, es_Script = bare\<rparr>]"
    using assms(3) by (simp add: ParseEventScript_def SplitN2_absent ParseEventFilter_def parse_one_filter_def HasPrefix_def)
qed

theorem event_script_roundtrip_witness:
  "ParseEventScript ''user:deploy,member-join=run.sh'' =
     [\<lparr>es_EventFilter = \<lparr>ef_Event = ''user'', ef_Name = ''deploy''\<rparr>, es_Script = ''run.sh''\<rparr>,
      \<lparr>es_EventFilter = \<lparr>ef_Event = ''member-join'', ef_Name = ''''\<rparr>, es_Script = ''run.sh''\<rparr>]"
proof -
  let ?fs = "[\<lparr>ef_Event = ''user'', ef_Name = ''deploy''\<rparr>, \<lparr>ef_Event = ''member-join'', ef_Name = ''''\<rparr>]"
  have p: "f \<in> set ?fs \<Longrightarrow> plain_filter f" for f
    by (auto simp: plain_filter_def EventFilter_Valid_def valid_events_def)
  have "?fs \<noteq> []" by simp
  from event_script_roundtrip [where fs = ?fs, OF this p, where bare = "''x''" and script = "''run.sh''"] show ?thesis
    by (simp add: filter_text_def)
qed

text \<open>The events a valid filter selects.\<close>

fun selects :: "(EventType \<Rightarrow> string) \<Rightarrow> EventFilter \<Rightarrow> Event \<Rightarrow> bool" where
  "selects tyname f (UserEvent lt name p co) \<longleftrightarrow>
     ef_Event f = ''*'' \<or> ef_Event f = tyname EventUser \<and> (ef_Name f = '''' \<or> ef_Name f = name)"
| "selects tyname f (QueryEvent q) \<longleftrightarrow>
     ef_Event f = ''*'' \<or> ef_Event f = tyname EventQuery \<and> (ef_Name f = '''' \<or> ef_Name f = q_Name q)"
| "selects tyname f (MemberEvent t ms) \<longleftrightarrow> ef_Event f = ''*'' \<or> ef_Event f = tyname t"
| "selects tyname f (OtherEvent t) \<longleftrightarrow> ef_Event f = ''*'' \<or> ef_Event f = tyname t"

text \<open>The documented texts of the event types.\<close>

fun serf_type_name :: "EventType \<Rightarrow> string" where
  "serf_type_name EventMemberJoin = ''member-join''"
| "serf_type_name EventMemberLeave = ''member-leave''"
| "serf_type_name EventMemberFailed = ''member-failed''"
| "serf_type_name EventMemberUpdate = ''member-update''"
| "serf_type_name EventMemberReap = ''member-reap''"
| "serf_type_name EventUser = ''user''"
| "serf_type_name EventQuery = ''query''"

definition proper_event :: "Event \<Rightarrow> bool" where
  "proper_event e \<longleftrightarrow>
     (case e of MemberEvent t ms \<Rightarrow> t \<noteq> EventUser \<and> t \<noteq> EventQuery | OtherEvent t \<Rightarrow> t \<noteq> EventUser \<and> t \<noteq> EventQuery | _ \<Rightarrow> True)"

lemma Invoke_selects:
  assumes "\<And>t. tyname t = serf_type_name t" and "proper_event e"
  shows "EventFilter_Invoke tyname f e \<longleftrightarrow> selects tyname f e"
proof -
  have n: "serf_type_name t \<noteq> ''user'' \<and> serf_type_name t \<noteq> ''query''" if "t \<noteq> EventUser" "t \<noteq> EventQuery" for t
    using that by (cases t) auto
  show ?thesis
    using assms(2) n by (cases e) (auto simp: EventFilter_Invoke_def assms(1) proper_event_def)
qed

lemma run_scripts_invoked:
  "snd (run_scripts tyname invoke e ss) = map es_Script (filter (\<lambda>s. EventFilter_Invoke tyname (es_EventFilter s) e) ss)"
  by (induction ss) (auto simp: Let_def case_prod_unfold split: option.splits)

lemma run_scripts_errors:
  "set (fst (run_scripts tyname invoke e ss)) =
     {(s, err). s \<in> es_Script ` {x \<in> set ss. EventFilter_Invoke tyname (es_EventFilter x) e} \<and> invoke s e = Some err}"
  by (induction ss) (auto simp: Let_def case_prod_unfold split: option.splits)

text \<open>C15. Script dispatch: an event runs, in configuration order, exactly the scripts whose filter
  selects it (by type, and by name for user events and queries), every one of them even when earlier
  ones fail, and exactly the failures are logged. Scripts set by UpdateScripts take effect from the
  next event on; a nil update changes nothing.\<close>

theorem script_dispatch:
  assumes "\<And>t. tyname t = serf_type_name t" and "proper_event e"
  shows "snd (fst (sh_HandleEvent tyname invoke e (sh_UpdateScripts (Some ss) h))) =
      map es_Script (filter (\<lambda>s. selects tyname (es_EventFilter s) e) ss) \<and>
    set (fst (fst (sh_HandleEvent tyname invoke e (sh_UpdateScripts (Some ss) h)))) =
      {(s, err). s \<in> es_Script ` {x \<in> set ss. selects tyname (es_EventFilter x) e} \<and> invoke s e = Some err} \<and>
    snd (sh_HandleEvent tyname invoke e (sh_UpdateScripts (Some ss) h)) = \<lparr>sh_Scripts = ss, sh_newScripts = None\<rparr> \<and>
    (sh_newScripts h = None \<longrightarrow>
       sh_HandleEvent tyname invoke e (sh_UpdateScripts None h) = (run_scripts tyname invoke e (sh_Scripts h), h))"
proof -
  have "EventFilter_Invoke tyname f e = selects tyname f e" for f
    by (rule Invoke_selects [OF assms])
  then show ?thesis
    by (simp add: sh_HandleEvent_def sh_UpdateScripts_def Let_def run_scripts_invoked run_scripts_errors)
qed

theorem script_dispatch_witness:
  "snd (fst (sh_HandleEvent serf_type_name (\<lambda>s e. None) (UserEvent 1 ''deploy'' ''x'' False)
     (sh_UpdateScripts (Some (ParseEventScript ''user:deploy=a'' @ ParseEventScript ''query=b'' @ ParseEventScript ''c''))
        \<lparr>sh_Scripts = [], sh_newScripts = None\<rparr>))) = [''a'', ''c'']"
  using script_dispatch [of serf_type_name "UserEvent 1 ''deploy'' ''x'' False" "\<lambda>s e. None"]
  by (simp add: proper_event_def ParseEventScript_def SplitN2.simps ParseEventFilter_def parse_one_filter_def HasPrefix_def)

text \<open>A member event is handed to a script as one line per member and four tab-separated fields
  per line: whatever tabs and newlines occur in names, roles and tags, splitting the input into lines
  and each line at tabs gives back the cleaned name, the address, the cleaned role and the cleaned
  tags of every member.\<close>

theorem member_lines_parse:
  "Split (CHR 0x0A) (memberEventStdin order ms) = map (\<lambda>m. Join (member_fields (order m) m) [CHR 0x09]) ms @ [[]] \<and>
   map (Split (CHR 0x09)) (butlast (Split (CHR 0x0A) (memberEventStdin order ms))) = map (\<lambda>m. member_fields (order m) m) ms"
  by (simp add: stdin_lines Split_member_line)

end
