(* ===== verification/Config.thy ===== *)
theory Config
  imports Events Base64 "HOL-Library.List_Lexorder" "HOL-Library.Char_ord"
begin

text \<open>
  The agent's configuration, \<^verbatim>\<open>command/agent/config.go\<close>: the record, its defaults, merging, the
  decoding of files and directories, and the parsing of addresses. The JSON decoder, the duration
  parser, the file system and the address resolver are parameters; \<^verbatim>\<open>net.SplitHostPort\<close> is modelled,
  because the loop of \<^verbatim>\<open>AddrParts\<close> depends on it.
\<close>

section \<open>The record\<close>

text \<open>A nil map of tags is \<open>None\<close>. Numbers are 64 bits wide.\<close>

record Config =
  cf_NodeName :: string
  cf_Role :: string
  cf_DisableCoordinates :: bool
  cf_Tags :: "(string \<rightharpoonup> string) option"
  cf_TagsFile :: string
  cf_BindAddr :: string
  cf_AdvertiseAddr :: string
  cf_EncryptKey :: string
  cf_KeyringFile :: string
  cf_LogLevel :: string
  cf_RPCAddr :: string
  cf_RestAddr :: string
  cf_ServiceTTL :: int64
  cf_RPCAuthKey :: string
  cf_Protocol :: int64
  cf_ReplayOnJoin :: bool
  cf_StartJoin :: "string list"
  cf_EventHandlers :: "string list"
  cf_Profile :: string
  cf_SnapshotPath :: string
  cf_LeaveOnTerm :: bool
  cf_SkipLeaveOnInt :: bool
  cf_Discover :: string
  cf_Interface :: string
  cf_ReconnectIntervalRaw :: string
  cf_ReconnectInterval :: duration
  cf_ReconnectTimeoutRaw :: string
  cf_ReconnectTimeout :: duration
  cf_TombstoneTimeoutRaw :: string
  cf_TombstoneTimeout :: duration
  cf_DisableNameResolution :: bool
  cf_EnableSyslog :: bool
  cf_SyslogFacility :: string
  cf_RetryJoin :: "string list"
  cf_RetryMaxAttempts :: int64
  cf_RetryIntervalRaw :: string
  cf_RetryInterval :: duration
  cf_RejoinAfterLeave :: bool
  cf_StatsiteAddr :: string
  cf_StatsdAddr :: string

text \<open>\<^verbatim>\<open>new (Config)\<close>, the zero value.\<close>

definition zero_Config :: Config where
  "zero_Config =
     \<lparr>cf_NodeName = '''',
      cf_Role = '''',
      cf_DisableCoordinates = False,
      cf_Tags = None,
      cf_TagsFile = '''',
      cf_BindAddr = '''',
      cf_AdvertiseAddr = '''',
      cf_EncryptKey = '''',
      cf_KeyringFile = '''',
      cf_LogLevel = '''',
      cf_RPCAddr = '''',
      cf_RestAddr = '''',
      cf_ServiceTTL = 0,
      cf_RPCAuthKey = '''',
      cf_Protocol = 0,
      cf_ReplayOnJoin = False,
      cf_StartJoin = [],
      cf_EventHandlers = [],
      cf_Profile = '''',
      cf_SnapshotPath = '''',
      cf_LeaveOnTerm = False,
      cf_SkipLeaveOnInt = False,
      cf_Discover = '''',
      cf_Interface = '''',
      cf_ReconnectIntervalRaw = '''',
      cf_ReconnectInterval = 0,
      cf_ReconnectTimeoutRaw = '''',
      cf_ReconnectTimeout = 0,
      cf_TombstoneTimeoutRaw = '''',
      cf_TombstoneTimeout = 0,
      cf_DisableNameResolution = False,
      cf_EnableSyslog = False,
      cf_SyslogFacility = '''',
      cf_RetryJoin = [],
      cf_RetryMaxAttempts = 0,
      cf_RetryIntervalRaw = '''',
      cf_RetryInterval = 0,
      cf_RejoinAfterLeave = False,
      cf_StatsiteAddr = '''',
      cf_StatsdAddr = ''''\<rparr>"

definition DefaultConfig :: "int64 \<Rightarrow> Config" where
  "DefaultConfig ProtocolVersionMax =
     \<lparr>cf_NodeName = '''',
      cf_Role = '''',
      cf_DisableCoordinates = False,
      cf_Tags = Some Map.empty,
      cf_TagsFile = '''',
      cf_BindAddr = ''0.0.0.0'',
      cf_AdvertiseAddr = '''',
      cf_EncryptKey = '''',
      cf_KeyringFile = '''',
      cf_LogLevel = ''INFO'',
      cf_RPCAddr = ''127.0.0.1:7373'',
      cf_RestAddr = ''127.0.0.1:8341'',
      cf_ServiceTTL = 60,
      cf_RPCAuthKey = '''',
      cf_Protocol = ProtocolVersionMax,
      cf_ReplayOnJoin = False,
      cf_StartJoin = [],
      cf_EventHandlers = [],
      cf_Profile = ''lan'',
      cf_SnapshotPath = '''',
      cf_LeaveOnTerm = False,
      cf_SkipLeaveOnInt = False,
      cf_Discover = '''',
      cf_Interface = '''',
      cf_ReconnectIntervalRaw = '''',
      cf_ReconnectInterval = 0,
      cf_ReconnectTimeoutRaw = '''',
      cf_ReconnectTimeout = 0,
      cf_TombstoneTimeoutRaw = '''',
      cf_TombstoneTimeout = 0,
      cf_DisableNameResolution = False,
      cf_EnableSyslog = False,
      cf_SyslogFacility = ''LOCAL0'',
      cf_RetryJoin = [],
      cf_RetryMaxAttempts = 0,
      cf_RetryIntervalRaw = '''',
      cf_RetryInterval = 30000000000,
      cf_RejoinAfterLeave = False,
      cf_StatsiteAddr = '''',
      cf_StatsdAddr = ''''\<rparr>"

section \<open>Merging\<close>

definition merge_tags :: "(string \<rightharpoonup> string) option \<Rightarrow> (string \<rightharpoonup> string) option \<Rightarrow> (string \<rightharpoonup> string) option" where
  "merge_tags a b =
     (case b of
        None \<Rightarrow> a
      | Some bm \<Rightarrow> (case a of None \<Rightarrow> Some (Map.empty ++ bm) | Some am \<Rightarrow> Some (am ++ bm)))"

definition MergeConfig :: "Config \<Rightarrow> Config \<Rightarrow> Config" where
  "MergeConfig a b =
     \<lparr>cf_NodeName = (if cf_NodeName b \<noteq> '''' then cf_NodeName b else cf_NodeName a),
      cf_Role = (if cf_Role b \<noteq> '''' then cf_Role b else cf_Role a),
      cf_DisableCoordinates = (if cf_DisableCoordinates b then True else cf_DisableCoordinates a),
      cf_Tags = merge_tags (cf_Tags a) (cf_Tags b),
      cf_TagsFile = (if cf_TagsFile b \<noteq> '''' then cf_TagsFile b else cf_TagsFile a),
      cf_BindAddr = (if cf_BindAddr b \<noteq> '''' then cf_BindAddr b else cf_BindAddr a),
      cf_AdvertiseAddr = (if cf_AdvertiseAddr b \<noteq> '''' then cf_AdvertiseAddr b else cf_AdvertiseAddr a),
      cf_EncryptKey = (if cf_EncryptKey b \<noteq> '''' then cf_EncryptKey b else cf_EncryptKey a),
      cf_KeyringFile = (if cf_KeyringFile b \<noteq> '''' then cf_KeyringFile b else cf_KeyringFile a),
      cf_LogLevel = (if cf_LogLevel b \<noteq> '''' then cf_LogLevel b else cf_LogLevel a),
      cf_RPCAddr = (if cf_RPCAddr b \<noteq> '''' then cf_RPCAddr b else cf_RPCAddr a),
      cf_RestAddr = (if cf_RestAddr b \<noteq> '''' then cf_RestAddr b else cf_RestAddr a),
      cf_ServiceTTL = (if 0 < sint (cf_ServiceTTL b) then cf_ServiceTTL b else cf_ServiceTTL a),
      cf_RPCAuthKey = (if cf_RPCAuthKey b \<noteq> '''' then cf_RPCAuthKey b else cf_RPCAuthKey a),
      cf_Protocol = (if 0 < sint (cf_Protocol b) then cf_Protocol b else cf_Protocol a),
      cf_ReplayOnJoin = (if cf_ReplayOnJoin b then cf_ReplayOnJoin b else cf_ReplayOnJoin a),
      cf_StartJoin = cf_StartJoin a @ cf_StartJoin b,
      cf_EventHandlers = cf_EventHandlers a @ cf_EventHandlers b,
      cf_Profile = (if cf_Profile b \<noteq> '''' then cf_Profile b else cf_Profile a),
      cf_SnapshotPath = (if cf_SnapshotPath b \<noteq> '''' then cf_SnapshotPath b else cf_SnapshotPath a),
      cf_LeaveOnTerm = (if cf_LeaveOnTerm b then True else cf_LeaveOnTerm a),
      cf_SkipLeaveOnInt = (if cf_SkipLeaveOnInt b then True else cf_SkipLeaveOnInt a),
      cf_Discover = (if cf_Discover b \<noteq> '''' then cf_Discover b else cf_Discover a),
      cf_Interface = (if cf_Interface b \<noteq> '''' then cf_Interface b else cf_Interface a),
      cf_ReconnectIntervalRaw = cf_ReconnectIntervalRaw a,
      cf_ReconnectInterval = (if cf_ReconnectInterval b \<noteq> 0 then cf_ReconnectInterval b else cf_ReconnectInterval a),
      cf_ReconnectTimeoutRaw = cf_ReconnectTimeoutRaw a,
      cf_ReconnectTimeout = (if cf_ReconnectTimeout b \<noteq> 0 then cf_ReconnectTimeout b else cf_ReconnectTimeout a),
      cf_TombstoneTimeoutRaw = cf_TombstoneTimeoutRaw a,
      cf_TombstoneTimeout = (if cf_TombstoneTimeout b \<noteq> 0 then cf_TombstoneTimeout b else cf_TombstoneTimeout a),
      cf_DisableNameResolution = (if cf_DisableNameResolution b then True else cf_DisableNameResolution a),
      cf_EnableSyslog = (if cf_EnableSyslog b then True else cf_EnableSyslog a),
      cf_SyslogFacility = (if cf_SyslogFacility b \<noteq> '''' then cf_SyslogFacility b else cf_SyslogFacility a),
      cf_RetryJoin = cf_RetryJoin a @ cf_RetryJoin b,
      cf_RetryMaxAttempts = (if cf_RetryMaxAttempts b \<noteq> 0 then cf_RetryMaxAttempts b else cf_RetryMaxAttempts a),
      cf_RetryIntervalRaw = cf_RetryIntervalRaw a,
      cf_RetryInterval = (if cf_RetryInterval b \<noteq> 0 then cf_RetryInterval b else cf_RetryInterval a),
      cf_RejoinAfterLeave = (if cf_RejoinAfterLeave b then True else cf_RejoinAfterLeave a),
      cf_StatsiteAddr = (if cf_StatsiteAddr b \<noteq> '''' then cf_StatsiteAddr b else cf_StatsiteAddr a),
      cf_StatsdAddr = (if cf_StatsdAddr b \<noteq> '''' then cf_StatsdAddr b else cf_StatsdAddr a)\<rparr>"

fun containsKey :: "string list \<Rightarrow> string \<Rightarrow> bool" where
  "containsKey [] key = False"
| "containsKey (k # keys) key = (if k = key then True else containsKey keys key)"

definition EventScripts :: "Config \<Rightarrow> EventScript list" where
  "EventScripts c = concat (map ParseEventScript (cf_EventHandlers c))"

definition EncryptBytes :: "Config \<Rightarrow> string option" where
  "EncryptBytes c = b64_DecodeString (cf_EncryptKey c)"

text \<open>\<open>None\<close> is the nil interface; \<open>by_name\<close> looks an interface up.\<close>

definition NetworkInterface :: "(string \<Rightarrow> string + 'i) \<Rightarrow> Config \<Rightarrow> string + 'i option" where
  "NetworkInterface by_name c =
     (if cf_Interface c = '''' then Inr None
      else (case by_name (cf_Interface c) of Inl err \<Rightarrow> Inl err | Inr i \<Rightarrow> Inr (Some i)))"

lemma merge_tags_assoc: "merge_tags (merge_tags a b) c = merge_tags a (merge_tags b c)"
  by (auto simp: merge_tags_def split: option.splits)

lemma MergeConfig_fields:
  "cf_NodeName (MergeConfig a b) = (if cf_NodeName b \<noteq> '''' then cf_NodeName b else cf_NodeName a)"
  "cf_Role (MergeConfig a b) = (if cf_Role b \<noteq> '''' then cf_Role b else cf_Role a)"
  "cf_DisableCoordinates (MergeConfig a b) = (if cf_DisableCoordinates b then True else cf_DisableCoordinates a)"
  "cf_Tags (MergeConfig a b) = merge_tags (cf_Tags a) (cf_Tags b)"
  "cf_TagsFile (MergeConfig a b) = (if cf_TagsFile b \<noteq> '''' then cf_TagsFile b else cf_TagsFile a)"
  "cf_BindAddr (MergeConfig a b) = (if cf_BindAddr b \<noteq> '''' then cf_BindAddr b else cf_BindAddr a)"
  "cf_AdvertiseAddr (MergeConfig a b) = (if cf_AdvertiseAddr b \<noteq> '''' then cf_AdvertiseAddr b else cf_AdvertiseAddr a)"
  "cf_EncryptKey (MergeConfig a b) = (if cf_EncryptKey b \<noteq> '''' then cf_EncryptKey b else cf_EncryptKey a)"
  "cf_KeyringFile (MergeConfig a b) = (if cf_KeyringFile b \<noteq> '''' then cf_KeyringFile b else cf_KeyringFile a)"
  "cf_LogLevel (MergeConfig a b) = (if cf_LogLevel b \<noteq> '''' then cf_LogLevel b else cf_LogLevel a)"
  "cf_RPCAddr (MergeConfig a b) = (if cf_RPCAddr b \<noteq> '''' then cf_RPCAddr b else cf_RPCAddr a)"
  "cf_RestAddr (MergeConfig a b) = (if cf_RestAddr b \<noteq> '''' then cf_RestAddr b else cf_RestAddr a)"
  "cf_ServiceTTL (MergeConfig a b) = (if 0 < sint (cf_ServiceTTL b) then cf_ServiceTTL b else cf_ServiceTTL a)"
  "cf_RPCAuthKey (MergeConfig a b) = (if cf_RPCAuthKey b \<noteq> '''' then cf_RPCAuthKey b else cf_RPCAuthKey a)"
  "cf_Protocol (MergeConfig a b) = (if 0 < sint (cf_Protocol b) then cf_Protocol b else cf_Protocol a)"
  "cf_ReplayOnJoin (MergeConfig a b) = (if cf_ReplayOnJoin b then cf_ReplayOnJoin b else cf_ReplayOnJoin a)"
  "cf_StartJoin (MergeConfig a b) = cf_StartJoin a @ cf_StartJoin b"
  "cf_EventHandlers (MergeConfig a b) = cf_EventHandlers a @ cf_EventHandlers b"
  "cf_Profile (MergeConfig a b) = (if cf_Profile b \<noteq> '''' then cf_Profile b else cf_Profile a)"
  "cf_SnapshotPath (MergeConfig a b) = (if cf_SnapshotPath b \<noteq> '''' then cf_SnapshotPath b else cf_SnapshotPath a)"
  "cf_LeaveOnTerm (MergeConfig a b) = (if cf_LeaveOnTerm b then True else cf_LeaveOnTerm a)"
  "cf_SkipLeaveOnInt (MergeConfig a b) = (if cf_SkipLeaveOnInt b then True else cf_SkipLeaveOnInt a)"
  "cf_Discover (MergeConfig a b) = (if cf_Discover b \<noteq> '''' then cf_Discover b else cf_Discover a)"
  "cf_Interface (MergeConfig a b) = (if cf_Interface b \<noteq> '''' then cf_Interface b else cf_Interface a)"
  "cf_ReconnectIntervalRaw (MergeConfig a b) = cf_ReconnectIntervalRaw a"
  "cf_ReconnectInterval (MergeConfig a b) = (if cf_ReconnectInterval b \<noteq> 0 then cf_ReconnectInterval b else cf_ReconnectInterval a)"
  "cf_ReconnectTimeoutRaw (MergeConfig a b) = cf_ReconnectTimeoutRaw a"
  "cf_ReconnectTimeout (MergeConfig a b) = (if cf_ReconnectTimeout b \<noteq> 0 then cf_ReconnectTimeout b else cf_ReconnectTimeout a)"
  "cf_TombstoneTimeoutRaw (MergeConfig a b) = cf_TombstoneTimeoutRaw a"
  "cf_TombstoneTimeout (MergeConfig a b) = (if cf_TombstoneTimeout b \<noteq> 0 then cf_TombstoneTimeout b else cf_TombstoneTimeout a)"
  "cf_DisableNameResolution (MergeConfig a b) = (if cf_DisableNameResolution b then True else cf_DisableNameResolution a)"
  "cf_EnableSyslog (MergeConfig a b) = (if cf_EnableSyslog b then True else cf_EnableSyslog a)"
  "cf_SyslogFacility (MergeConfig a b) = (if cf_SyslogFacility b \<noteq> '''' then cf_SyslogFacility b else cf_SyslogFacility a)"
  "cf_RetryJoin (MergeConfig a b) = cf_RetryJoin a @ cf_RetryJoin b"
  "cf_RetryMaxAttempts (MergeConfig a b) = (if cf_RetryMaxAttempts b \<noteq> 0 then cf_RetryMaxAttempts b else cf_RetryMaxAttempts a)"
  "cf_RetryIntervalRaw (MergeConfig a b) = cf_RetryIntervalRaw a"
  "cf_RetryInterval (MergeConfig a b) = (if cf_RetryInterval b \<noteq> 0 then cf_RetryInterval b else cf_RetryInterval a)"
  "cf_RejoinAfterLeave (MergeConfig a b) = (if cf_RejoinAfterLeave b then True else cf_RejoinAfterLeave a)"
  "cf_StatsiteAddr (MergeConfig a b) = (if cf_StatsiteAddr b \<noteq> '''' then cf_StatsiteAddr b else cf_StatsiteAddr a)"
  "cf_StatsdAddr (MergeConfig a b) = (if cf_StatsdAddr b \<noteq> '''' then cf_StatsdAddr b else cf_StatsdAddr a)"
  unfolding MergeConfig_def by (rule Config.select_convs)+

lemma MergeConfig_assoc: "MergeConfig (MergeConfig a b) c = MergeConfig a (MergeConfig b c)"
  by (rule Config.equality) (simp_all add: MergeConfig_fields merge_tags_assoc)

lemma MergeConfig_zero: "MergeConfig a zero_Config = a"
  by (rule Config.equality) (simp_all add: MergeConfig_fields zero_Config_def merge_tags_def)

section \<open>Decoding\<close>

text \<open>\<open>decode\<close> is the JSON and structure decoder on a file's contents, \<open>parse\<close> the duration parser.\<close>

definition decode_duration ::
  "(string \<Rightarrow> string + duration) \<Rightarrow> string \<Rightarrow> duration \<Rightarrow> string + duration" where
  "decode_duration parse raw old = (if raw \<noteq> '''' then parse raw else Inr old)"

definition DecodeConfig ::
  "('f \<Rightarrow> string + Config) \<Rightarrow> (string \<Rightarrow> string + duration) \<Rightarrow> 'f \<Rightarrow> string + Config" where
  "DecodeConfig decode parse f =
     (case decode f of
        Inl err \<Rightarrow> Inl err
      | Inr c \<Rightarrow>
     (case decode_duration parse (cf_ReconnectIntervalRaw c) (cf_ReconnectInterval c) of
        Inl err \<Rightarrow> Inl err
      | Inr d1 \<Rightarrow>
     (case decode_duration parse (cf_ReconnectTimeoutRaw c) (cf_ReconnectTimeout c) of
        Inl err \<Rightarrow> Inl err
      | Inr d2 \<Rightarrow>
     (case decode_duration parse (cf_TombstoneTimeoutRaw c) (cf_TombstoneTimeout c) of
        Inl err \<Rightarrow> Inl err
      | Inr d3 \<Rightarrow>
     (case decode_duration parse (cf_RetryIntervalRaw c) (cf_RetryInterval c) of
        Inl err \<Rightarrow> Inl err
      | Inr d4 \<Rightarrow>
          Inr (c\<lparr>cf_ReconnectInterval := d1, cf_ReconnectTimeout := d2, cf_TombstoneTimeout := d3,
                 cf_RetryInterval := d4\<rparr>))))))"

text \<open>What opening a path yields: an error (of opening, of \<^verbatim>\<open>Stat\<close> or of listing), a file, or the
  entries of a directory with the flag whether each is a directory.\<close>

datatype 'f opened = OpenError string | OpenFile 'f | OpenDir "(string \<times> bool) list"

definition read_error :: "string \<Rightarrow> string \<Rightarrow> string" where
  "read_error path err = ''Error reading '' @ [CHR 0x27] @ path @ [CHR 0x27] @ '': '' @ err"

definition decode_error :: "string \<Rightarrow> string \<Rightarrow> string" where
  "decode_error path err = ''Error decoding '' @ [CHR 0x27] @ path @ [CHR 0x27] @ '': '' @ err"

text \<open>The loop over the sorted entries of a directory; \<open>join\<close> is \<^verbatim>\<open>filepath.Join\<close>. A subdirectory
  is not opened, so an entry opens as a file or fails.\<close>

fun read_entries ::
  "(string \<Rightarrow> 'f opened) \<Rightarrow> ('f \<Rightarrow> string + Config) \<Rightarrow> (string \<Rightarrow> string \<Rightarrow> string) \<Rightarrow> string \<Rightarrow>
   (string \<times> bool) list \<Rightarrow> Config \<Rightarrow> string + Config" where
  "read_entries fs dec join path [] result = Inr result"
| "read_entries fs dec join path ((name, isdir) # fis) result =
     (if isdir then read_entries fs dec join path fis result
      else if \<not> HasSuffix name ''.json'' then read_entries fs dec join path fis result
      else
        (let subpath = join path name in
         case fs subpath of
           OpenFile f \<Rightarrow>
             (case dec f of
                Inl err \<Rightarrow> Inl (decode_error subpath err)
              | Inr config \<Rightarrow> read_entries fs dec join path fis (MergeConfig result config))
         | OpenError err \<Rightarrow> Inl (read_error subpath err)
         | OpenDir _ \<Rightarrow> Inl (decode_error subpath ''is a directory'')))"

fun read_paths ::
  "(string \<Rightarrow> 'f opened) \<Rightarrow> ('f \<Rightarrow> string + Config) \<Rightarrow> (string \<Rightarrow> string \<Rightarrow> string) \<Rightarrow>
   string list \<Rightarrow> Config \<Rightarrow> string + Config" where
  "read_paths fs dec join [] result = Inr result"
| "read_paths fs dec join (path # paths) result =
     (case fs path of
        OpenError err \<Rightarrow> Inl (read_error path err)
      | OpenFile f \<Rightarrow>
          (case dec f of
             Inl err \<Rightarrow> Inl (decode_error path err)
           | Inr config \<Rightarrow> read_paths fs dec join paths (MergeConfig result config))
      | OpenDir contents \<Rightarrow>
          (case read_entries fs dec join path (sort_key fst contents) result of
             Inl err \<Rightarrow> Inl err
           | Inr result' \<Rightarrow> read_paths fs dec join paths result'))"

definition ReadConfigPaths ::
  "(string \<Rightarrow> 'f opened) \<Rightarrow> ('f \<Rightarrow> string + Config) \<Rightarrow> (string \<Rightarrow> string \<Rightarrow> string) \<Rightarrow>
   string list \<Rightarrow> string + Config" where
  "ReadConfigPaths fs dec join paths = read_paths fs dec join paths zero_Config"

section \<open>Addresses\<close>

definition DefaultBindPort :: nat where "DefaultBindPort = 7946"

datatype addr_error = MissingPort | TooManyColons | MissingBrackets | OtherAddrError string

text \<open>The position of the last occurrence and of the first one.\<close>

fun index_of :: "char \<Rightarrow> string \<Rightarrow> nat option" where
  "index_of c [] = None"
| "index_of c (x # xs) = (if x = c then Some 0 else map_option Suc (index_of c xs))"

fun last_index :: "char \<Rightarrow> string \<Rightarrow> nat option" where
  "last_index c [] = None"
| "last_index c (x # xs) =
     (case last_index c xs of Some i \<Rightarrow> Some (Suc i) | None \<Rightarrow> if x = c then Some 0 else None)"

definition check_brackets :: "string \<Rightarrow> nat \<Rightarrow> nat \<Rightarrow> nat \<Rightarrow> string \<Rightarrow> addr_error + string \<times> string" where
  "check_brackets hp j k i host =
     (if CHR ''['' \<in> set (drop j hp) then Inl (OtherAddrError ''unexpected left bracket in address'')
      else if CHR '']'' \<in> set (drop k hp) then Inl (OtherAddrError ''unexpected right bracket in address'')
      else Inr (host, drop (i + 1) hp))"

definition SplitHostPort :: "string \<Rightarrow> addr_error + string \<times> string" where
  "SplitHostPort hp =
     (case last_index (CHR '':'') hp of
        None \<Rightarrow> Inl MissingPort
      | Some i \<Rightarrow>
          if hp ! 0 = CHR ''['' then
            (case index_of (CHR '']'') hp of
               None \<Rightarrow> Inl (OtherAddrError ''missing right bracket in address'')
             | Some e \<Rightarrow>
                 if e + 1 = length hp then Inl MissingPort
                 else if e + 1 = i then check_brackets hp 1 (e + 1) i (take (e - 1) (drop 1 hp))
                 else if hp ! (e + 1) = CHR '':'' then Inl TooManyColons
                 else Inl MissingPort)
          else
            (let host = take i hp in
             if CHR '':'' \<in> set host then Inl TooManyColons
             else if CHR ''%'' \<in> set host then Inl MissingBrackets
             else check_brackets hp 0 0 i host))"

text \<open>The loop at label START, which may run for ever.\<close>

partial_function (option) addr_loop :: "string \<Rightarrow> (addr_error + string) option" where
  "addr_loop checkAddr =
     (case SplitHostPort checkAddr of
        Inl MissingPort \<Rightarrow> addr_loop (checkAddr @ '':'' @ show_nat DefaultBindPort)
      | Inl err \<Rightarrow> Some (Inl err)
      | Inr _ \<Rightarrow> Some (Inr checkAddr))"

text \<open>\<open>resolve\<close> is \<^verbatim>\<open>net.ResolveTCPAddr\<close>; the outer option is \<open>None\<close> when the call does not
  return.\<close>

definition AddrParts ::
  "(string \<Rightarrow> addr_error + string \<times> int) \<Rightarrow> string \<Rightarrow> (addr_error + string \<times> int) option" where
  "AddrParts resolve address =
     Option.bind (addr_loop address) (\<lambda>r. case r of Inl err \<Rightarrow> Some (Inl err) | Inr a \<Rightarrow> Some (resolve a))"

section \<open>Reading is a homomorphism\<close>

definition merge_into :: "Config \<Rightarrow> string + Config \<Rightarrow> string + Config" where
  "merge_into r0 = map_sum id (MergeConfig r0)"

lemma merge_into_simps [simp]:
  "merge_into r0 (Inl e) = Inl e" "merge_into r0 (Inr c) = Inr (MergeConfig r0 c)"
  by (simp_all add: merge_into_def)

lemma read_entries_from:
  "read_entries fs dec join path es (MergeConfig r0 r) = merge_into r0 (read_entries fs dec join path es r)"
  by (induction es arbitrary: r)
    (auto simp: Let_def MergeConfig_assoc split: opened.splits sum.splits)

lemma read_paths_from:
  "read_paths fs dec join ps (MergeConfig r0 r) = merge_into r0 (read_paths fs dec join ps r)"
proof (induction ps arbitrary: r)
  case (Cons p ps)
  show ?case
  proof (cases "fs p")
    case (OpenFile f)
    then show ?thesis
      using Cons by (auto simp: MergeConfig_assoc split: sum.splits)
  next
    case (OpenDir es)
    then show ?thesis
      using Cons by (cases "read_entries fs dec join p (sort_key fst es) r") (simp_all add: read_entries_from)
  qed simp
qed simp

lemma read_paths_append:
  "read_paths fs dec join (ps @ qs) r =
     (case read_paths fs dec join ps r of Inl e \<Rightarrow> Inl e | Inr r' \<Rightarrow> read_paths fs dec join qs r')"
proof (induction ps arbitrary: r)
  case (Cons p ps)
  then show ?case
    by (auto split: opened.splits sum.splits)
qed simp

text \<open>Two views of a file system that list directories in different orders.\<close>

definition same_files :: "(string \<Rightarrow> 'f opened) \<Rightarrow> (string \<Rightarrow> 'f opened) \<Rightarrow> bool" where
  "same_files f g \<longleftrightarrow>
     (\<forall>p. f p = g p \<or> (\<exists>a b. f p = OpenDir a \<and> g p = OpenDir b \<and> mset a = mset b \<and> distinct (map fst a)))"

lemma sort_listing: "mset a = mset b \<Longrightarrow> distinct (map fst a) \<Longrightarrow> sort_key fst a = sort_key fst b"
proof (rule properties_for_sort_key [symmetric])
  assume m: "mset a = mset b" and d: "distinct (map fst a)"
  then show "mset (sort_key fst a) = mset b" by simp
  show "sorted (map fst (sort_key fst a))" by simp
  fix k
  assume "k \<in> set (sort_key fst a)"
  have one: "filter (\<lambda>x. fst k = fst x) xs = [k]" if "distinct (map fst xs)" "k \<in> set xs" for xs
    using that by (induction xs) (auto simp: filter_empty_conv)
  have "distinct (map fst (sort_key fst a))"
    using d by (metis distinct_map distinct_sort set_sort)
  moreover have "distinct (map fst b)"
    using m d by (metis mset_eq_imp_distinct_iff mset_map)
  moreover have "k \<in> set b"
    using \<open>k \<in> set (sort_key fst a)\<close> m by (metis set_mset_mset set_sort)
  ultimately show "filter (\<lambda>x. fst k = fst x) (sort_key fst a) = filter (\<lambda>x. fst k = fst x) b"
    using one \<open>k \<in> set (sort_key fst a)\<close> by simp
qed

text \<open>The sorting interface of the entries. The library's sort only swaps entries and stops when no later entry is less than an
  earlier one; that leaves the list that the model reads, as no name occurs twice in a directory.\<close>

definition dirEnts_Len :: "(string \<times> bool) list \<Rightarrow> nat" where
  "dirEnts_Len d = length d"

definition dirEnts_Less :: "(string \<times> bool) list \<Rightarrow> nat \<Rightarrow> nat \<Rightarrow> bool" where
  "dirEnts_Less d i j \<longleftrightarrow> fst (d ! i) < fst (d ! j)"

definition dirEnts_Swap :: "nat \<Rightarrow> nat \<Rightarrow> (string \<times> bool) list \<Rightarrow> (string \<times> bool) list" where
  "dirEnts_Swap i j d = d[i := d ! j, j := d ! i]"

lemma swaps_mset:
  "\<forall>(i, j) \<in> set swaps. i < dirEnts_Len d \<and> j < dirEnts_Len d \<Longrightarrow>
   mset (fold (\<lambda>(i, j). dirEnts_Swap i j) swaps d) = mset d"
proof (induction swaps arbitrary: d)
  case (Cons ij swaps)
  obtain i j where ij: "ij = (i, j)" by fastforce
  have "dirEnts_Len (dirEnts_Swap i j d) = dirEnts_Len d" by (simp add: dirEnts_Len_def dirEnts_Swap_def)
  then have "mset (fold (\<lambda>(i, j). dirEnts_Swap i j) swaps (dirEnts_Swap i j d)) = mset (dirEnts_Swap i j d)"
    using Cons.prems by (intro Cons.IH) auto
  moreover have "mset (dirEnts_Swap i j d) = mset d"
    using Cons.prems ij mset_swap [of j d i] by (simp add: dirEnts_Swap_def dirEnts_Len_def)
  ultimately show ?case using ij by simp
qed simp

lemma sorted_entries:
  assumes "\<forall>(i, j) \<in> set swaps. i < dirEnts_Len d \<and> j < dirEnts_Len d" and "d' = fold (\<lambda>(i, j). dirEnts_Swap i j) swaps d"
    and "\<forall>i j. i < j \<and> j < dirEnts_Len d' \<longrightarrow> \<not> dirEnts_Less d' j i" and "distinct (map fst d)"
  shows "d' = sort_key fst d"
proof -
  have m: "mset d' = mset d" using swaps_mset [OF assms(1)] assms(2) by simp
  have "sorted (map fst d')"
    using assms(3) by (auto simp: sorted_iff_nth_mono_less dirEnts_Less_def dirEnts_Len_def not_less)
  then have "sort_key fst d' = d'" by (simp add: sort_key_id_if_sorted)
  then show ?thesis using sort_listing [OF m [symmetric] assms(4)] by simp
qed

lemma read_entries_same:
  "same_files f g \<Longrightarrow> read_entries f dec join path es r = read_entries g dec join path es r"
proof (induction es arbitrary: r)
  case (Cons e es)
  obtain name isdir where e: "e = (name, isdir)" by fastforce
  from Cons.prems have "f (join path name) = g (join path name) \<or>
      (\<exists>a b. f (join path name) = OpenDir a \<and> g (join path name) = OpenDir b)"
    by (auto simp: same_files_def)
  then show ?case
    using Cons by (auto simp: e Let_def split: opened.splits sum.splits)
qed simp

lemma read_paths_same:
  "same_files f g \<Longrightarrow> read_paths f dec join ps r = read_paths g dec join ps r"
proof (induction ps arbitrary: r)
  case (Cons p ps)
  from Cons.prems consider "f p = g p"
    | a b where "f p = OpenDir a" "g p = OpenDir b" "mset a = mset b" "distinct (map fst a)"
    unfolding same_files_def by blast
  then show ?case
  proof cases
    case 1
    then show ?thesis
      using Cons read_entries_same [OF Cons.prems] by (auto split: opened.splits sum.splits)
  next
    case 2
    then show ?thesis
      using Cons read_entries_same [OF Cons.prems] sort_listing [of a b] by (auto split: sum.splits)
  qed
qed simp

section \<open>Addresses\<close>

lemma last_index_None: "last_index c xs = None \<longleftrightarrow> c \<notin> set xs"
  by (induction xs) (auto split: option.splits)

lemma last_index_append: "c \<notin> set r \<Longrightarrow> last_index c (xs @ c # r) = Some (length xs)"
  by (induction xs) (auto simp: last_index_None split: option.splits)

lemma last_index_at: "last_index c xs = Some i \<Longrightarrow> i < length xs \<and> xs ! i = c"
  by (induction xs arbitrary: i) (auto split: option.splits if_splits)

lemma index_of_append: "c \<notin> set a \<Longrightarrow> index_of c (a @ c # b) = Some (length a)"
  by (induction a) auto

lemma index_of_None: "index_of c xs = None \<longleftrightarrow> c \<notin> set xs"
  by (induction xs) auto

text \<open>A bracketed host followed by something other than a colon.\<close>

definition junk_after_bracket :: "string \<Rightarrow> bool" where
  "junk_after_bracket s \<longleftrightarrow> (\<exists>h c r. s = ''['' @ h @ '']'' @ c # r \<and> CHR '']'' \<notin> set h \<and> c \<noteq> CHR '':'')"

definition port_suffix :: string where
  "port_suffix = '':'' @ show_nat DefaultBindPort"

lemma port_suffix_eq: "port_suffix = '':7946''"
  by (simp add: port_suffix_def DefaultBindPort_def show_nat.simps) code_simp

lemma Split_junk: "junk_after_bracket s \<Longrightarrow> SplitHostPort s = Inl MissingPort"
proof -
  assume "junk_after_bracket s"
  then obtain h c r where s: "s = ''['' @ h @ '']'' @ c # r" and h: "CHR '']'' \<notin> set h" and c: "c \<noteq> CHR '':''"
    unfolding junk_after_bracket_def by blast
  show ?thesis
  proof (cases "last_index (CHR '':'') s")
    case (Some i)
    have e: "index_of (CHR '']'') s = Some (Suc (length h))"
      using index_of_append [of "CHR '']''" "CHR ''['' # h" "c # r"] h s by simp
    have "s ! (length h + 2) = c"
      by (simp add: s nth_append)
    moreover have "i \<noteq> length h + 2"
      using last_index_at [OF Some] c calculation by auto
    ultimately show ?thesis
      using Some e c by (simp add: SplitHostPort_def s nth_append)
  qed (simp add: SplitHostPort_def)
qed

lemma junk_more: "junk_after_bracket s \<Longrightarrow> junk_after_bracket (s @ t)"
  unfolding junk_after_bracket_def by fastforce

lemma addr_loop_junk:
  assumes "addr_loop s = Some r"
  shows "\<not> junk_after_bracket s"
proof -
  have "(\<lambda>s r. \<not> junk_after_bracket s) s r"
  proof (rule addr_loop.raw_induct [OF _ assms])
    fix f :: "string \<Rightarrow> (addr_error + string) option" and s r
    assume ih: "\<And>s r. f s = Some r \<Longrightarrow> \<not> junk_after_bracket s"
      and body: "(case SplitHostPort s of
          Inl MissingPort \<Rightarrow> f (s @ '':'' @ show_nat DefaultBindPort)
        | Inl err \<Rightarrow> Some (Inl err) | Inr _ \<Rightarrow> Some (Inr s)) = Some r"
    show "\<not> junk_after_bracket s"
    proof
      assume j: "junk_after_bracket s"
      then have "f (s @ '':'' @ show_nat DefaultBindPort) = Some r"
        using body by (simp add: Split_junk)
      then show False
        using ih junk_more [OF j] by blast
    qed
  qed
  then show ?thesis .
qed

lemma missing_port_cases:
  assumes "SplitHostPort s = Inl MissingPort" and "\<not> junk_after_bracket s"
  shows "CHR '':'' \<notin> set s \<and> (s = [] \<or> hd s \<noteq> CHR ''['') \<or>
    (\<exists>h. s = ''['' @ h @ '']'' \<and> CHR '']'' \<notin> set h) \<or> (hd s = CHR ''['' \<and> s \<noteq> [] \<and> CHR '']'' \<notin> set s)"
proof (cases "s \<noteq> [] \<and> hd s = CHR ''[''")
  case False
  then have "last_index (CHR '':'') s = None"
  proof (cases "last_index (CHR '':'') s")
    case (Some i)
    then have "s \<noteq> []" by auto
    then have "hd s \<noteq> CHR ''[''" "s ! 0 \<noteq> CHR ''[''" using False by (simp_all add: hd_conv_nth)
    then show ?thesis
      using assms(1) Some by (simp add: SplitHostPort_def Let_def check_brackets_def split: if_splits)
  qed
  then show ?thesis using False by (auto simp: last_index_None)
next
  case True
  then obtain t where s: "s = CHR ''['' # t" by (cases s) auto
  show ?thesis
  proof (cases "CHR '']'' \<in> set t")
    case False
    then show ?thesis using s by auto
  next
    case True
    then obtain h u where t: "t = h @ CHR '']'' # u" and h: "CHR '']'' \<notin> set h"
      by (meson split_list_first)
    show ?thesis
    proof (cases u)
      case Nil
      then show ?thesis using s t h by auto
    next
      case (Cons c r)
      have c: "c = CHR '':''"
        using assms(2) s t h Cons unfolding junk_after_bracket_def by auto
      then have "CHR '':'' \<in> set s"
        by (simp add: s t Cons)
      then have li: "last_index (CHR '':'') s \<noteq> None"
        using last_index_None by metis
      have e: "index_of (CHR '']'') s = Some (Suc (length h))"
        using index_of_append [of "CHR '']''" "CHR ''['' # h" u] h s t by simp
      have "s ! (length h + 2) = CHR '':''" "length s = length h + 3 + length r" "s ! 0 = CHR ''[''"
        using c Cons by (simp_all add: s t nth_append)
      then show ?thesis
        using assms(1) li e by (auto simp: SplitHostPort_def check_brackets_def split: if_splits)
    qed
  qed
qed

lemma with_port_has_port:
  assumes "SplitHostPort s = Inl MissingPort" and "\<not> junk_after_bracket s"
  shows "SplitHostPort (s @ port_suffix) \<noteq> Inl MissingPort"
proof -
  have li: "last_index (CHR '':'') (s @ port_suffix) = Some (length s)"
    using last_index_append [of "CHR '':''" "''7946''" s] by (simp add: port_suffix_eq)
  consider (plain) "CHR '':'' \<notin> set s" "s = [] \<or> hd s \<noteq> CHR ''[''"
    | (brackets) h where "s = ''['' @ h @ '']''" "CHR '']'' \<notin> set h"
    | (unclosed) t where "s = CHR ''['' # t" "CHR '']'' \<notin> set s"
    using missing_port_cases [OF assms] by (metis list.exhaust_sel)
  then show ?thesis
  proof cases
    case plain
    have "(s @ port_suffix) ! 0 \<noteq> CHR ''[''"
      using plain(2) by (cases s) (auto simp: port_suffix_eq)
    then show ?thesis
      using li by (simp add: SplitHostPort_def Let_def check_brackets_def)
  next
    case brackets
    have "index_of (CHR '']'') (s @ port_suffix) = Some (Suc (length h))"
      using index_of_append [of "CHR '']''" "CHR ''['' # h" port_suffix] brackets by simp
    moreover have "(s @ port_suffix) ! 0 = CHR ''[''" "length s = length h + 2"
      using brackets by simp_all
    ultimately show ?thesis
      using li by (simp add: SplitHostPort_def check_brackets_def port_suffix_eq)
  next
    case unclosed
    have "index_of (CHR '']'') (s @ port_suffix) = None"
      using unclosed(2) by (simp add: index_of_None port_suffix_eq)
    then show ?thesis
      using li unclosed by (simp add: SplitHostPort_def)
  qed
qed

lemma addr_loop_returns:
  assumes "\<not> junk_after_bracket s"
  shows "addr_loop s = Some (case SplitHostPort s of
      Inl MissingPort \<Rightarrow> (case SplitHostPort (s @ port_suffix) of Inl err \<Rightarrow> Inl err | Inr _ \<Rightarrow> Inr (s @ port_suffix))
    | Inl err \<Rightarrow> Inl err | Inr _ \<Rightarrow> Inr s)"
proof (cases "SplitHostPort s = Inl MissingPort")
  case True
  have "SplitHostPort (s @ port_suffix) \<noteq> Inl MissingPort"
    by (rule with_port_has_port [OF True assms])
  then have "addr_loop (s @ port_suffix) =
      Some (case SplitHostPort (s @ port_suffix) of Inl err \<Rightarrow> Inl err | Inr _ \<Rightarrow> Inr (s @ port_suffix))"
    by (subst addr_loop.simps) (auto split: sum.splits addr_error.splits)
  then show ?thesis
    by (subst addr_loop.simps) (simp add: True port_suffix_def)
next
  case False
  then show ?thesis
    by (subst addr_loop.simps) (auto split: sum.splits addr_error.splits)
qed

section \<open>Properties\<close>

text \<open>C16. Merging configurations is associative, the zero configuration is neutral on the right, and later settings win,
  setting by setting, for all forty fields: a string the later configuration sets replaces the earlier one; a flag is on if either has it on;
  a service TTL or protocol version counts as set when positive, a duration or the number of attempts when not zero;
  tags are replaced key by key; join addresses and event handlers accumulate in order. Only the raw spellings of the four
  durations, which are parsed before merging, stay those of the earlier configuration.\<close>

theorem merge_laws:
  "MergeConfig (MergeConfig a b) c = MergeConfig a (MergeConfig b c) \<and>
   MergeConfig a zero_Config = a \<and>
   list_all (\<lambda>f. f (MergeConfig a b) = (if f b = '''' then f a else f b))
     [cf_NodeName, cf_Role, cf_TagsFile, cf_BindAddr, cf_AdvertiseAddr, cf_EncryptKey, cf_KeyringFile, cf_LogLevel,
      cf_RPCAddr, cf_RestAddr, cf_RPCAuthKey, cf_Profile, cf_SnapshotPath, cf_Discover, cf_Interface, cf_SyslogFacility,
      cf_StatsiteAddr, cf_StatsdAddr] \<and>
   list_all (\<lambda>f. f (MergeConfig a b) \<longleftrightarrow> f a \<or> f b)
     [cf_DisableCoordinates, cf_ReplayOnJoin, cf_LeaveOnTerm, cf_SkipLeaveOnInt, cf_DisableNameResolution,
      cf_EnableSyslog, cf_RejoinAfterLeave] \<and>
   list_all (\<lambda>f. f (MergeConfig a b) = (if 0 < sint (f b) then f b else f a)) [cf_ServiceTTL, cf_Protocol] \<and>
   list_all (\<lambda>f. f (MergeConfig a b) = (if f b = 0 then f a else f b))
     [cf_ReconnectInterval, cf_ReconnectTimeout, cf_TombstoneTimeout, cf_RetryMaxAttempts, cf_RetryInterval] \<and>
   list_all (\<lambda>f. f (MergeConfig a b) = f a @ f b) [cf_StartJoin, cf_EventHandlers, cf_RetryJoin] \<and>
   list_all (\<lambda>f. f (MergeConfig a b) = f a)
     [cf_ReconnectIntervalRaw, cf_ReconnectTimeoutRaw, cf_TombstoneTimeoutRaw, cf_RetryIntervalRaw] \<and>
   EventScripts (MergeConfig a b) = EventScripts a @ EventScripts b \<and>
   (case cf_Tags b of None \<Rightarrow> cf_Tags (MergeConfig a b) = cf_Tags a
    | Some bt \<Rightarrow> \<exists>t. cf_Tags (MergeConfig a b) = Some t \<and>
        (\<forall>k. t k = (case bt k of None \<Rightarrow> Option.bind (cf_Tags a) (\<lambda>at. at k) | Some v \<Rightarrow> Some v)))"
proof (intro conjI)
  show "MergeConfig (MergeConfig a b) c = MergeConfig a (MergeConfig b c)" by (rule MergeConfig_assoc)
  show "MergeConfig a zero_Config = a" by (rule MergeConfig_zero)
  show "EventScripts (MergeConfig a b) = EventScripts a @ EventScripts b"
    by (simp only: EventScripts_def MergeConfig_fields map_append concat_append)
  have "cf_Tags (MergeConfig a b) = merge_tags (cf_Tags a) (cf_Tags b)" by (rule MergeConfig_fields)
  then show "case cf_Tags b of None \<Rightarrow> cf_Tags (MergeConfig a b) = cf_Tags a
    | Some bt \<Rightarrow> \<exists>t. cf_Tags (MergeConfig a b) = Some t \<and>
        (\<forall>k. t k = (case bt k of None \<Rightarrow> Option.bind (cf_Tags a) (\<lambda>at. at k) | Some v \<Rightarrow> Some v))"
    by (auto simp: merge_tags_def map_add_def split: option.splits)
qed (simp_all only: list.pred_inject MergeConfig_fields, simp_all)

text \<open>C17. Reading configuration paths is compositional and deterministic: reading one list of paths
  after another merges what each yields, the first failing path decides the error, and the order in
  which the file system lists a directory does not matter.\<close>

theorem read_config_compositional:
  "ReadConfigPaths fs dec join (ps @ qs) =
     (case ReadConfigPaths fs dec join ps of
        Inl e \<Rightarrow> Inl e
      | Inr a \<Rightarrow> (case ReadConfigPaths fs dec join qs of Inl e \<Rightarrow> Inl e | Inr b \<Rightarrow> Inr (MergeConfig a b))) \<and>
   (same_files fs gs \<longrightarrow> ReadConfigPaths fs dec join ps = ReadConfigPaths gs dec join ps)"
proof (intro conjI impI)
  have h: "read_paths fs dec join qs a =
      (case read_paths fs dec join qs zero_Config of Inl e \<Rightarrow> Inl e | Inr b \<Rightarrow> Inr (MergeConfig a b))" for a
    using read_paths_from [of fs dec join qs a zero_Config]
    by (cases "read_paths fs dec join qs zero_Config") (simp_all add: MergeConfig_zero)
  show "ReadConfigPaths fs dec join (ps @ qs) =
     (case ReadConfigPaths fs dec join ps of
        Inl e \<Rightarrow> Inl e
      | Inr a \<Rightarrow> (case ReadConfigPaths fs dec join qs of Inl e \<Rightarrow> Inl e | Inr b \<Rightarrow> Inr (MergeConfig a b)))"
    unfolding ReadConfigPaths_def read_paths_append
    by (cases "read_paths fs dec join ps zero_Config") (simp_all only: sum.case, rule h)

  show "ReadConfigPaths fs dec join ps = ReadConfigPaths gs dec join ps" if "same_files fs gs"
    unfolding ReadConfigPaths_def by (rule read_paths_same [OF that])
qed

definition two_dirs :: "bool \<Rightarrow> string \<Rightarrow> string opened" where
  "two_dirs flipped p =
     (if p = ''d'' then OpenDir (if flipped then [(''b.json'', False), (''a.json'', False)] else [(''a.json'', False), (''b.json'', False)])
      else OpenFile p)"

theorem read_config_compositional_witness:
  "ReadConfigPaths (two_dirs True) (\<lambda>p. Inr (zero_Config\<lparr>cf_NodeName := p\<rparr>)) (\<lambda>p n. p @ ''/'' @ n) [''d''] =
   ReadConfigPaths (two_dirs False) (\<lambda>p. Inr (zero_Config\<lparr>cf_NodeName := p\<rparr>)) (\<lambda>p n. p @ ''/'' @ n) [''d'']"
proof -
  have "same_files (two_dirs True) (two_dirs False)"
    by (auto simp: same_files_def two_dirs_def)
  then show ?thesis
    using read_config_compositional [where gs = "two_dirs False"] by blast
qed

text \<open>C18. Parsing an address returns exactly when the address does not have text other than a port
  right after a closing bracket; it then tries the default port at most once. For an address such as
  "[::1]eth0" the loop appends the port for ever.\<close>

theorem addr_parts_termination:
  "(AddrParts resolve s \<noteq> None \<longleftrightarrow> \<not> junk_after_bracket s) \<and>
   (\<not> junk_after_bracket s \<longrightarrow> AddrParts resolve s = Some
      (case SplitHostPort s of
         Inl MissingPort \<Rightarrow>
           (case SplitHostPort (s @ '':7946'') of Inl err \<Rightarrow> Inl err | Inr _ \<Rightarrow> resolve (s @ '':7946''))
       | Inl err \<Rightarrow> Inl err
       | Inr _ \<Rightarrow> resolve s))"
proof -
  have "AddrParts resolve s = None" if "junk_after_bracket s"
    using that addr_loop_junk by (cases "addr_loop s") (auto simp: AddrParts_def)
  moreover have "AddrParts resolve s = Some
      (case SplitHostPort s of
         Inl MissingPort \<Rightarrow>
           (case SplitHostPort (s @ '':7946'') of Inl err \<Rightarrow> Inl err | Inr _ \<Rightarrow> resolve (s @ '':7946''))
       | Inl err \<Rightarrow> Inl err
       | Inr _ \<Rightarrow> resolve s)" if "\<not> junk_after_bracket s"
    by (simp add: AddrParts_def addr_loop_returns [OF that] port_suffix_eq split: sum.splits addr_error.splits)
  ultimately show ?thesis by auto
qed

theorem addr_parts_termination_witness:
  "AddrParts (\<lambda>a. Inr (a, 0)) ''[::1]eth0'' = None \<and> AddrParts (\<lambda>a. Inr (a, 0)) ''10.0.0.1'' = Some (Inr (''10.0.0.1:7946'', 0))"
proof -
  have "junk_after_bracket ''[::1]eth0''"
    unfolding junk_after_bracket_def
    by (rule exI [of _ "''::1''"], rule exI [of _ "CHR ''e''"], rule exI [of _ "''th0''"]) simp
  moreover have "\<not> junk_after_bracket ''10.0.0.1''"
    by (simp add: junk_after_bracket_def)
  moreover have "SplitHostPort ''10.0.0.1'' = Inl MissingPort" "SplitHostPort ''10.0.0.1:7946'' = Inr (''10.0.0.1'', ''7946'')"
    by (simp_all add: SplitHostPort_def check_brackets_def Let_def)
  ultimately show ?thesis
    using addr_parts_termination [of "\<lambda>a. Inr (a, 0)" "''[::1]eth0''"] addr_parts_termination [of "\<lambda>a. Inr (a, 0)" "''10.0.0.1''"]
    by simp
qed

end
