(* ===== verification/Agent.thy ===== *)
theory Agent
  imports Config
begin

text \<open>
  The agent that wraps a serf instance: \<^verbatim>\<open>command/agent/agent.go\<close>. State: the tags and keyring of
  the serf configuration, the agent's configuration, the registered event handlers and the list the
  event loop walks, whether serf is running, and the shutdown flag with its channel. The serf
  library, the JSON codec and the file system are parameters; calls into serf are returned as values.
\<close>

section \<open>State\<close>

text \<open>\<open>sc_Keyring\<close> holds the keys installed, the first being the primary one.\<close>

record serf_config =
  sc_Tags :: "(string \<rightharpoonup> string) option"
  sc_Keyring :: "string list option"

record 'h agent =
  ag_conf :: serf_config
  ag_agentConf :: Config
  ag_eventHandlers :: "'h set"
  ag_eventHandlerList :: "'h list"
  ag_serf :: bool
  ag_shutdown :: bool
  ag_shutdownCh_closed :: bool

text \<open>Files: the contents of those that exist, and the error of reading or writing a path.\<close>

record files =
  fl_data :: "string \<rightharpoonup> string"
  fl_read_error :: "string \<rightharpoonup> string"
  fl_write_error :: "string \<rightharpoonup> string"

record json =
  js_tags_dec :: "string \<Rightarrow> (string \<rightharpoonup> string) option \<Rightarrow> string + (string \<rightharpoonup> string) option"
  js_tags_enc :: "(string \<rightharpoonup> string) \<Rightarrow> string + string"
  js_keys_dec :: "string \<Rightarrow> string + string list"

definition ReadFile :: "files \<Rightarrow> string \<Rightarrow> string + string" where
  "ReadFile fl p =
     (case fl_read_error fl p of
        Some e \<Rightarrow> Inl e
      | None \<Rightarrow> (case fl_data fl p of None \<Rightarrow> Inl ''no such file or directory'' | Some d \<Rightarrow> Inr d))"

section \<open>Tags and keyring files\<close>

definition nonempty_tags :: "(string \<rightharpoonup> string) option \<Rightarrow> bool" where
  "nonempty_tags t = (case t of None \<Rightarrow> False | Some m \<Rightarrow> m \<noteq> Map.empty)"

definition loadTagsFile :: "json \<Rightarrow> files \<Rightarrow> string \<Rightarrow> 'h agent \<Rightarrow> string option \<times> 'h agent" where
  "loadTagsFile js fl tagsFile a =
     (if nonempty_tags (cf_Tags (ag_agentConf a))
      then (Some ''Tags config not allowed while using tag files'', a)
      else if fl_data fl tagsFile = None then (None, a)
      else (case ReadFile fl tagsFile of
              Inl err \<Rightarrow> (Some (''Failed to read tags file: '' @ err), a)
            | Inr tagData \<Rightarrow>
                (case js_tags_dec js tagData (sc_Tags (ag_conf a)) of
                   Inl err \<Rightarrow> (Some (''Failed to decode tags file: '' @ err), a)
                 | Inr tags \<Rightarrow> (None, a\<lparr>ag_conf := (ag_conf a)\<lparr>sc_Tags := tags\<rparr>\<rparr>))))"

definition writeTagsFile :: "json \<Rightarrow> (string \<rightharpoonup> string) \<Rightarrow> 'h agent \<Rightarrow> files \<Rightarrow> string option \<times> files" where
  "writeTagsFile js tags a fl =
     (case js_tags_enc js tags of
        Inl err \<Rightarrow> (Some (''Failed to encode tags: '' @ err), fl)
      | Inr encoded \<Rightarrow>
          (let path = cf_TagsFile (ag_agentConf a) in
           case fl_write_error fl path of
             Some err \<Rightarrow> (Some (''Failed to write tags file: '' @ err), fl)
           | None \<Rightarrow> (None, fl\<lparr>fl_data := (fl_data fl)(path \<mapsto> encoded)\<rparr>)))"

text \<open>\<open>serf_SetTags\<close> is the error of serf's own \<^verbatim>\<open>SetTags\<close>; the last component says whether it was
  called.\<close>

definition Agent_SetTags ::
  "json \<Rightarrow> ((string \<rightharpoonup> string) \<Rightarrow> string option) \<Rightarrow> (string \<rightharpoonup> string) \<Rightarrow> 'h agent \<Rightarrow> files \<Rightarrow>
   string option \<times> files \<times> bool" where
  "Agent_SetTags js serf_SetTags tags a fl =
     (if cf_TagsFile (ag_agentConf a) \<noteq> ''''
      then (case writeTagsFile js tags a fl of
              (Some err, fl') \<Rightarrow> (Some err, fl', False)
            | (None, fl') \<Rightarrow> (serf_SetTags tags, fl', True))
      else (serf_SetTags tags, fl, True))"

fun decode_keys :: "string list \<Rightarrow> string list option" where
  "decode_keys [] = Some []"
| "decode_keys (k # ks) =
     (case b64_DecodeString k of
        None \<Rightarrow> None
      | Some b \<Rightarrow> (case decode_keys ks of None \<Rightarrow> None | Some bs \<Rightarrow> Some (b # bs)))"

text \<open>\<open>new_keyring\<close> is \<^verbatim>\<open>memberlist.NewKeyring\<close> on the keys and the primary key.\<close>

definition loadKeyringFile ::
  "json \<Rightarrow> (string list \<Rightarrow> string \<Rightarrow> string + string list) \<Rightarrow> files \<Rightarrow> string \<Rightarrow> 'h agent \<Rightarrow> string option \<times> 'h agent" where
  "loadKeyringFile js new_keyring fl keyringFile a =
     (if length (cf_EncryptKey (ag_agentConf a)) > 0
      then (Some ''Encryption key not allowed while using a keyring'', a)
      else if fl_data fl keyringFile = None then (Some ''no such file or directory'', a)
      else (case ReadFile fl keyringFile of
              Inl err \<Rightarrow> (Some (''Failed to read keyring file: '' @ err), a)
            | Inr keyringData \<Rightarrow>
                (case js_keys_dec js keyringData of
                   Inl err \<Rightarrow> (Some (''Failed to decode keyring file: '' @ err), a)
                 | Inr keys \<Rightarrow>
                     (case decode_keys keys of
                        None \<Rightarrow> (Some ''Failed to decode key from keyring: illegal base64 data'', a)
                      | Some keysDecoded \<Rightarrow>
                          if length keysDecoded = 0 then (Some ''Keyring file contains no keys'', a)
                          else (case new_keyring keysDecoded (hd keysDecoded) of
                                  Inl err \<Rightarrow> (Some (''Failed to restore keyring: '' @ err), a)
                                | Inr keyring \<Rightarrow>
                                    (None, a\<lparr>ag_conf := (ag_conf a)\<lparr>sc_Keyring := Some keyring\<rparr>\<rparr>))))))"

definition new_agent :: "Config \<Rightarrow> serf_config \<Rightarrow> 'h agent" where
  "new_agent agentConf conf =
     \<lparr>ag_conf = conf, ag_agentConf = agentConf, ag_eventHandlers = {}, ag_eventHandlerList = [],
      ag_serf = False, ag_shutdown = False, ag_shutdownCh_closed = False\<rparr>"

definition Agent_Create ::
  "json \<Rightarrow> (string list \<Rightarrow> string \<Rightarrow> string + string list) \<Rightarrow> files \<Rightarrow> Config \<Rightarrow> serf_config \<Rightarrow> string + 'h agent" where
  "Agent_Create js new_keyring fl agentConf conf =
     (let agent = new_agent agentConf conf;
          r1 = (if cf_TagsFile agentConf \<noteq> '''' then loadTagsFile js fl (cf_TagsFile agentConf) agent else (None, agent))
      in case r1 of
           (Some err, _) \<Rightarrow> Inl err
         | (None, a1) \<Rightarrow>
             (let r2 = (if cf_KeyringFile agentConf \<noteq> ''''
                        then loadKeyringFile js new_keyring fl (cf_KeyringFile agentConf) a1 else (None, a1))
              in case r2 of (Some err, _) \<Rightarrow> Inl err | (None, a2) \<Rightarrow> Inr a2))"

section \<open>Tags as text\<close>

text \<open>\<open>names\<close> is the order in which the tags are visited.\<close>

fun MarshalTags :: "(string \<rightharpoonup> string) \<Rightarrow> string list \<Rightarrow> string list" where
  "MarshalTags tags [] = []"
| "MarshalTags tags (name # names) =
     (case tags name of None \<Rightarrow> MarshalTags tags names | Some v \<Rightarrow> (name @ ''='' @ v) # MarshalTags tags names)"

fun unmarshal_loop :: "string list \<Rightarrow> (string \<rightharpoonup> string) \<Rightarrow> string + (string \<rightharpoonup> string)" where
  "unmarshal_loop [] result = Inr result"
| "unmarshal_loop (tag # tags) result =
     (let parts = SplitN2 (CHR ''='') tag in
      if length parts \<noteq> 2 \<or> length (parts ! 0) = 0
      then Inl (''Invalid tag: '' @ [CHR 0x27] @ tag @ [CHR 0x27])
      else unmarshal_loop tags (result(parts ! 0 \<mapsto> parts ! 1)))"

definition UnmarshalTags :: "string list \<Rightarrow> string + (string \<rightharpoonup> string)" where
  "UnmarshalTags tags = unmarshal_loop tags Map.empty"

section \<open>Life of the agent\<close>

definition Agent_Start :: "string option \<Rightarrow> 'h agent \<Rightarrow> string option \<times> 'h agent" where
  "Agent_Start create_error a =
     (case create_error of
        Some err \<Rightarrow> (Some (''Error creating Serf: '' @ err), a)
      | None \<Rightarrow> (None, a\<lparr>ag_serf := True\<rparr>))"

definition Agent_Leave :: "string option \<Rightarrow> 'h agent \<Rightarrow> string option" where
  "Agent_Leave leave_error a = (if \<not> ag_serf a then None else leave_error)"

text \<open>Closing the channel a second time would panic.\<close>

definition Agent_Shutdown :: "string option \<Rightarrow> 'h agent \<Rightarrow> (string option \<times> 'h agent) go" where
  "Agent_Shutdown shutdown_error a =
     (if ag_shutdown a then Ret (None, a)
      else if ag_serf a \<and> shutdown_error \<noteq> None then Ret (shutdown_error, a)
      else if ag_shutdownCh_closed a then Panic
      else Ret (None, a\<lparr>ag_shutdown := True, ag_shutdownCh_closed := True\<rparr>))"

text \<open>\<open>ignoreOld\<close> is what serf is called with.\<close>

definition Agent_Join :: "(string list \<Rightarrow> bool \<Rightarrow> int \<times> string option) \<Rightarrow> string list \<Rightarrow> bool \<Rightarrow> int \<times> string option" where
  "Agent_Join serf_Join addrs replay = (let ignoreOld = \<not> replay in serf_Join addrs ignoreOld)"

definition Agent_ForceLeave :: "(string \<Rightarrow> string option) \<Rightarrow> string \<Rightarrow> string option" where
  "Agent_ForceLeave serf_RemoveFailedNode node = serf_RemoveFailedNode node"

definition Agent_UserEvent :: "(string \<Rightarrow> string \<Rightarrow> bool \<Rightarrow> string option) \<Rightarrow> string \<Rightarrow> string \<Rightarrow> bool \<Rightarrow> string option" where
  "Agent_UserEvent serf_UserEvent name payload coalesce = serf_UserEvent name payload coalesce"

text \<open>\<open>prefix\<close> is serf's internal query prefix; a nil payload is \<open>None\<close>. The query goes to serf unless it is rejected.\<close>

definition Agent_Query ::
  "string \<Rightarrow> (string \<Rightarrow> string option \<Rightarrow> 'p \<Rightarrow> string + 'r) \<Rightarrow> string \<Rightarrow> string option \<Rightarrow> 'p \<Rightarrow> string + 'r" where
  "Agent_Query prefix serf_Query name payload params =
     (if HasPrefix name prefix \<and> (name \<noteq> prefix @ ''ping'' \<or> payload \<noteq> None)
      then Inl (''Queries cannot contain the '' @ [CHR 0x27] @ prefix @ [CHR 0x27] @ '' prefix'')
      else serf_Query name payload params)"

text \<open>\<open>order\<close> is the order in which the map of handlers is visited to rebuild the list.\<close>

definition Agent_RegisterEventHandler :: "('h set \<Rightarrow> 'h list) \<Rightarrow> 'h \<Rightarrow> 'h agent \<Rightarrow> 'h agent" where
  "Agent_RegisterEventHandler order eh a =
     (let hs = insert eh (ag_eventHandlers a) in a\<lparr>ag_eventHandlers := hs, ag_eventHandlerList := order hs\<rparr>)"

definition Agent_DeregisterEventHandler :: "('h set \<Rightarrow> 'h list) \<Rightarrow> 'h \<Rightarrow> 'h agent \<Rightarrow> 'h agent" where
  "Agent_DeregisterEventHandler order eh a =
     (let hs = ag_eventHandlers a - {eh} in a\<lparr>ag_eventHandlers := hs, ag_eventHandlerList := order hs\<rparr>)"

text \<open>The event loop with the calls of other goroutines around it: the loop receives an event, the
  notice of serf's shutdown (with the error of serf's own shutdown call), or the agent's own shutdown
  notice; handlers are registered and removed between its turns. The result is the deliveries.\<close>

datatype ('h, 'e) loop_act =
    LoopEvent 'e
  | LoopSerfShutdown "string option"
  | LoopShutdownCh
  | Register 'h
  | Deregister 'h

fun eventLoop ::
  "('h set \<Rightarrow> 'h list) \<Rightarrow> ('h, 'e) loop_act list \<Rightarrow> bool \<Rightarrow> 'h agent \<Rightarrow> (('h \<times> 'e) list \<times> 'h agent) go" where
  "eventLoop order [] running a = Ret ([], a)"
| "eventLoop order (Register h # as) running a = eventLoop order as running (Agent_RegisterEventHandler order h a)"
| "eventLoop order (Deregister h # as) running a = eventLoop order as running (Agent_DeregisterEventHandler order h a)"
| "eventLoop order (LoopEvent e # as) running a =
     (if running
      then go_bind (eventLoop order as True a) (\<lambda>(ds, a'). Ret (map (\<lambda>eh. (eh, e)) (ag_eventHandlerList a) @ ds, a'))
      else eventLoop order as False a)"
| "eventLoop order (LoopSerfShutdown err # as) running a =
     (if running then go_bind (Agent_Shutdown err a) (\<lambda>(_, a'). eventLoop order as False a')
      else eventLoop order as False a)"
| "eventLoop order (LoopShutdownCh # as) running a = eventLoop order as False a"

text \<open>\<^verbatim>\<open>Stats\<close>: the sections that do not come from the run-time system or serf are computed.\<close>

definition script_stats :: "EventScript list \<Rightarrow> (string \<rightharpoonup> string)" where
  "script_stats ss =
     fold (\<lambda>s m. m(es_Event s @ '':'' @ es_Name s \<mapsto> es_Script s)) ss Map.empty"

definition Agent_Stats ::
  "(string \<rightharpoonup> string) \<Rightarrow> (string \<rightharpoonup> string) \<Rightarrow> Member \<Rightarrow> 'h agent \<Rightarrow> (string \<rightharpoonup> (string \<rightharpoonup> string))" where
  "Agent_Stats runtimeStats serfStats local a =
     [''agent'' \<mapsto> [''name'' \<mapsto> m_Name local],
      ''runtime'' \<mapsto> runtimeStats,
      ''serf'' \<mapsto> serfStats,
      ''tags'' \<mapsto> m_Tags local,
      ''event_handlers'' \<mapsto> script_stats (EventScripts (ag_agentConf a))]"

text \<open>\<^verbatim>\<open>flag_slice_value.go\<close>: repeated flags append.\<close>

definition AppendSlice_Set :: "string \<Rightarrow> string list option \<Rightarrow> string list option" where
  "AppendSlice_Set value s = (case s of None \<Rightarrow> Some [value] | Some xs \<Rightarrow> Some (xs @ [value]))"

definition AppendSlice_String :: "string list option \<Rightarrow> string" where
  "AppendSlice_String s = (case s of None \<Rightarrow> '''' | Some xs \<Rightarrow> Join xs '','')"

section \<open>Properties\<close>

lemma MarshalTags_names:
  "set (MarshalTags tags ks) = {k @ ''='' @ v | k v. k \<in> set ks \<and> tags k = Some v}"
  by (induction ks) (auto split: option.splits)

lemma unmarshal_marshal:
  "distinct ks \<Longrightarrow> \<forall>k \<in> set ks. k \<noteq> '''' \<and> CHR ''='' \<notin> set k \<Longrightarrow>
   unmarshal_loop (MarshalTags tags ks) m = Inr (\<lambda>k. if k \<in> set ks \<and> tags k \<noteq> None then tags k else m k)"
proof (induction ks arbitrary: m)
  case (Cons k ks)
  show ?case
  proof (cases "tags k")
    case None
    then show ?thesis using Cons by (auto simp: fun_eq_iff)
  next
    case (Some v)
    have "SplitN2 (CHR ''='') (k @ CHR ''='' # v) = [k, v]"
      using Cons.prems(2) by (intro SplitN2_found) simp
    then have "unmarshal_loop (MarshalTags tags (k # ks)) m = unmarshal_loop (MarshalTags tags ks) (m(k \<mapsto> v))"
      using Some Cons.prems(2) by simp
    also have "\<dots> = Inr (\<lambda>j. if j \<in> set ks \<and> tags j \<noteq> None then tags j else (m(k \<mapsto> v)) j)"
      using Cons by simp
    finally show ?thesis
      using Some Cons.prems(1) by (auto simp: fun_eq_iff)
  qed
qed simp

definition bad_tag :: "string \<Rightarrow> bool" where
  "bad_tag t \<longleftrightarrow> CHR ''='' \<notin> set t \<or> (\<exists>v. t = CHR ''='' # v)"

lemma unmarshal_loop_error:
  "(\<exists>e. unmarshal_loop ts m = Inl e) \<longleftrightarrow> (\<exists>t \<in> set ts. bad_tag t)"
proof (induction ts arbitrary: m)
  case (Cons t ts)
  show ?case
  proof (cases rule: SplitN2_cases [of "CHR ''=''" t])
    case one
    then show ?thesis by (simp add: bad_tag_def)
  next
    case (two k v)
    then have "bad_tag t \<longleftrightarrow> k = ''''"
      by (cases k) (auto simp: bad_tag_def)
    then show ?thesis
      using two Cons by (simp add: Let_def)
  qed
qed simp

text \<open>Tags survive their textual form: rendering a tag map as "name=value" strings, in any order,
  and parsing them gives the map back when no name is empty or contains "="; parsing fails exactly
  when some string has no "=" or an empty name.\<close>

lemma tags_text_roundtrip:
  assumes "enumerates ks tags" and "\<And>k. k \<in> dom tags \<Longrightarrow> k \<noteq> '''' \<and> CHR ''='' \<notin> set k"
  shows "UnmarshalTags (MarshalTags tags ks) = Inr tags \<and>
    ((\<exists>e. UnmarshalTags ts = Inl e) \<longleftrightarrow> (\<exists>t \<in> set ts. CHR ''='' \<notin> set t \<or> hd t = CHR ''=''))"
proof
  have "unmarshal_loop (MarshalTags tags ks) Map.empty = Inr (\<lambda>k. if k \<in> set ks \<and> tags k \<noteq> None then tags k else None)"
    using assms by (intro unmarshal_marshal) (auto simp: enumerates_def)
  also have "(\<lambda>k. if k \<in> set ks \<and> tags k \<noteq> None then tags k else None) = tags"
    using assms(1) by (auto simp: enumerates_def fun_eq_iff domIff)
  finally show "UnmarshalTags (MarshalTags tags ks) = Inr tags"
    by (simp add: UnmarshalTags_def)
  have "bad_tag t \<longleftrightarrow> CHR ''='' \<notin> set t \<or> hd t = CHR ''=''" for t
    by (cases t) (auto simp: bad_tag_def)
  then show "(\<exists>e. UnmarshalTags ts = Inl e) \<longleftrightarrow> (\<exists>t \<in> set ts. CHR ''='' \<notin> set t \<or> hd t = CHR ''='')"
    by (simp add: UnmarshalTags_def unmarshal_loop_error)
qed

text \<open>Tags whose names and values are all valid UTF-8; the encoder replaces other bytes by U+FFFD.\<close>

definition utf8_tags :: "(string \<rightharpoonup> string) \<Rightarrow> bool" where
  "utf8_tags m \<longleftrightarrow> (\<forall>k v. m k = Some v \<longrightarrow> ValidString k \<and> ValidString v)"

text \<open>C19. Tags set at run time survive a restart if they are valid UTF-8: after SetTags with a tags file succeeds for such tags, an agent
  created with the same tags file and no configured tags starts with exactly these tags; and when
  SetTags fails to write the file, serf's tags are not changed. Assumed of the JSON codec is that what it encodes of valid
  UTF-8 it decodes again, into a configuration without tags (no tags may come back as none at all). Names and values with other bytes, which serf
  accepts, do not survive: the encoder replaces these bytes.\<close>

theorem tags_survive_restart:
  assumes json: "\<And>m d t. js_tags_enc js m = Inr d \<Longrightarrow> utf8_tags m \<Longrightarrow> \<not> nonempty_tags t \<Longrightarrow>
      js_tags_dec js d t = Inr (Some m) \<or> (m = Map.empty \<and> js_tags_dec js d t = Inr t)"
    and utf8: "utf8_tags tags"
    and tf: "cf_TagsFile (ag_agentConf a) = path" "path \<noteq> ''''"
    and conf: "cf_TagsFile conf = path" "cf_KeyringFile conf = ''''" "\<not> nonempty_tags (cf_Tags conf)"
      "\<not> nonempty_tags (sc_Tags sconf)"
    and readable: "fl_read_error fl path = None"
    and set: "Agent_SetTags js serf_SetTags tags a fl = (err, fl', called)"
  shows "(called \<longrightarrow> (\<exists>a'. Agent_Create js keyring fl' conf sconf = Inr a' \<and>
      (case sc_Tags (ag_conf a') of None \<Rightarrow> Map.empty | Some t \<Rightarrow> t) = tags)) \<and>
    (err \<noteq> None \<and> serf_SetTags tags = None \<longrightarrow> \<not> called)"
proof (intro conjI impI)
  assume c: called
  obtain d where d: "js_tags_enc js tags = Inr d" and fl': "fl' = fl\<lparr>fl_data := (fl_data fl)(path \<mapsto> d)\<rparr>"
    using set c tf
    by (auto simp: Agent_SetTags_def writeTagsFile_def Let_def split: sum.splits option.splits prod.splits if_splits)
  have "ReadFile fl' path = Inr d"
    using readable by (simp add: ReadFile_def fl')
  moreover obtain t where "js_tags_dec js d (sc_Tags sconf) = Inr t" "(case t of None \<Rightarrow> Map.empty | Some t \<Rightarrow> t) = tags"
    using json [OF d utf8 conf(4)] conf(4) by (auto simp: nonempty_tags_def split: option.splits)
  ultimately show "\<exists>a'. Agent_Create js keyring fl' conf sconf = Inr a' \<and>
      (case sc_Tags (ag_conf a') of None \<Rightarrow> Map.empty | Some t \<Rightarrow> t) = tags"
    using conf tf by (simp add: Agent_Create_def loadTagsFile_def new_agent_def Let_def fl')
next
  assume "err \<noteq> None \<and> serf_SetTags tags = None"
  then show "\<not> called"
    using set by (auto simp: Agent_SetTags_def split: option.splits prod.splits if_splits)
qed

definition demo_json :: json where
  "demo_json =
     \<lparr>js_tags_dec = (\<lambda>d t. if d = ''json'' then Inr (Some [''role'' \<mapsto> ''web'']) else Inl ''bad''),
      js_tags_enc = (\<lambda>m. if m = [''role'' \<mapsto> ''web''] then Inr ''json'' else Inl ''unsupported''),
      js_keys_dec = (\<lambda>d. Inl ''bad'')\<rparr>"

definition no_files :: files where
  "no_files = \<lparr>fl_data = Map.empty, fl_read_error = Map.empty, fl_write_error = Map.empty\<rparr>"

definition tags_conf :: Config where
  "tags_conf = zero_Config\<lparr>cf_TagsFile := ''tags.json''\<rparr>"

lemma tags_conf_fields:
  "cf_TagsFile tags_conf = ''tags.json''" "cf_KeyringFile tags_conf = ''''" "\<not> nonempty_tags (cf_Tags tags_conf)"
  by (simp_all add: tags_conf_def zero_Config_def nonempty_tags_def)

theorem tags_survive_restart_witness:
  "\<exists>fl' a'. Agent_SetTags demo_json (\<lambda>t. None) [''role'' \<mapsto> ''web''] (new_agent tags_conf \<lparr>sc_Tags = None, sc_Keyring = None\<rparr> :: nat agent) no_files
       = (None, fl', True) \<and>
     Agent_Create demo_json (\<lambda>ks k. Inr ks) fl' tags_conf \<lparr>sc_Tags = None, sc_Keyring = None\<rparr> = Inr (a' :: nat agent) \<and>
     (case sc_Tags (ag_conf a') of None \<Rightarrow> Map.empty | Some t \<Rightarrow> t) = [''role'' \<mapsto> ''web'']"
proof -
  let ?a = "new_agent tags_conf \<lparr>sc_Tags = None, sc_Keyring = None\<rparr> :: nat agent"
  have j: "js_tags_enc demo_json m = Inr d \<Longrightarrow> js_tags_dec demo_json d t = Inr (Some m) \<or> (m = Map.empty \<and> js_tags_dec demo_json d t = Inr t)"
    for m d t
    by (auto simp: demo_json_def split: if_splits)
  have "ValidString ''role''" "ValidString ''web''"
    by (simp_all add: ValidString_def utf8_rest_def)
  then have u: "utf8_tags [''role'' \<mapsto> ''web'']"
    by (simp add: utf8_tags_def)
  have f: "cf_TagsFile (ag_agentConf ?a) = ''tags.json''"
    by (simp add: new_agent_def tags_conf_fields)
  obtain fl' where s: "Agent_SetTags demo_json (\<lambda>t. None) [''role'' \<mapsto> ''web''] ?a no_files = (None, fl', True)"
    by (simp add: Agent_SetTags_def writeTagsFile_def f demo_json_def no_files_def)
  have e: "\<not> nonempty_tags (sc_Tags \<lparr>sc_Tags = None, sc_Keyring = None\<rparr>)" and r: "fl_read_error no_files ''tags.json'' = None"
    by (simp_all add: nonempty_tags_def no_files_def)
  show ?thesis
    using tags_survive_restart [OF j u f _ tags_conf_fields e r s] s by blast
qed

text \<open>What one handler should hear of a run of the loop.\<close>

fun heard :: "'h \<Rightarrow> bool \<Rightarrow> bool \<Rightarrow> ('h, 'e) loop_act list \<Rightarrow> 'e list" where
  "heard h reg running [] = []"
| "heard h reg running (Register x # as) = heard h (reg \<or> x = h) running as"
| "heard h reg running (Deregister x # as) = heard h (reg \<and> x \<noteq> h) running as"
| "heard h reg running (LoopEvent e # as) = (if running \<and> reg then [e] else []) @ heard h reg running as"
| "heard h reg running (LoopSerfShutdown err # as) = heard h reg False as"
| "heard h reg running (LoopShutdownCh # as) = heard h reg False as"

definition agent_inv :: "'h agent \<Rightarrow> bool" where
  "agent_inv a \<longleftrightarrow> finite (ag_eventHandlers a) \<and> distinct (ag_eventHandlerList a) \<and>
     set (ag_eventHandlerList a) = ag_eventHandlers a \<and> (ag_shutdownCh_closed a \<longleftrightarrow> ag_shutdown a)"

lemma agent_inv_ops [wf_intros]:
  assumes "\<And>hs. finite hs \<Longrightarrow> distinct (order hs) \<and> set (order hs) = hs"
  shows "agent_inv a \<Longrightarrow> agent_inv (Agent_RegisterEventHandler order h a)"
    and "agent_inv a \<Longrightarrow> agent_inv (Agent_DeregisterEventHandler order h a)"
  using assms by (auto simp: agent_inv_def Agent_RegisterEventHandler_def Agent_DeregisterEventHandler_def Let_def)

lemma Shutdown_inv:
  "agent_inv a \<Longrightarrow> \<exists>r a'. Agent_Shutdown err a = Ret (r, a') \<and> agent_inv a' \<and>
     ag_eventHandlers a' = ag_eventHandlers a \<and> (r = None \<longrightarrow> ag_shutdown a')"
  by (auto simp: agent_inv_def Agent_Shutdown_def)

lemma one_delivery:
  "distinct hs \<Longrightarrow> map snd (filter (\<lambda>d. fst d = h) (map (\<lambda>eh. (eh, e)) hs)) = (if h \<in> set hs then [e] else [])"
  by (induction hs) (auto simp: filter_empty_conv)

lemma eventLoop_heard:
  assumes ord: "\<And>hs. finite hs \<Longrightarrow> distinct (order hs) \<and> set (order hs) = hs"
  shows "agent_inv a \<Longrightarrow> \<exists>ds a'. eventLoop order as running a = Ret (ds, a') \<and> agent_inv a' \<and>
    (\<forall>h. map snd (filter (\<lambda>d. fst d = h) ds) = heard h (h \<in> ag_eventHandlers a) running as)"
proof (induction as arbitrary: running a)
  case Nil
  then show ?case by simp
next
  case (Cons act as)
  show ?case
  proof (cases act)
    case (Register x)
    have "h \<in> ag_eventHandlers (Agent_RegisterEventHandler order x a) \<longleftrightarrow> h \<in> ag_eventHandlers a \<or> x = h" for h
      by (auto simp: Agent_RegisterEventHandler_def Let_def)
    with Cons.IH [OF agent_inv_ops(1) [OF ord Cons.prems, of x], of running] Register show ?thesis by simp
  next
    case (Deregister x)
    have "h \<in> ag_eventHandlers (Agent_DeregisterEventHandler order x a) \<longleftrightarrow> h \<in> ag_eventHandlers a \<and> x \<noteq> h" for h
      by (auto simp: Agent_DeregisterEventHandler_def Let_def)
    with Cons.IH [OF agent_inv_ops(2) [OF ord Cons.prems, of x], of running] Deregister show ?thesis by simp
  next
    case (LoopEvent e)
    show ?thesis
    proof (cases running)
      case True
      obtain ds a' where r: "eventLoop order as True a = Ret (ds, a')" "agent_inv a'"
          "\<forall>h. map snd (filter (\<lambda>d. fst d = h) ds) = heard h (h \<in> ag_eventHandlers a) True as"
        using Cons.IH [OF Cons.prems] by blast
      have "distinct (ag_eventHandlerList a)" "set (ag_eventHandlerList a) = ag_eventHandlers a"
        using Cons.prems by (simp_all add: agent_inv_def)
      then show ?thesis
        using r True by (simp add: LoopEvent one_delivery)
    next
      case False
      with Cons.IH [OF Cons.prems, of False] show ?thesis by (simp add: LoopEvent)
    qed
  next
    case (LoopSerfShutdown err)
    obtain r a1 where s: "Agent_Shutdown err a = Ret (r, a1)" "agent_inv a1" "ag_eventHandlers a1 = ag_eventHandlers a"
      using Shutdown_inv [OF Cons.prems] by blast
    show ?thesis
      using Cons.IH [OF s(2), of False] Cons.IH [OF Cons.prems, of False] s
      by (cases running) (simp_all add: LoopSerfShutdown)
  next
    case LoopShutdownCh
    with Cons.IH [OF Cons.prems, of False] show ?thesis by simp
  qed
qed


definition nat_order :: "nat set \<Rightarrow> nat list" where
  "nat_order hs = sorted_list_of_set hs"


end
