(* ===== verification/CacheFile.thy ===== *)
theory CacheFile
  imports Cache Agent
begin

text \<open>
  Saving the cache to a file and loading it back (\<^verbatim>\<open>discoverd/util/cache/cache.go\<close>: \<^verbatim>\<open>Save\<close>, \<^verbatim>\<open>SaveFile\<close>,
  \<^verbatim>\<open>LoadFile\<close>). The gob encoder is a parameter: what it writes, and its error or panic; so is whether an
  object's type can be registered with it.
\<close>

text \<open>\<open>ks\<close> are the keys in the order of the loop; a panic of the encoder is recovered, what it wrote before stays.\<close>

record 'a gob =
  gob_registers :: "'a \<Rightarrow> bool"
  gob_writes :: "(string \<rightharpoonup> 'a item) \<Rightarrow> string"
  gob_result :: "(string \<rightharpoonup> 'a item) \<Rightarrow> string option go"
  gob_decode :: "string \<Rightarrow> string + (string \<rightharpoonup> 'a item)"

definition gob_panic :: string where
  "gob_panic = ''Error registering item types with Gob library''"

definition cache_Save :: "'a gob \<Rightarrow> string list \<Rightarrow> ('a, 'h) cache \<Rightarrow> string option \<times> string" where
  "cache_Save gob ks c =
     (if list_ex (\<lambda>k. case items c k of None \<Rightarrow> False | Some v \<Rightarrow> \<not> gob_registers gob (Object v)) ks then (Some gob_panic, '''')
      else (case gob_result gob (items c) of
              Panic \<Rightarrow> (Some gob_panic, gob_writes gob (items c))
            | Ret err \<Rightarrow> (err, gob_writes gob (items c))))"

text \<open>Creating truncates the file; \<open>close_err\<close> is the error of closing it.\<close>

definition cache_SaveFile ::
  "'a gob \<Rightarrow> string list \<Rightarrow> string option \<Rightarrow> string \<Rightarrow> ('a, 'h) cache \<Rightarrow> files \<Rightarrow> string option \<times> files" where
  "cache_SaveFile gob ks close_err fname c fl =
     (case fl_write_error fl fname of
        Some err \<Rightarrow> (Some err, fl)
      | None \<Rightarrow>
          (let (err, written) = cache_Save gob ks c; fl' = fl\<lparr>fl_data := (fl_data fl)(fname \<mapsto> written)\<rparr>
           in case err of Some e \<Rightarrow> (Some e, fl') | None \<Rightarrow> (close_err, fl')))"

definition cache_LoadFile ::
  "'a gob \<Rightarrow> string option \<Rightarrow> string list \<Rightarrow> (string \<Rightarrow> time) \<Rightarrow> string \<Rightarrow> files \<Rightarrow> ('a, 'h) cache \<Rightarrow>
   (string + unit) \<times> ('a, 'h) cache" where
  "cache_LoadFile gob close_err ks nowf fname fl c =
     (case ReadFile fl fname of
        Inl err \<Rightarrow> (Inl err, c)
      | Inr d \<Rightarrow>
          (case cache_Load (gob_decode gob) d ks nowf c of
             (Inl err, c') \<Rightarrow> (Inl err, c')
           | (Inr u, c') \<Rightarrow> ((case close_err of None \<Rightarrow> Inr () | Some e \<Rightarrow> Inl e), c')))"

text \<open>A cache saved without an error and loaded into another: from then on a key that was unexpired in the
  receiving cache when the loop visited it is answered as before, any other key as by the saved cache.\<close>

lemma cache_file_roundtrip:
  assumes save: "cache_SaveFile gob ks None fname c fl = (None, fl')" and read: "fl_read_error fl fname = None"
    and gob: "gob_decode gob (gob_writes gob (items c)) = Inr (items c)"
    and ks: "enumerates ks (items c)" and late: "\<forall>k. nowf k \<le> t"
  shows "\<exists>c''. cache_LoadFile gob None ks nowf fname fl' c' = (Inr (), c'') \<and>
    (\<forall>k. cache_Get k t c'' = (if unexpired_map nowf (items c') k = None then cache_Get k t c else cache_Get k t c'))"
proof -
  have fl': "fl_data fl' fname = Some (gob_writes gob (items c))" "fl_read_error fl' = fl_read_error fl"
    using save by (auto simp: cache_SaveFile_def cache_Save_def Let_def split: option.splits if_splits go.splits)
  let ?c = "load_loop nowf (items c) ks c'"
  have "cache_LoadFile gob None ks nowf fname fl' c' = (Inr (), ?c)"
    using fl' read gob by (simp add: cache_LoadFile_def ReadFile_def cache_Load_def)
  moreover have "cache_Get k t ?c = (if unexpired_map nowf (items c') k = None then cache_Get k t c else cache_Get k t c')" for k
  proof -
    have "unexpired_map nowf (items c') k = None \<Longrightarrow> items c k = None \<Longrightarrow> cache_Get k t c' = None"
      using spec [OF late, of k] by (auto simp: unexpired_map_def cache_Get_def cache_get_def item_Expired_def split: option.splits if_splits)
    then show ?thesis
      using ks late
      by (auto simp: load_loop_items enumerates_def cache_Get_def cache_get_def domIff)
  qed
  ultimately show ?thesis by blast
qed

end
