(* ===== verification/IpcData.thy ===== *)
theory IpcData
  imports Gossip Logs Agent
begin

text \<open>
  The data of the agent's IPC protocol (\<^verbatim>\<open>command/agent/ipc.go\<close>): commands, error texts, requests,
  responses, the state of a connected client and of the server, and the environment (serf, regular
  expressions, decoders) as a record of functions. Event and log streams live in tables indexed by
  identities, because the client, the agent's list of handlers and the log writer refer to the same
  stream.
\<close>

section \<open>Constants\<close>

definition MinIPCVersion :: int where "MinIPCVersion = 1"
definition MaxIPCVersion :: int where "MaxIPCVersion = 1"

definition handshakeCommand :: string where "handshakeCommand = ''handshake''"
definition eventCommand :: string where "eventCommand = ''event''"
definition forceLeaveCommand :: string where "forceLeaveCommand = ''force-leave''"
definition joinCommand :: string where "joinCommand = ''join''"
definition membersCommand :: string where "membersCommand = ''members''"
definition membersFilteredCommand :: string where "membersFilteredCommand = ''members-filtered''"
definition streamCommand :: string where "streamCommand = ''stream''"
definition stopCommand :: string where "stopCommand = ''stop''"
definition monitorCommand :: string where "monitorCommand = ''monitor''"
definition leaveCommand :: string where "leaveCommand = ''leave''"
definition installKeyCommand :: string where "installKeyCommand = ''install-key''"
definition useKeyCommand :: string where "useKeyCommand = ''use-key''"
definition removeKeyCommand :: string where "removeKeyCommand = ''remove-key''"
definition listKeysCommand :: string where "listKeysCommand = ''list-keys''"
definition tagsCommand :: string where "tagsCommand = ''tags''"
definition queryCommand :: string where "queryCommand = ''query''"
definition respondCommand :: string where "respondCommand = ''respond''"
definition authCommand :: string where "authCommand = ''auth''"
definition statsCommand :: string where "statsCommand = ''stats''"
definition listMicroAppsCommand :: string where "listMicroAppsCommand = ''list-microapps''"
definition listRoutersCommand :: string where "listRoutersCommand = ''list-routers''"
definition updateRoutersCommand :: string where "updateRoutersCommand = ''update-routers''"
definition getCoordinateCommand :: string where "getCoordinateCommand = ''get-coordinate''"

lemmas command_defs = handshakeCommand_def eventCommand_def forceLeaveCommand_def joinCommand_def
  membersCommand_def membersFilteredCommand_def streamCommand_def stopCommand_def monitorCommand_def
  leaveCommand_def installKeyCommand_def useKeyCommand_def removeKeyCommand_def listKeysCommand_def
  tagsCommand_def queryCommand_def respondCommand_def authCommand_def statsCommand_def
  listMicroAppsCommand_def listRoutersCommand_def updateRoutersCommand_def getCoordinateCommand_def

definition unsupportedCommand :: string where "unsupportedCommand = ''Unsupported command''"
definition unsupportedIPCVersion :: string where "unsupportedIPCVersion = ''Unsupported IPC version''"
definition duplicateHandshake :: string where "duplicateHandshake = ''Handshake already performed''"
definition handshakeRequired :: string where "handshakeRequired = ''Handshake required''"
definition monitorExists :: string where "monitorExists = ''Monitor already exists''"
definition invalidFilter :: string where "invalidFilter = ''Invalid event filter''"
definition streamExists :: string where "streamExists = ''Stream with given sequence exists''"
definition invalidQueryID :: string where "invalidQueryID = ''No pending queries matching ID''"
definition authRequired :: string where "authRequired = ''Authentication required''"
definition invalidAuthToken :: string where "invalidAuthToken = ''Invalid authentication token''"

definition queryRecordAck :: string where "queryRecordAck = ''ack''"
definition queryRecordResponse :: string where "queryRecordResponse = ''response''"
definition queryRecordDone :: string where "queryRecordDone = ''done''"

section \<open>Messages\<close>

record requestHeader =
  rh_Command :: string
  rh_Seq :: uint64

record responseHeader =
  rsp_Seq :: uint64
  rsp_Error :: string

record eventRequest =
  evr_Name :: string
  evr_Payload :: string
  evr_Coalesce :: bool

record joinRequest =
  jr_Existing :: "string list"
  jr_Replay :: bool

record membersFilteredRequest =
  mf_Tags :: "string \<rightharpoonup> string"
  mf_Status :: string
  mf_Name :: string

record keyResponse =
  kr_Messages :: "string \<rightharpoonup> string"
  kr_Keys :: "string \<rightharpoonup> int"
  kr_NumNodes :: int
  kr_NumErr :: int
  kr_NumResp :: int

record tagsRequest =
  tr_Tags :: "string \<rightharpoonup> string"
  tr_DeleteTags :: "string list"

record queryRequest =
  qr_FilterNodes :: "string list"
  qr_FilterTags :: "string \<rightharpoonup> string"
  qr_RequestAck :: bool
  qr_Timeout :: duration
  qr_Name :: string
  qr_Payload :: "string option"

record QueryParam =
  qp_FilterNodes :: "string list"
  qp_FilterTags :: "string \<rightharpoonup> string"
  qp_RequestAck :: bool
  qp_Timeout :: duration

record respondRequest =
  rr_ID :: uint64
  rr_Payload :: string

record queryRecord =
  qrec_Type :: string
  qrec_From :: string
  qrec_Payload :: string

record userEventRecord =
  ue_Event :: string
  ue_LTime :: uint64
  ue_Name :: string
  ue_Payload :: string
  ue_Coalesce :: bool

record queryEventRecord =
  qe_Event :: string
  qe_ID :: uint64
  qe_LTime :: uint64
  qe_Name :: string
  qe_Payload :: string

record IpcMember =
  im_Name :: string
  im_Addr :: string
  im_Port :: "16 word"
  im_Tags :: "string \<rightharpoonup> string"
  im_Status :: string
  im_ProtocolMin :: "8 word"
  im_ProtocolMax :: "8 word"
  im_ProtocolCur :: "8 word"
  im_DelegateMin :: "8 word"
  im_DelegateMax :: "8 word"
  im_DelegateCur :: "8 word"

record memberEventRecord =
  me_Event :: string
  me_Members :: "IpcMember list"

typedecl coordinate

record coordinateResponse =
  co_Coord :: coordinate
  co_Ok :: bool

text \<open>The body that follows a response header, if any.\<close>

datatype reply =
    RJoin int
  | RMembers "IpcMember list"
  | RKeys keyResponse
  | RStats "string \<rightharpoonup> (string \<rightharpoonup> string)"
  | RMicroApps "MicroApp list"
  | RRouters "Router list"
  | RCoordinate coordinateResponse
  | RMemberEvent memberEventRecord
  | RUserEvent userEventRecord
  | RQueryEvent queryEventRecord
  | RQuery queryRecord
  | RLog log_record

section \<open>Clients and the server\<close>

record event_stream =
  evs_eventCh :: "Event chan"
  evs_filters :: "EventFilter list"
  evs_seq :: uint64
  evs_returned :: bool

definition newEventStream :: "EventFilter list \<Rightarrow> uint64 \<Rightarrow> event_stream" where
  "newEventStream filters seq =
     \<lparr>evs_eventCh = make_chan 512, evs_filters = filters, evs_seq = seq, evs_returned = False\<rparr>"

text \<open>\<open>ic_in\<close> is what the client has sent and the server not yet decoded, \<open>ic_out\<close> what the server has
  sent; on a broken connection every send fails.\<close>

record 'w ipc_client =
  ic_name :: string
  ic_in :: "'w list"
  ic_out :: "(responseHeader \<times> reply option) list"
  ic_broken :: bool
  ic_closed :: bool
  ic_queryID :: uint64
  ic_version :: int
  ic_logStreamer :: "(nat \<times> uint64) option"
  ic_eventStreams :: "uint64 \<rightharpoonup> nat"
  ic_pendingQueries :: "uint64 \<rightharpoonup> Query"
  ic_didAuth :: bool

definition new_client :: "string \<Rightarrow> 'w list \<Rightarrow> 'w ipc_client" where
  "new_client name input =
     \<lparr>ic_name = name, ic_in = input, ic_out = [], ic_broken = False, ic_closed = False, ic_queryID = 0,
      ic_version = 0, ic_logStreamer = None, ic_eventStreams = Map.empty,
      ic_pendingQueries = Map.empty, ic_didAuth = False\<rparr>"

text \<open>\<open>ip_evs\<close> and \<open>ip_lss\<close> hold the streams by identity; a log stream carries its level.\<close>

record ipc =
  ip_agent :: "nat agent"
  ip_files :: files
  ip_discoverd :: "discoverd option"
  ip_authKey :: string
  ip_logWriter :: "nat log_writer"
  ip_stop :: bool
  ip_evs :: "nat \<rightharpoonup> event_stream"
  ip_lss :: "nat \<rightharpoonup> string \<times> log_stream"
  ip_next :: nat
  ip_clients :: "string set"

text \<open>Requests to serf, in the order they are made.\<close>

datatype serf_req =
    QUserEvent string string bool
  | QForceLeave string
  | QJoin "string list" bool
  | QInstallKey string | QUseKey string | QRemoveKey string | QListKeys
  | QLeave | QShutdown
  | QSetTags "string \<rightharpoonup> string"
  | QQuery string "string option" QueryParam
  | QRespond Query string

text \<open>The decoders of the request bodies on wire objects, and what serf and the libraries answer. \<open>s_order\<close>, \<open>s_keys\<close> and \<open>s_seqs\<close> are the
  orders of loops over maps; \<open>s_counted d\<close> is the daemon at the moment when its applications were counted, the count being used
  in the state \<open>d\<close>.\<close>

record 'w env =
  d_header :: "'w \<Rightarrow> requestHeader \<Rightarrow> string + requestHeader"
  d_handshake :: "'w \<Rightarrow> string + int"
  d_auth :: "'w \<Rightarrow> string + string"
  d_event :: "'w \<Rightarrow> string + eventRequest"
  d_forceLeave :: "'w \<Rightarrow> string + string"
  d_join :: "'w \<Rightarrow> string + joinRequest"
  d_membersFiltered :: "'w \<Rightarrow> string + membersFilteredRequest"
  d_key :: "'w \<Rightarrow> string + string"
  d_stream :: "'w \<Rightarrow> string + string"
  d_monitor :: "'w \<Rightarrow> string + string"
  d_stop :: "'w \<Rightarrow> string + uint64"
  d_tags :: "'w \<Rightarrow> string + tagsRequest"
  d_query :: "'w \<Rightarrow> string + queryRequest"
  d_respond :: "'w \<Rightarrow> string + respondRequest"
  d_routers :: "'w \<Rightarrow> string + Router list"
  d_coordinate :: "'w \<Rightarrow> string + string"
  s_UserEvent :: "string \<Rightarrow> string \<Rightarrow> bool \<Rightarrow> string option"
  s_RemoveFailedNode :: "string \<Rightarrow> string option"
  s_Join :: "string list \<Rightarrow> bool \<Rightarrow> int \<times> string option"
  s_Members :: "Member list"
  s_status :: "MemberStatus \<Rightarrow> string"
  s_key :: "serf_req \<Rightarrow> keyResponse \<times> string option"
  s_Leave :: "string option"
  s_Shutdown :: "string option"
  s_SetTags :: "(string \<rightharpoonup> string) \<Rightarrow> string option"
  s_internal :: string
  s_Query :: "string \<Rightarrow> string option \<Rightarrow> QueryParam \<Rightarrow> string + nat"
  s_Respond :: "Query \<Rightarrow> string \<Rightarrow> string option"
  s_Stats :: "string \<rightharpoonup> string"
  s_runtime :: "string \<rightharpoonup> string"
  s_local :: Member
  s_coordinate :: "string \<Rightarrow> coordinate option"
  s_no_coordinate :: coordinate
  s_compile :: "string \<Rightarrow> string + (string \<Rightarrow> bool)"
  s_json :: json
  s_conf_after :: "(string \<rightharpoonup> string) \<Rightarrow> serf_config \<Rightarrow> serf_config"
  s_check :: "string \<Rightarrow> string \<Rightarrow> bool"
  s_order :: "nat set \<Rightarrow> nat list"
  s_keys :: "string set \<Rightarrow> string list"
  s_seqs :: "uint64 set \<Rightarrow> uint64 list"
  s_counted :: "discoverd \<Rightarrow> discoverd"

end
