(* ===== verification/Ipc.thy ===== *)
theory Ipc
  imports IpcData
begin

text \<open>
  The agent's IPC server, \<^verbatim>\<open>command/agent/ipc.go\<close>: one definition per handler, the dispatcher with its
  handshake and authentication gates, the loop that serves a client, and the clean-up after it.
  A handler returns its error, the client, the server and the requests it made to serf; \<open>Panic\<close> is a
  run-time panic (closing a closed channel, the discovery daemon missing).
\<close>

section \<open>Sending and decoding\<close>

definition IPCClient_Send :: "responseHeader \<Rightarrow> reply option \<Rightarrow> 'w ipc_client \<Rightarrow> string option \<times> 'w ipc_client" where
  "IPCClient_Send header obj c =
     (if ic_broken c \<or> ic_closed c then (Some ''write failed'', c)
      else (None, c\<lparr>ic_out := ic_out c @ [(header, obj)]\<rparr>))"

definition nextQueryID :: "'w ipc_client \<Rightarrow> uint64 \<times> 'w ipc_client" where
  "nextQueryID c = (ic_queryID c + 1, c\<lparr>ic_queryID := ic_queryID c + 1\<rparr>)"

text \<open>\<open>timeout\<close> is the time left until the query's deadline; \<open>expire_query\<close> is the timer's function.\<close>

definition RegisterQuery :: "int \<Rightarrow> Query \<Rightarrow> 'w ipc_client \<Rightarrow> uint64 \<times> 'w ipc_client" where
  "RegisterQuery timeout q c =
     (let (qid, c1) = nextQueryID c
      in if timeout < 0 then (qid, c1)
         else (qid, c1\<lparr>ic_pendingQueries := (ic_pendingQueries c1)(qid \<mapsto> q)\<rparr>))"

definition expire_query :: "uint64 \<Rightarrow> 'w ipc_client \<Rightarrow> 'w ipc_client" where
  "expire_query qid c = c\<lparr>ic_pendingQueries := (ic_pendingQueries c)(qid := None)\<rparr>"

definition errToString :: "string option \<Rightarrow> string" where
  "errToString err = (case err of None \<Rightarrow> '''' | Some e \<Rightarrow> e)"

type_synonym 'w outcome = "(string option \<times> 'w ipc_client \<times> ipc \<times> serf_req list) go"

definition with_req ::
  "('w \<Rightarrow> string + 'r) \<Rightarrow> 'w ipc_client \<Rightarrow> ipc \<Rightarrow> ('r \<Rightarrow> 'w ipc_client \<Rightarrow> 'w outcome) \<Rightarrow> 'w outcome" where
  "with_req dec c i k =
     (case ic_in c of
        [] \<Rightarrow> Ret (Some ''decode failed: EOF'', c, i, [])
      | w # ws \<Rightarrow>
          (let c1 = c\<lparr>ic_in := ws\<rparr> in
           case dec w of
             Inl err \<Rightarrow> Ret (Some (''decode failed: '' @ err), c1, i, [])
           | Inr req \<Rightarrow> k req c1))"

definition respond ::
  "uint64 \<Rightarrow> string \<Rightarrow> reply option \<Rightarrow> 'w ipc_client \<Rightarrow> ipc \<Rightarrow> serf_req list \<Rightarrow> 'w outcome" where
  "respond seq err obj c i reqs =
     (let (e, c1) = IPCClient_Send \<lparr>rsp_Seq = seq, rsp_Error = err\<rparr> obj c in Ret (e, c1, i, reqs))"

section \<open>Handlers\<close>

definition handleHandshake :: "'w env \<Rightarrow> 'w ipc_client \<Rightarrow> ipc \<Rightarrow> uint64 \<Rightarrow> 'w outcome" where
  "handleHandshake env c i seq =
     with_req (d_handshake env) c i (\<lambda>version c.
       if version < MinIPCVersion \<or> version > MaxIPCVersion then respond seq unsupportedIPCVersion None c i []
       else if ic_version c \<noteq> 0 then respond seq duplicateHandshake None c i []
       else respond seq '''' None (c\<lparr>ic_version := version\<rparr>) i [])"

definition handleAuth :: "'w env \<Rightarrow> 'w ipc_client \<Rightarrow> ipc \<Rightarrow> uint64 \<Rightarrow> 'w outcome" where
  "handleAuth env c i seq =
     with_req (d_auth env) c i (\<lambda>authKey c.
       if authKey = ip_authKey i then respond seq '''' None (c\<lparr>ic_didAuth := True\<rparr>) i []
       else respond seq invalidAuthToken None c i [])"

definition handleEvent :: "'w env \<Rightarrow> 'w ipc_client \<Rightarrow> ipc \<Rightarrow> uint64 \<Rightarrow> 'w outcome" where
  "handleEvent env c i seq =
     with_req (d_event env) c i (\<lambda>req c.
       let err = Agent_UserEvent (s_UserEvent env) (evr_Name req) (evr_Payload req) (evr_Coalesce req)
       in respond seq (errToString err) None c i [QUserEvent (evr_Name req) (evr_Payload req) (evr_Coalesce req)])"

definition handleForceLeave :: "'w env \<Rightarrow> 'w ipc_client \<Rightarrow> ipc \<Rightarrow> uint64 \<Rightarrow> 'w outcome" where
  "handleForceLeave env c i seq =
     with_req (d_forceLeave env) c i (\<lambda>node c.
       let err = Agent_ForceLeave (s_RemoveFailedNode env) node
       in respond seq (errToString err) None c i [QForceLeave node])"

text \<open>\<^verbatim>\<open>int32 (num)\<close> wraps.\<close>

definition int32 :: "int \<Rightarrow> int" where
  "int32 n = sint (word_of_int n :: 32 word)"

definition handleJoin :: "'w env \<Rightarrow> 'w ipc_client \<Rightarrow> ipc \<Rightarrow> uint64 \<Rightarrow> 'w outcome" where
  "handleJoin env c i seq =
     with_req (d_join env) c i (\<lambda>req c.
       let (num, err) = Agent_Join (s_Join env) (jr_Existing req) (jr_Replay req)
       in respond seq (errToString err) (Some (RJoin (int32 num))) c i [QJoin (jr_Existing req) (\<not> jr_Replay req)])"

definition ipc_member :: "(MemberStatus \<Rightarrow> string) \<Rightarrow> Member \<Rightarrow> IpcMember" where
  "ipc_member status m =
     \<lparr>im_Name = m_Name m, im_Addr = m_Addr m, im_Port = m_Port m, im_Tags = m_Tags m, im_Status = status (m_Status m),
      im_ProtocolMin = m_ProtocolMin m, im_ProtocolMax = m_ProtocolMax m, im_ProtocolCur = m_ProtocolCur m,
      im_DelegateMin = m_DelegateMin m, im_DelegateMax = m_DelegateMax m, im_DelegateCur = m_DelegateCur m\<rparr>"

text \<open>The pattern \<^verbatim>\<open>^%s$\<close>.\<close>

definition anchored :: "string \<Rightarrow> string" where
  "anchored expr = ''^'' @ expr @ ''$''"

definition compile_error :: "string \<Rightarrow> string" where
  "compile_error err = ''Failed to compile regex: '' @ err"

fun compile_tags ::
  "(string \<Rightarrow> string + (string \<Rightarrow> bool)) \<Rightarrow> (string \<rightharpoonup> string) \<Rightarrow> string list \<Rightarrow> (string \<rightharpoonup> (string \<Rightarrow> bool)) \<Rightarrow>
   string + (string \<rightharpoonup> (string \<Rightarrow> bool))" where
  "compile_tags compile tags [] tagsRe = Inr tagsRe"
| "compile_tags compile tags (tag # rest) tagsRe =
     (case tags tag of
        None \<Rightarrow> compile_tags compile tags rest tagsRe
      | Some expr \<Rightarrow>
          (case compile (anchored expr) of
             Inl err \<Rightarrow> Inl (compile_error err)
           | Inr re \<Rightarrow> compile_tags compile tags rest (tagsRe(tag \<mapsto> re))))"

text \<open>A regular expression that is not in the table would be a nil pointer; it does not occur.\<close>

definition tags_match :: "(string \<rightharpoonup> (string \<Rightarrow> bool)) \<Rightarrow> string list \<Rightarrow> Member \<Rightarrow> bool" where
  "tags_match tagsRe ks m =
     list_all (\<lambda>tag. case tagsRe tag of None \<Rightarrow> True | Some re \<Rightarrow> re (nil_string (m_Tags m tag))) ks"

definition filterMembers ::
  "(string \<Rightarrow> string + (string \<Rightarrow> bool)) \<Rightarrow> (MemberStatus \<Rightarrow> string) \<Rightarrow> string list \<Rightarrow>
   Member list \<Rightarrow> (string \<rightharpoonup> string) \<Rightarrow> string \<Rightarrow> string \<Rightarrow> string + Member list" where
  "filterMembers compile status_name ks members tags status name =
     (case compile_tags compile tags ks Map.empty of
        Inl err \<Rightarrow> Inl err
      | Inr tagsRe \<Rightarrow>
          (case compile (anchored status) of
             Inl err \<Rightarrow> Inl (compile_error err)
           | Inr statusRe \<Rightarrow>
               (case compile (anchored name) of
                  Inl err \<Rightarrow> Inl (compile_error err)
                | Inr nameRe \<Rightarrow>
                    Inr (filter (\<lambda>m.
                      tags_match tagsRe ks m \<and>
                      \<not> (status \<noteq> '''' \<and> \<not> statusRe (status_name (m_Status m))) \<and>
                      \<not> (name \<noteq> '''' \<and> \<not> nameRe (m_Name m))) members))))"

definition handleMembers :: "'w env \<Rightarrow> string \<Rightarrow> 'w ipc_client \<Rightarrow> ipc \<Rightarrow> uint64 \<Rightarrow> 'w outcome" where
  "handleMembers env command c i seq =
     (let raw = s_Members env;
          finish = (\<lambda>raw c. respond seq '''' (Some (RMembers (map (ipc_member (s_status env)) raw))) c i [])
      in if command = membersFilteredCommand then
           with_req (d_membersFiltered env) c i (\<lambda>req c.
             case filterMembers (s_compile env) (s_status env) (s_keys env (dom (mf_Tags req))) raw
                    (mf_Tags req) (mf_Status req) (mf_Name req) of
               Inl err \<Rightarrow> Ret (Some err, c, i, [])
             | Inr raw' \<Rightarrow> finish raw' c)
         else finish raw c)"

definition key_reply :: "keyResponse \<Rightarrow> keyResponse" where
  "key_reply r = r\<lparr>kr_Keys := Map.empty\<rparr>"

text \<open>The agent's key operations, on serf's key manager.\<close>

definition Agent_InstallKey :: "(serf_req \<Rightarrow> keyResponse \<times> string option) \<Rightarrow> string \<Rightarrow> keyResponse \<times> string option" where
  Agent_InstallKey_def [simp]: "Agent_InstallKey serf_key key = serf_key (QInstallKey key)"

definition Agent_UseKey :: "(serf_req \<Rightarrow> keyResponse \<times> string option) \<Rightarrow> string \<Rightarrow> keyResponse \<times> string option" where
  Agent_UseKey_def [simp]: "Agent_UseKey serf_key key = serf_key (QUseKey key)"

definition Agent_RemoveKey :: "(serf_req \<Rightarrow> keyResponse \<times> string option) \<Rightarrow> string \<Rightarrow> keyResponse \<times> string option" where
  Agent_RemoveKey_def [simp]: "Agent_RemoveKey serf_key key = serf_key (QRemoveKey key)"

definition Agent_ListKeys :: "(serf_req \<Rightarrow> keyResponse \<times> string option) \<Rightarrow> keyResponse \<times> string option" where
  Agent_ListKeys_def [simp]: "Agent_ListKeys serf_key = serf_key QListKeys"

text \<open>The three handlers that take a key differ in the agent's operation only.\<close>

definition handleKey ::
  "((serf_req \<Rightarrow> keyResponse \<times> string option) \<Rightarrow> string \<Rightarrow> keyResponse \<times> string option) \<Rightarrow> (string \<Rightarrow> serf_req) \<Rightarrow>
   'w env \<Rightarrow> 'w ipc_client \<Rightarrow> ipc \<Rightarrow> uint64 \<Rightarrow> 'w outcome" where
  "handleKey op asked env c i seq =
     with_req (d_key env) c i (\<lambda>key c.
       let (resp, err) = op (s_key env) key
       in respond seq (errToString err) (Some (RKeys (key_reply resp))) c i [asked key])"

definition handleInstallKey :: "'w env \<Rightarrow> 'w ipc_client \<Rightarrow> ipc \<Rightarrow> uint64 \<Rightarrow> 'w outcome" where
  "handleInstallKey = handleKey Agent_InstallKey QInstallKey"

definition handleUseKey :: "'w env \<Rightarrow> 'w ipc_client \<Rightarrow> ipc \<Rightarrow> uint64 \<Rightarrow> 'w outcome" where
  "handleUseKey = handleKey Agent_UseKey QUseKey"

definition handleRemoveKey :: "'w env \<Rightarrow> 'w ipc_client \<Rightarrow> ipc \<Rightarrow> uint64 \<Rightarrow> 'w outcome" where
  "handleRemoveKey = handleKey Agent_RemoveKey QRemoveKey"

definition handleListKeys :: "'w env \<Rightarrow> 'w ipc_client \<Rightarrow> ipc \<Rightarrow> uint64 \<Rightarrow> 'w outcome" where
  "handleListKeys env c i seq =
     (let (resp, err) = Agent_ListKeys (s_key env)
      in respond seq (errToString err) (Some (RKeys resp)) c i [QListKeys])"

text \<open>The response is sent before the stream is registered (the registration is deferred).\<close>

definition handleStream :: "'w env \<Rightarrow> 'w ipc_client \<Rightarrow> ipc \<Rightarrow> uint64 \<Rightarrow> 'w outcome" where
  "handleStream env c i seq =
     with_req (d_stream env) c i (\<lambda>ty c.
       let filters = ParseEventFilter ty in
       if list_ex (\<lambda>f. \<not> EventFilter_Valid f) filters then respond seq invalidFilter None c i []
       else if ic_eventStreams c seq \<noteq> None then respond seq streamExists None c i []
       else
         (let es = ip_next i;
              c1 = c\<lparr>ic_eventStreams := (ic_eventStreams c)(seq \<mapsto> es)\<rparr>;
              i1 = i\<lparr>ip_evs := (ip_evs i)(es \<mapsto> newEventStream filters seq), ip_next := Suc es\<rparr>
          in respond seq '''' None c1 (i1\<lparr>ip_agent := Agent_RegisterEventHandler (s_order env) es (ip_agent i1)\<rparr>) []))"

text \<open>The lines the log writer hands to its handlers, applied to the streams.\<close>

fun deliver_logs :: "'w env \<Rightarrow> (nat \<times> string) list \<Rightarrow> ipc \<Rightarrow> ipc go" where
  "deliver_logs env [] i = Ret i"
| "deliver_logs env ((h, line) # ds) i =
     (case ip_lss i h of
        None \<Rightarrow> deliver_logs env ds i
      | Some (level, ls) \<Rightarrow>
          go_bind (ls_HandleLog (s_check env level) line ls)
            (\<lambda>ls'. deliver_logs env ds (i\<lparr>ip_lss := (ip_lss i)(h \<mapsto> (level, ls'))\<rparr>)))"

definition handleMonitor :: "'w env \<Rightarrow> 'w ipc_client \<Rightarrow> ipc \<Rightarrow> uint64 \<Rightarrow> 'w outcome" where
  "handleMonitor env c i seq =
     with_req (d_monitor env) c i (\<lambda>logLevel c.
       let level = ToUpper logLevel; filter = LevelFilter\<lparr>lf_MinLevel := level\<rparr> in
       if \<not> ValidateLevelFilter level filter then respond seq (''Unknown log level: '' @ level) None c i []
       else if ic_logStreamer c \<noteq> None then respond seq monitorExists None c i []
       else
         (let ls = ip_next i;
              c1 = c\<lparr>ic_logStreamer := Some (ls, seq)\<rparr>;
              i1 = i\<lparr>ip_lss := (ip_lss i)(ls \<mapsto> (level, newLogStream seq)), ip_next := Suc ls\<rparr>
          in go_bind (respond seq '''' None c1 i1 []) (\<lambda>(e, c2, i2, reqs).
             go_bind (lw_RegisterHandler ls (ip_logWriter i2)) (\<lambda>(ds, lw).
             go_bind (deliver_logs env ds (i2\<lparr>ip_logWriter := lw\<rparr>)) (\<lambda>i3.
               Ret (e, c2, i3, reqs))))))"

definition stop_log_stream :: "nat \<Rightarrow> ipc \<Rightarrow> ipc go" where
  "stop_log_stream ls i =
     (let i1 = i\<lparr>ip_logWriter := lw_DeregisterHandler ls (ip_logWriter i)\<rparr> in
      case ip_lss i1 ls of
        None \<Rightarrow> Ret i1
      | Some (level, s) \<Rightarrow>
          go_bind (ls_Stop s) (\<lambda>s'. Ret (i1\<lparr>ip_lss := (ip_lss i1)(ls \<mapsto> (level, s'))\<rparr>)))"

definition es_Stop :: "event_stream \<Rightarrow> event_stream go" where
  "es_Stop es = go_bind (close_chan (evs_eventCh es)) (\<lambda>c. Ret (es\<lparr>evs_eventCh := c\<rparr>))"

definition stop_event_stream :: "'w env \<Rightarrow> nat \<Rightarrow> ipc \<Rightarrow> ipc go" where
  "stop_event_stream env es i =
     (let i1 = i\<lparr>ip_agent := Agent_DeregisterEventHandler (s_order env) es (ip_agent i)\<rparr> in
      case ip_evs i1 es of
        None \<Rightarrow> Ret i1
      | Some s \<Rightarrow> go_bind (es_Stop s) (\<lambda>s'. Ret (i1\<lparr>ip_evs := (ip_evs i1)(es \<mapsto> s')\<rparr>)))"

definition handleStop :: "'w env \<Rightarrow> 'w ipc_client \<Rightarrow> ipc \<Rightarrow> uint64 \<Rightarrow> 'w outcome" where
  "handleStop env c i seq =
     with_req (d_stop env) c i (\<lambda>stop c.
       go_bind
         (case ic_logStreamer c of
            Some (ls, s) \<Rightarrow>
              if s = stop then go_bind (stop_log_stream ls i) (\<lambda>i1. Ret (c\<lparr>ic_logStreamer := None\<rparr>, i1))
              else Ret (c, i)
          | None \<Rightarrow> Ret (c, i))
         (\<lambda>(c1, i1).
       go_bind
         (case ic_eventStreams c1 stop of
            Some es \<Rightarrow>
              go_bind (stop_event_stream env es i1)
                (\<lambda>i2. Ret (c1\<lparr>ic_eventStreams := (ic_eventStreams c1)(stop := None)\<rparr>, i2))
          | None \<Rightarrow> Ret (c1, i1))
         (\<lambda>(c2, i2). respond seq '''' None c2 i2 [])))"

definition handleLeave :: "'w env \<Rightarrow> 'w ipc_client \<Rightarrow> ipc \<Rightarrow> uint64 \<Rightarrow> 'w outcome" where
  "handleLeave env c i seq =
     (let err = Agent_Leave (s_Leave env) (ip_agent i) in
      go_bind (respond seq (errToString err) None c i [QLeave]) (\<lambda>(e, c1, i1, reqs).
      go_bind (Agent_Shutdown (s_Shutdown env) (ip_agent i1)) (\<lambda>(_, a).
        Ret (e, c1, i1\<lparr>ip_agent := a\<rparr>, reqs @ [QShutdown]))))"

text \<open>The tags in force less the deleted ones, with the new ones on top.\<close>

definition updated_tags :: "(string \<rightharpoonup> string) option \<Rightarrow> tagsRequest \<Rightarrow> (string \<rightharpoonup> string)" where
  "updated_tags old req =
     (\<lambda>k. case tr_Tags req k of
            Some v \<Rightarrow> Some v
          | None \<Rightarrow> if list_ex (\<lambda>d. d = k) (tr_DeleteTags req) then None
                    else (case old of None \<Rightarrow> None | Some m \<Rightarrow> m k))"

definition handleTags :: "'w env \<Rightarrow> 'w ipc_client \<Rightarrow> ipc \<Rightarrow> uint64 \<Rightarrow> 'w outcome" where
  "handleTags env c i seq =
     with_req (d_tags env) c i (\<lambda>req c.
       let tags = updated_tags (sc_Tags (ag_conf (ip_agent i))) req;
           (err, fl, called) = Agent_SetTags (s_json env) (s_SetTags env) tags (ip_agent i) (ip_files i);
           a = (if called then (ip_agent i)\<lparr>ag_conf := s_conf_after env tags (ag_conf (ip_agent i))\<rparr> else ip_agent i)
       in respond seq (errToString err) None c (i\<lparr>ip_files := fl, ip_agent := a\<rparr>) (if called then [QSetTags tags] else []))"

text \<open>The stream of the query's results is started after the response; it is \<open>qs_Stream\<close> of theory
  \<^verbatim>\<open>IpcStreams\<close>.\<close>

definition handleQuery :: "'w env \<Rightarrow> 'w ipc_client \<Rightarrow> ipc \<Rightarrow> uint64 \<Rightarrow> 'w outcome" where
  "handleQuery env c i seq =
     with_req (d_query env) c i (\<lambda>req c.
       let params = \<lparr>qp_FilterNodes = qr_FilterNodes req, qp_FilterTags = qr_FilterTags req,
                     qp_RequestAck = qr_RequestAck req, qp_Timeout = qr_Timeout req\<rparr>;
           r = Agent_Query (s_internal env) (\<lambda>n p q. Inr (s_Query env n p q)) (qr_Name req) (qr_Payload req) params
       in case r of
            Inl err \<Rightarrow> respond seq err None c i []
          | Inr (Inl err) \<Rightarrow> respond seq err None c i [QQuery (qr_Name req) (qr_Payload req) params]
          | Inr (Inr _) \<Rightarrow> respond seq '''' None c i [QQuery (qr_Name req) (qr_Payload req) params])"

definition handleRespond :: "'w env \<Rightarrow> 'w ipc_client \<Rightarrow> ipc \<Rightarrow> uint64 \<Rightarrow> 'w outcome" where
  "handleRespond env c i seq =
     with_req (d_respond env) c i (\<lambda>req c.
       case ic_pendingQueries c (rr_ID req) of
         Some query \<Rightarrow>
           respond seq (errToString (s_Respond env query (rr_Payload req))) None c i [QRespond query (rr_Payload req)]
       | None \<Rightarrow> respond seq invalidQueryID None c i [])"

definition handleStats :: "'w env \<Rightarrow> 'w ipc_client \<Rightarrow> ipc \<Rightarrow> uint64 \<Rightarrow> 'w outcome" where
  "handleStats env c i seq =
     respond seq '''' (Some (RStats (Agent_Stats (s_runtime env) (s_Stats env) (s_local env) (ip_agent i)))) c i []"

text \<open>Called before the daemon is attached, these three dereference nil.\<close>

definition handleListMicroApps :: "'w env \<Rightarrow> 'w ipc_client \<Rightarrow> ipc \<Rightarrow> uint64 \<Rightarrow> 'w outcome" where
  "handleListMicroApps env c i seq =
     (case ip_discoverd i of
        None \<Rightarrow> Panic
      | Some d \<Rightarrow>
          go_bind (Discoverd_ListMicroApps (s_counted env d) (s_keys env (dom (items (apps (d_repo d))))) d)
            (\<lambda>resp. respond seq '''' (Some (RMicroApps resp)) c i []))"

definition handleListRouters :: "'w env \<Rightarrow> 'w ipc_client \<Rightarrow> ipc \<Rightarrow> uint64 \<Rightarrow> 'w outcome" where
  "handleListRouters env c i seq =
     (case ip_discoverd i of
        None \<Rightarrow> Panic
      | Some d \<Rightarrow>
          go_bind (Discoverd_ListRouters (s_keys env (dom (d_table d))) d)
            (\<lambda>resp. respond seq '''' (Some (RRouters resp)) c i []))"

definition handleUpdateRouters :: "'w env \<Rightarrow> 'w ipc_client \<Rightarrow> ipc \<Rightarrow> uint64 \<Rightarrow> 'w outcome" where
  "handleUpdateRouters env c i seq =
     with_req (d_routers env) c i (\<lambda>rs c.
       case ip_discoverd i of
         None \<Rightarrow> Panic
       | Some d \<Rightarrow>
           respond seq '''' None c
             (i\<lparr>ip_discoverd := Some (Discoverd_UpdateRouters (s_keys env (dom (d_table d))) rs d)\<rparr>) [])"

definition handleGetCoordinate :: "'w env \<Rightarrow> 'w ipc_client \<Rightarrow> ipc \<Rightarrow> uint64 \<Rightarrow> 'w outcome" where
  "handleGetCoordinate env c i seq =
     with_req (d_coordinate env) c i (\<lambda>node c.
       let (result, ok) = (case s_coordinate env node of
                             None \<Rightarrow> (s_no_coordinate env, False) | Some co \<Rightarrow> (co, True))
       in respond seq (errToString None) (Some (RCoordinate \<lparr>co_Coord = result, co_Ok = ok\<rparr>)) c i [])"

section \<open>Dispatch\<close>

definition handleRequest :: "'w env \<Rightarrow> 'w ipc_client \<Rightarrow> ipc \<Rightarrow> requestHeader \<Rightarrow> 'w outcome" where
  "handleRequest env c i h =
     (let command = rh_Command h; seq = rh_Seq h in
      if command \<noteq> handshakeCommand \<and> ic_version c = 0 then
        (let (_, c1) = IPCClient_Send \<lparr>rsp_Seq = seq, rsp_Error = handshakeRequired\<rparr> None c
         in Ret (Some handshakeRequired, c1, i, []))
      else if ip_authKey i \<noteq> '''' \<and> \<not> ic_didAuth c \<and> command \<noteq> authCommand \<and> command \<noteq> handshakeCommand then
        (let (_, c1) = IPCClient_Send \<lparr>rsp_Seq = seq, rsp_Error = authRequired\<rparr> None c
         in Ret (None, c1, i, []))
      else if command = handshakeCommand then handleHandshake env c i seq
      else if command = authCommand then handleAuth env c i seq
      else if command = eventCommand then handleEvent env c i seq
      else if command = membersCommand \<or> command = membersFilteredCommand then handleMembers env command c i seq
      else if command = streamCommand then handleStream env c i seq
      else if command = monitorCommand then handleMonitor env c i seq
      else if command = stopCommand then handleStop env c i seq
      else if command = forceLeaveCommand then handleForceLeave env c i seq
      else if command = joinCommand then handleJoin env c i seq
      else if command = leaveCommand then handleLeave env c i seq
      else if command = installKeyCommand then handleInstallKey env c i seq
      else if command = useKeyCommand then handleUseKey env c i seq
      else if command = removeKeyCommand then handleRemoveKey env c i seq
      else if command = listKeysCommand then handleListKeys env c i seq
      else if command = tagsCommand then handleTags env c i seq
      else if command = queryCommand then handleQuery env c i seq
      else if command = respondCommand then handleRespond env c i seq
      else if command = statsCommand then handleStats env c i seq
      else if command = listMicroAppsCommand then handleListMicroApps env c i seq
      else if command = listRoutersCommand then handleListRouters env c i seq
      else if command = updateRoutersCommand then handleUpdateRouters env c i seq
      else if command = getCoordinateCommand then handleGetCoordinate env c i seq
      else
        (let (_, c1) = IPCClient_Send \<lparr>rsp_Seq = seq, rsp_Error = unsupportedCommand\<rparr> None c
         in Ret (Some (''command '' @ [CHR 0x27] @ command @ [CHR 0x27] @ '' not recognized''), c1, i, [])))"

section \<open>Postconditions of handlers\<close>

definition outcome_ok :: "(string option \<Rightarrow> 'w ipc_client \<Rightarrow> ipc \<Rightarrow> bool) \<Rightarrow> 'w outcome \<Rightarrow> bool" where
  "outcome_ok Q out = (case out of Panic \<Rightarrow> False | Ret (e, c, i, reqs) \<Rightarrow> Q e c i)"

lemma outcome_ok_simps [simp]:
  "outcome_ok Q (Ret (e, c, i, reqs)) = Q e c i" "\<not> outcome_ok Q Panic"
  by (simp_all add: outcome_ok_def)

lemma ok_respond:
  "(ic_broken c \<or> ic_closed c \<Longrightarrow> Q (Some ''write failed'') c i) \<Longrightarrow>
   (\<not> (ic_broken c \<or> ic_closed c) \<Longrightarrow> Q None (c\<lparr>ic_out := ic_out c @ [(\<lparr>rsp_Seq = seq, rsp_Error = err\<rparr>, obj)]\<rparr>) i) \<Longrightarrow>
   outcome_ok Q (respond seq err obj c i reqs)"
  by (simp add: respond_def IPCClient_Send_def)

lemma ok_with_req:
  "(\<And>e. Q (Some e) c i) \<Longrightarrow>
   (\<And>w ws e. ic_in c = w # ws \<Longrightarrow> Q (Some e) (c\<lparr>ic_in := ws\<rparr>) i) \<Longrightarrow>
   (\<And>w ws req. ic_in c = w # ws \<Longrightarrow> dec w = Inr req \<Longrightarrow> outcome_ok Q (k req (c\<lparr>ic_in := ws\<rparr>))) \<Longrightarrow>
   outcome_ok Q (with_req dec c i k)"
  by (auto simp: with_req_def Let_def split: list.splits sum.splits)

lemma ok_bind:
  "outcome_ok (\<lambda>e c i. \<forall>reqs. outcome_ok Q (f (e, c, i, reqs))) m \<Longrightarrow> outcome_ok Q (go_bind m f)"
proof (cases m)
  case (Ret x)
  obtain e c i reqs where "x = (e, c, i, reqs)" by (cases x)
  moreover assume "outcome_ok (\<lambda>e c i. \<forall>reqs. outcome_ok Q (f (e, c, i, reqs))) m"
  ultimately show ?thesis using Ret by simp
qed simp

text \<open>A handler answers its request: it takes at most the body from the input, and either sends one
  response under the request's sequence number or sends nothing and fails.\<close>

definition answered :: "uint64 \<Rightarrow> 'w ipc_client \<Rightarrow> string option \<Rightarrow> 'w ipc_client \<Rightarrow> bool" where
  "answered seq c e c' \<longleftrightarrow>
     (\<exists>k \<le> 1. ic_in c' = drop k (ic_in c)) \<and> ic_broken c' = ic_broken c \<and> ic_closed c' = ic_closed c \<and> ic_name c' = ic_name c \<and>
     (if e = None then (\<exists>err obj. ic_out c' = ic_out c @ [(\<lparr>rsp_Seq = seq, rsp_Error = err\<rparr>, obj)])
      else ic_out c' = ic_out c)"

text \<open>What the server keeps of its streams while it serves one client: the agent's handlers are those
  of others (\<open>Ba\<close>) and the client's open event streams, the log writer's are those of others (\<open>Bl\<close>)
  and the client's open log stream.\<close>

definition log_inv ::
  "nat set \<Rightarrow> (nat \<times> uint64) option \<Rightarrow> nat set \<Rightarrow> (nat \<rightharpoonup> string \<times> log_stream) \<Rightarrow> nat \<Rightarrow> bool" where
  "log_inv Bl streamer hs lss nx \<longleftrightarrow>
     (case streamer of
        None \<Rightarrow> hs = Bl
      | Some (ls, seq) \<Rightarrow>
          hs = insert ls Bl \<and> ls \<notin> Bl \<and> ls < nx \<and>
          (\<exists>level s. lss ls = Some (level, s) \<and> \<not> ch_closed (ls_logCh s)))"

definition server_inv :: "nat set \<Rightarrow> nat set \<Rightarrow> 'w ipc_client \<Rightarrow> ipc \<Rightarrow> bool" where
  "server_inv Ba Bl c i \<longleftrightarrow>
     agent_inv (ip_agent i) \<and>
     (\<exists>d. ip_discoverd i = Some d \<and> finite (dom (d_table d)) \<and> finite (dom (items (apps (d_repo d))))) \<and>
     lw_index (ip_logWriter i) < length (lw_logs (ip_logWriter i)) \<and>
     finite (dom (ic_eventStreams c)) \<and> inj_on (ic_eventStreams c) (dom (ic_eventStreams c)) \<and>
     ag_eventHandlers (ip_agent i) = Ba \<union> ran (ic_eventStreams c) \<and> Ba \<inter> ran (ic_eventStreams c) = {} \<and>
     (\<forall>es \<in> ran (ic_eventStreams c). \<exists>s. ip_evs i es = Some s \<and> \<not> ch_closed (evs_eventCh s)) \<and>
     (\<forall>x \<in> Ba \<union> ran (ic_eventStreams c) \<union> Bl. x < ip_next i) \<and>
     log_inv Bl (ic_logStreamer c) (lw_handlers (ip_logWriter i)) (ip_lss i) (ip_next i)"

definition env_ok :: "'w env \<Rightarrow> bool" where
  "env_ok env \<longleftrightarrow>
     (\<forall>S. finite S \<longrightarrow> distinct (s_order env S) \<and> set (s_order env S) = S) \<and>
     (\<forall>S. finite S \<longrightarrow> distinct (s_keys env S) \<and> set (s_keys env S) = S) \<and>
     (\<forall>S. finite S \<longrightarrow> distinct (s_seqs env S) \<and> set (s_seqs env S) = S)"

lemma server_inv_client [simp]:
  "server_inv Ba Bl (c\<lparr>ic_in := x1\<rparr>) i = server_inv Ba Bl c i"
  "server_inv Ba Bl (c\<lparr>ic_out := x2\<rparr>) i = server_inv Ba Bl c i"
  "server_inv Ba Bl (c\<lparr>ic_version := x3\<rparr>) i = server_inv Ba Bl c i"
  "server_inv Ba Bl (c\<lparr>ic_didAuth := x4\<rparr>) i = server_inv Ba Bl c i"
  by (simp_all add: server_inv_def)

lemma server_inv_files [simp]: "server_inv Ba Bl c (i\<lparr>ip_files := fl, ip_agent := a\<rparr>) = server_inv Ba Bl c (i\<lparr>ip_agent := a\<rparr>)"
  by (simp add: server_inv_def)

lemma server_inv_files_only [simp]: "server_inv Ba Bl c (i\<lparr>ip_files := fl\<rparr>) = server_inv Ba Bl c i"
  by (simp add: server_inv_def)

lemma server_inv_conf [simp]: "server_inv Ba Bl c (i\<lparr>ip_agent := (ip_agent i)\<lparr>ag_conf := x\<rparr>\<rparr>) = server_inv Ba Bl c i"
  by (simp add: server_inv_def agent_inv_def)

lemma server_inv_agent_same [simp]: "server_inv Ba Bl c (i\<lparr>ip_agent := ip_agent i\<rparr>) = server_inv Ba Bl c i"
  by simp

lemma server_inv_lw: "server_inv Ba Bl c i \<Longrightarrow> lw_index (ip_logWriter i) < length (lw_logs (ip_logWriter i))"
  by (simp add: server_inv_def)

definition handler_post :: "nat set \<Rightarrow> nat set \<Rightarrow> uint64 \<Rightarrow> 'w ipc_client \<Rightarrow> string option \<Rightarrow> 'w ipc_client \<Rightarrow> ipc \<Rightarrow> bool" where
  "handler_post Ba Bl seq c e c' i' \<longleftrightarrow> answered seq c e c' \<and> server_inv Ba Bl c' i'"

text \<open>The two building blocks keep the postcondition.\<close>

lemma post_respond:
  assumes "server_inv Ba Bl c1 i1" and "ic_in c1 = drop 1 (ic_in c) \<or> ic_in c1 = ic_in c"
    and "ic_out c1 = ic_out c" "ic_broken c1 = ic_broken c" "ic_closed c1 = ic_closed c" "ic_name c1 = ic_name c"
  shows "outcome_ok (handler_post Ba Bl seq c) (respond seq err obj c1 i1 reqs)"
proof -
  have "\<exists>k \<le> 1. ic_in c1 = drop k (ic_in c)"
    using assms(2) by (metis drop0 le0 le_refl)
  then show ?thesis
    by (intro ok_respond) (use assms in \<open>auto simp: handler_post_def answered_def\<close>)
qed

lemma post_with_req:
  assumes inv: "server_inv Ba Bl c i"
    and k: "\<And>w ws req. ic_in c = w # ws \<Longrightarrow> outcome_ok (handler_post Ba Bl seq c) (k req (c\<lparr>ic_in := ws\<rparr>))"
  shows "outcome_ok (handler_post Ba Bl seq c) (with_req dec c i k)"
proof (rule ok_with_req)
  show "handler_post Ba Bl seq c (Some e) c i" for e
    using inv by (auto simp: handler_post_def answered_def intro: exI [of _ 0])
  show "handler_post Ba Bl seq c (Some e) (c\<lparr>ic_in := ws\<rparr>) i" if "ic_in c = w # ws" for w ws e
    using inv that by (auto simp: handler_post_def answered_def intro: exI [of _ 1])
qed (rule k)

text \<open>Listing the applications fails exactly when there are more of them than were counted.\<close>

lemma fill_ok: "(\<exists>ys. fill ms idx xs = Ret ys) \<longleftrightarrow> xs = [] \<or> idx + length xs \<le> length ms"
  by (induction ms idx xs rule: fill.induct) (auto simp: Suc_le_eq)

lemma ListMicroApps_ok:
  assumes "enumerates ks (items (apps s))"
  shows "(\<exists>xs. repo_ListMicroApps s0 ks s = Ret xs) \<longleftrightarrow> cache_ItemCount (apps s) \<le> cache_ItemCount (apps s0)"
proof -
  let ?m = "\<lambda>k. map_option Object (cache_Items (apps s) k)"
  have "set ks \<subseteq> dom ?m"
    using assms by (auto simp: enumerates_def cache_Items_def)
  then have "length (List.map_filter ?m ks) = length ks"
    by (simp add: map_filter_enum)
  also have "length ks = cache_ItemCount (apps s)"
    using assms by (simp add: cache_ItemCount_def enumerates_length)
  finally have "length (List.map_filter ?m ks) = cache_ItemCount (apps s)" .
  then show ?thesis
    unfolding repo_ListMicroApps_def fill_ok by auto
qed

text \<open>A registration that falls between the two makes the server panic.\<close>

lemma listing_race_panics:
  assumes "enumerates ks (items (apps s))" and "cache_ItemCount (apps s0) < cache_ItemCount (apps s)"
  shows "repo_ListMicroApps s0 ks s = Panic"
  using ListMicroApps_ok [OF assms(1), of s0] assms(2) by (cases "repo_ListMicroApps s0 ks s") auto

text \<open>No application is registered between counting and copying.\<close>

definition steady :: "'w env \<Rightarrow> bool" where
  "steady env \<longleftrightarrow>
     (\<forall>d. cache_ItemCount (apps (d_repo d)) \<le> cache_ItemCount (apps (d_repo (s_counted env d))))"

lemma env_keys: "env_ok env \<Longrightarrow> finite (dom m) \<Longrightarrow> enumerates (s_keys env (dom m)) m"
  by (simp add: env_ok_def enumerates_def)

lemma env_order: "env_ok env \<Longrightarrow> finite hs \<Longrightarrow> distinct (s_order env hs) \<and> set (s_order env hs) = hs"
  by (simp add: env_ok_def)

lemma inv_discoverd:
  "server_inv Ba Bl c i \<Longrightarrow> \<exists>d. ip_discoverd i = Some d \<and> finite (dom (d_table d)) \<and> finite (dom (items (apps (d_repo d))))"
  by (simp add: server_inv_def)

lemma UpdateRouters_finite: "finite (dom m) \<Longrightarrow> finite (dom (UpdateRouters ks rs m))"
proof -
  have del: "finite (dom (fold (\<lambda>k m. m(k := None)) ks m))" if "finite (dom m)" for m :: routers
    using that by (induction ks arbitrary: m) (auto simp: finite_subset [OF dom_del_subset])
  have add: "finite (dom (fold (\<lambda>v m. m(r_Service v \<mapsto> v)) rs m))" if "finite (dom m)" for m :: routers
    using that by (induction rs arbitrary: m) auto
  assume "finite (dom m)"
  then show ?thesis by (simp add: UpdateRouters_def del add)
qed

lemma server_inv_discoverd:
  "server_inv Ba Bl c i \<Longrightarrow> finite (dom (d_table d)) \<Longrightarrow> finite (dom (items (apps (d_repo d)))) \<Longrightarrow>
   server_inv Ba Bl c (i\<lparr>ip_discoverd := Some d\<rparr>)"
  by (simp add: server_inv_def)

lemma answered_error: "ic_in c = w # ws \<Longrightarrow> answered seq c (Some e) (c\<lparr>ic_in := ws\<rparr>)"
  by (auto simp: answered_def intro: exI [of _ 1])

named_theorems handler_posts

text \<open>The handlers that leave the streams alone.\<close>

lemma post_simple [handler_posts]:
  assumes inv: "server_inv Ba Bl c i"
  shows "outcome_ok (handler_post Ba Bl seq c) (handleHandshake env c i seq)"
    and "outcome_ok (handler_post Ba Bl seq c) (handleAuth env c i seq)"
    and "outcome_ok (handler_post Ba Bl seq c) (handleEvent env c i seq)"
    and "outcome_ok (handler_post Ba Bl seq c) (handleForceLeave env c i seq)"
    and "outcome_ok (handler_post Ba Bl seq c) (handleJoin env c i seq)"
    and "outcome_ok (handler_post Ba Bl seq c) (handleInstallKey env c i seq)"
    and "outcome_ok (handler_post Ba Bl seq c) (handleUseKey env c i seq)"
    and "outcome_ok (handler_post Ba Bl seq c) (handleRemoveKey env c i seq)"
    and "outcome_ok (handler_post Ba Bl seq c) (handleListKeys env c i seq)"
    and "outcome_ok (handler_post Ba Bl seq c) (handleQuery env c i seq)"
    and "outcome_ok (handler_post Ba Bl seq c) (handleRespond env c i seq)"
    and "outcome_ok (handler_post Ba Bl seq c) (handleStats env c i seq)"
    and "outcome_ok (handler_post Ba Bl seq c) (handleGetCoordinate env c i seq)"
  unfolding handleHandshake_def handleAuth_def handleEvent_def handleForceLeave_def handleJoin_def
    handleInstallKey_def handleUseKey_def handleRemoveKey_def handleKey_def handleListKeys_def
    handleQuery_def handleRespond_def handleStats_def handleGetCoordinate_def Let_def
  using inv
  by (auto intro!: post_with_req post_respond split: prod.splits option.splits sum.splits)

lemma post_members [handler_posts]:
  "server_inv Ba Bl c i \<Longrightarrow> outcome_ok (handler_post Ba Bl seq c) (handleMembers env command c i seq)"
  unfolding handleMembers_def Let_def
  by (auto intro!: post_with_req post_respond answered_error simp: handler_post_def split: sum.splits)

lemma post_tags [handler_posts]:
  "server_inv Ba Bl c i \<Longrightarrow> outcome_ok (handler_post Ba Bl seq c) (handleTags env c i seq)"
  unfolding handleTags_def Let_def
  by (auto intro!: post_with_req post_respond split: prod.splits)

lemma post_lists [handler_posts]:
  assumes inv: "server_inv Ba Bl c i" and env: "env_ok env"
  shows "steady env \<Longrightarrow> outcome_ok (handler_post Ba Bl seq c) (handleListMicroApps env c i seq)"
    and "outcome_ok (handler_post Ba Bl seq c) (handleListRouters env c i seq)"
    and "outcome_ok (handler_post Ba Bl seq c) (handleUpdateRouters env c i seq)"
proof -
  obtain d where d: "ip_discoverd i = Some d" "finite (dom (d_table d))" "finite (dom (items (apps (d_repo d))))"
    using inv_discoverd [OF inv] by blast
  have "\<exists>xs. Discoverd_ListMicroApps (s_counted env d) (s_keys env (dom (items (apps (d_repo d))))) d = Ret xs" if "steady env"
    using ListMicroApps_ok [OF env_keys [OF env d(3)]] that by (simp add: Discoverd_ListMicroApps_def steady_def)
  then show "steady env \<Longrightarrow> outcome_ok (handler_post Ba Bl seq c) (handleListMicroApps env c i seq)"
    using inv d by (auto simp: handleListMicroApps_def intro!: post_respond)
  have "Discoverd_ListRouters (s_keys env (dom (d_table d))) d =
      Ret (map (\<lambda>k. the (d_table d k)) (s_keys env (dom (d_table d))))"
    unfolding Discoverd_ListRouters_def by (rule ListRouters_eq [OF env_keys [OF env d(2)]])
  then show "outcome_ok (handler_post Ba Bl seq c) (handleListRouters env c i seq)"
    using inv d by (auto simp: handleListRouters_def intro!: post_respond)
  show "outcome_ok (handler_post Ba Bl seq c) (handleUpdateRouters env c i seq)"
    unfolding handleUpdateRouters_def using inv d
    by (auto intro!: post_with_req post_respond server_inv_discoverd UpdateRouters_finite)
       (simp add: Discoverd_UpdateRouters_def repo_UpdateRouters_def)
qed

lemma post_leave [handler_posts]:
  assumes inv: "server_inv Ba Bl c i"
  shows "outcome_ok (handler_post Ba Bl seq c) (handleLeave env c i seq)"
  unfolding handleLeave_def Let_def
proof (rule ok_bind, rule ok_respond)
  have sd: "\<exists>r a. Agent_Shutdown (s_Shutdown env) (ip_agent i) = Ret (r, a) \<and> agent_inv a \<and>
      ag_eventHandlers a = ag_eventHandlers (ip_agent i)"
    using inv Shutdown_inv [of "ip_agent i" "s_Shutdown env"] by (auto simp: server_inv_def)
  then obtain r a where a: "Agent_Shutdown (s_Shutdown env) (ip_agent i) = Ret (r, a)" "agent_inv a"
      "ag_eventHandlers a = ag_eventHandlers (ip_agent i)" by blast
  then have i: "server_inv Ba Bl c (i\<lparr>ip_agent := a\<rparr>)"
    using inv by (simp add: server_inv_def)
  show "ic_broken c \<or> ic_closed c \<Longrightarrow> \<forall>reqs. outcome_ok (handler_post Ba Bl seq c)
        (case (Some ''write failed'', c, i, reqs) of (e, c1, i1, reqs) \<Rightarrow>
           go_bind (Agent_Shutdown (s_Shutdown env) (ip_agent i1)) (\<lambda>(_, a). Ret (e, c1, i1\<lparr>ip_agent := a\<rparr>, reqs @ [QShutdown])))"
    using i a by (auto simp: handler_post_def answered_def intro: exI [of _ 0])
  show "\<not> (ic_broken c \<or> ic_closed c) \<Longrightarrow> \<forall>reqs. outcome_ok (handler_post Ba Bl seq c)
        (case (None, c\<lparr>ic_out := ic_out c @ [(\<lparr>rsp_Seq = seq, rsp_Error = errToString (Agent_Leave (s_Leave env) (ip_agent i))\<rparr>, None)]\<rparr>, i, reqs) of (e, c1, i1, reqs) \<Rightarrow>
           go_bind (Agent_Shutdown (s_Shutdown env) (ip_agent i1)) (\<lambda>(_, a). Ret (e, c1, i1\<lparr>ip_agent := a\<rparr>, reqs @ [QShutdown])))"
    using i a by (auto simp: handler_post_def answered_def intro: exI [of _ 0])
qed

text \<open>Opening and closing streams.\<close>

lemma inv_event_open:
  assumes inv: "server_inv Ba Bl c i" and env: "env_ok env" and new: "ic_eventStreams c seq = None"
  shows "server_inv Ba Bl (c\<lparr>ic_eventStreams := (ic_eventStreams c)(seq \<mapsto> ip_next i)\<rparr>)
    (i\<lparr>ip_evs := (ip_evs i)(ip_next i \<mapsto> newEventStream fs seq), ip_next := Suc (ip_next i),
       ip_agent := Agent_RegisterEventHandler (s_order env) (ip_next i) (ip_agent i)\<rparr>)"
proof -
  let ?es = "ip_next i"
  have fresh: "?es \<notin> Ba \<union> ran (ic_eventStreams c)"
    using inv by (auto simp: server_inv_def)
  have ag: "agent_inv (Agent_RegisterEventHandler (s_order env) ?es (ip_agent i))"
    using inv env_order [OF env] by (intro agent_inv_ops) (auto simp: server_inv_def)
  have ran: "ran ((ic_eventStreams c)(seq \<mapsto> ?es)) = insert ?es (ran (ic_eventStreams c))"
    using new by (simp add: ran_map_upd)
  have inj: "inj_on ((ic_eventStreams c)(seq \<mapsto> ?es)) (dom ((ic_eventStreams c)(seq \<mapsto> ?es)))"
  proof (rule inj_onI)
    fix x y
    assume "x \<in> dom ((ic_eventStreams c)(seq \<mapsto> ?es))" "y \<in> dom ((ic_eventStreams c)(seq \<mapsto> ?es))"
      "((ic_eventStreams c)(seq \<mapsto> ?es)) x = ((ic_eventStreams c)(seq \<mapsto> ?es)) y"
    then show "x = y"
      using inv fresh new by (auto simp: server_inv_def inj_on_def ran_def split: if_splits)
  qed
  have li: "log_inv Bl (ic_logStreamer c) (lw_handlers (ip_logWriter i)) (ip_lss i) (Suc ?es)"
    using inv by (auto simp: server_inv_def log_inv_def split: option.splits)
  have lt: "\<forall>x \<in> Ba \<union> insert ?es (ran (ic_eventStreams c)) \<union> Bl. x < Suc ?es"
    using inv by (auto simp: server_inv_def less_Suc_eq)
  have evs: "\<forall>es' \<in> insert ?es (ran (ic_eventStreams c)).
      \<exists>s. ((ip_evs i)(?es \<mapsto> newEventStream fs seq)) es' = Some s \<and> \<not> ch_closed (evs_eventCh s)"
    using inv by (auto simp: server_inv_def newEventStream_def make_chan_def)
  have hs: "ag_eventHandlers (Agent_RegisterEventHandler (s_order env) ?es (ip_agent i)) =
      Ba \<union> insert ?es (ran (ic_eventStreams c))"
    using inv by (auto simp: server_inv_def Agent_RegisterEventHandler_def Let_def)
  have "Ba \<inter> insert ?es (ran (ic_eventStreams c)) = {}"
    using inv fresh by (auto simp: server_inv_def)
  moreover have "finite (dom ((ic_eventStreams c)(seq \<mapsto> ?es)))"
    using inv by (simp add: server_inv_def)
  ultimately show ?thesis
    using inv ag inj li lt evs hs unfolding server_inv_def
    by (intro conjI) (simp_all add: ran del: fun_upd_apply)
qed

lemma post_stream [handler_posts]:
  assumes inv: "server_inv Ba Bl c i" and env: "env_ok env"
  shows "outcome_ok (handler_post Ba Bl seq c) (handleStream env c i seq)"
  unfolding handleStream_def Let_def
proof (rule post_with_req [OF inv])
  fix w ws ty
  assume w: "ic_in c = w # ws"
  let ?c = "c\<lparr>ic_in := ws\<rparr>"
  have inv': "server_inv Ba Bl ?c i" using inv by simp
  note o = inv_event_open [OF this env, of seq "ParseEventFilter ty"]
  show "outcome_ok (handler_post Ba Bl seq c)
     (if list_ex (\<lambda>f. \<not> EventFilter_Valid f) (ParseEventFilter ty) then respond seq invalidFilter None ?c i []
      else if ic_eventStreams ?c seq \<noteq> None then respond seq streamExists None ?c i []
      else respond seq '''' None (?c\<lparr>ic_eventStreams := (ic_eventStreams ?c)(seq \<mapsto> ip_next i)\<rparr>)
        ((i\<lparr>ip_evs := (ip_evs i)(ip_next i \<mapsto> newEventStream (ParseEventFilter ty) seq), ip_next := Suc (ip_next i)\<rparr>)
          \<lparr>ip_agent := Agent_RegisterEventHandler (s_order env) (ip_next i)
            (ip_agent (i\<lparr>ip_evs := (ip_evs i)(ip_next i \<mapsto> newEventStream (ParseEventFilter ty) seq), ip_next := Suc (ip_next i)\<rparr>))\<rparr>) [])"
    using inv' w o by (auto intro!: post_respond)
qed

lemma deliver_open:
  "ip_lss i ls = Some (level, s) \<Longrightarrow> \<not> ch_closed (ls_logCh s) \<Longrightarrow> \<forall>d \<in> set ds. fst d = ls \<Longrightarrow>
   \<exists>s'. deliver_logs env ds i = Ret (i\<lparr>ip_lss := (ip_lss i)(ls \<mapsto> (level, s'))\<rparr>) \<and> \<not> ch_closed (ls_logCh s')"
proof (induction ds arbitrary: i s)
  case Nil
  then show ?case by (intro exI [of _ s]) (auto simp: fun_upd_idem)
next
  case (Cons d ds)
  obtain line where d: "d = (ls, line)" using Cons.prems(3) by (cases d) auto
  have "\<exists>s1. ls_HandleLog (s_check env level) line s = Ret s1 \<and> \<not> ch_closed (ls_logCh s1)"
    using Cons.prems(2) by (simp add: ls_HandleLog_def try_send_def)
  then obtain s1 where s1: "ls_HandleLog (s_check env level) line s = Ret s1" "\<not> ch_closed (ls_logCh s1)"
    by blast
  let ?i = "i\<lparr>ip_lss := (ip_lss i)(ls \<mapsto> (level, s1))\<rparr>"
  have "\<exists>s'. deliver_logs env ds ?i = Ret (?i\<lparr>ip_lss := (ip_lss ?i)(ls \<mapsto> (level, s'))\<rparr>) \<and> \<not> ch_closed (ls_logCh s')"
    by (rule Cons.IH) (use s1 Cons.prems(3) in auto)
  then obtain s' where "deliver_logs env ds ?i = Ret (i\<lparr>ip_lss := (ip_lss i)(ls \<mapsto> (level, s'))\<rparr>)"
      "\<not> ch_closed (ls_logCh s')"
    by auto
  then show ?case
    using Cons.prems(1) s1(1) d by (intro exI [of _ s']) (simp add: fun_upd_def)
qed

lemma lw_RegisterHandler_new:
  "h \<notin> lw_handlers lw \<Longrightarrow> lw_index lw < length (lw_logs lw) \<Longrightarrow>
   \<exists>ds. lw_RegisterHandler h lw = Ret (ds, lw\<lparr>lw_handlers := insert h (lw_handlers lw)\<rparr>) \<and> (\<forall>d \<in> set ds. fst d = h)"
  by (auto simp: lw_RegisterHandler_def Let_def)

lemma post_monitor [handler_posts]:
  assumes inv: "server_inv Ba Bl c i"
  shows "outcome_ok (handler_post Ba Bl seq c) (handleMonitor env c i seq)"
  unfolding handleMonitor_def Let_def
proof (rule post_with_req [OF inv])
  fix w ws logLevel
  assume w: "ic_in c = w # ws"
  let ?c = "c\<lparr>ic_in := ws\<rparr>" and ?level = "ToUpper logLevel" and ?ls = "ip_next i"
  let ?i1 = "i\<lparr>ip_lss := (ip_lss i)(?ls \<mapsto> (?level, newLogStream seq)), ip_next := Suc ?ls\<rparr>"
  have inv': "server_inv Ba Bl ?c i" using inv by simp
  have opened: "\<exists>i3. go_bind (lw_RegisterHandler ?ls (ip_logWriter ?i1))
        (\<lambda>(ds, lw). deliver_logs env ds (?i1\<lparr>ip_logWriter := lw\<rparr>)) = Ret i3 \<and>
      server_inv Ba Bl (?c\<lparr>ic_logStreamer := Some (?ls, seq)\<rparr>) i3" if none: "ic_logStreamer c = None"
  proof -
    have nb: "?ls \<notin> lw_handlers (ip_logWriter i)" "lw_handlers (ip_logWriter i) = Bl" "?ls \<notin> Bl"
      using inv none by (auto simp: server_inv_def log_inv_def)
    obtain ds where r: "lw_RegisterHandler ?ls (ip_logWriter i) =
        Ret (ds, (ip_logWriter i)\<lparr>lw_handlers := insert ?ls Bl\<rparr>)" "\<forall>d \<in> set ds. fst d = ?ls"
      using lw_RegisterHandler_new [of ?ls "ip_logWriter i"] nb server_inv_lw [OF inv] by auto
    let ?i2 = "?i1\<lparr>ip_logWriter := (ip_logWriter i)\<lparr>lw_handlers := insert ?ls Bl\<rparr>\<rparr>"
    have "ip_lss ?i2 ?ls = Some (?level, newLogStream seq)" "\<not> ch_closed (ls_logCh (newLogStream seq))"
      by (simp_all add: newLogStream_def make_chan_def)
    from deliver_open [OF this r(2)] obtain s' where
      s': "deliver_logs env ds ?i2 = Ret (?i2\<lparr>ip_lss := (ip_lss ?i2)(?ls \<mapsto> (?level, s'))\<rparr>)" "\<not> ch_closed (ls_logCh s')"
      by blast
    have "server_inv Ba Bl (?c\<lparr>ic_logStreamer := Some (?ls, seq)\<rparr>) (?i2\<lparr>ip_lss := (ip_lss ?i2)(?ls \<mapsto> (?level, s'))\<rparr>)"
      using inv nb s'(2) by (auto simp: server_inv_def log_inv_def less_Suc_eq)
    then show ?thesis using r(1) s'(1) by simp
  qed
  have in1: "\<exists>k \<le> 1. ws = drop k (ic_in c)"
    using w by (intro exI [of _ 1]) simp
  show "outcome_ok (handler_post Ba Bl seq c)
     (if \<not> ValidateLevelFilter ?level (LevelFilter\<lparr>lf_MinLevel := ?level\<rparr>)
      then respond seq (''Unknown log level: '' @ ?level) None ?c i []
      else if ic_logStreamer ?c \<noteq> None then respond seq monitorExists None ?c i []
      else go_bind (respond seq '''' None (?c\<lparr>ic_logStreamer := Some (?ls, seq)\<rparr>) ?i1 []) (\<lambda>(e, c2, i2, reqs).
             go_bind (lw_RegisterHandler ?ls (ip_logWriter i2)) (\<lambda>(ds, lw).
             go_bind (deliver_logs env ds (i2\<lparr>ip_logWriter := lw\<rparr>)) (\<lambda>i3. Ret (e, c2, i3, reqs)))))"
  proof (cases "ic_logStreamer c = None")
    case True
    then obtain i3 where i3: "go_bind (lw_RegisterHandler ?ls (ip_logWriter ?i1))
        (\<lambda>(ds, lw). deliver_logs env ds (?i1\<lparr>ip_logWriter := lw\<rparr>)) = Ret i3"
      "server_inv Ba Bl (?c\<lparr>ic_logStreamer := Some (?ls, seq)\<rparr>) i3"
      using opened by blast
    then obtain ds lw where "lw_RegisterHandler ?ls (ip_logWriter i) = Ret (ds, lw)"
        "deliver_logs env ds (?i1\<lparr>ip_logWriter := lw\<rparr>) = Ret i3"
      by (auto simp: go_bind_eq_Ret)
    moreover have "server_inv Ba Bl (?c\<lparr>ic_logStreamer := Some (?ls, seq), ic_out := x\<rparr>) i3" for x
      using server_inv_client(2) [where c = "?c\<lparr>ic_logStreamer := Some (?ls, seq)\<rparr>" and ?x2.0 = x and i = i3 and Ba = Ba and Bl = Bl] i3(2) by simp
    ultimately show ?thesis
      using inv' w True i3(2) in1
      by (auto intro!: post_respond simp: respond_def IPCClient_Send_def handler_post_def answered_def)
  next
    case False
    then show ?thesis using inv' w by (auto intro!: post_respond)
  qed
qed

lemma ran_del:
  assumes "inj_on m (dom m)" and "m k = Some v"
  shows "ran (m(k := None)) = ran m - {v}"
proof (intro set_eqI iffI)
  fix x
  assume "x \<in> ran (m(k := None))"
  then obtain a where "m a = Some x" "a \<noteq> k" by (auto simp: ran_def split: if_splits)
  then show "x \<in> ran m - {v}"
    using assms by (auto simp: ran_def) (metis domI inj_onD)
next
  fix x
  assume "x \<in> ran m - {v}"
  then obtain a where "m a = Some x" "x \<noteq> v" by (auto simp: ran_def)
  then show "x \<in> ran (m(k := None))"
    using assms by (intro ranI [of _ a]) auto
qed

text \<open>Each stream is closed once: its channel is open while the client holds it.\<close>

lemma inv_event_close:
  assumes inv: "server_inv Ba Bl c i" and env: "env_ok env" and es: "ic_eventStreams c stop = Some es"
  shows "\<exists>i2. stop_event_stream env es i = Ret i2 \<and>
    server_inv Ba Bl (c\<lparr>ic_eventStreams := (ic_eventStreams c)(stop := None)\<rparr>) i2"
proof -
  have mem: "es \<in> ran (ic_eventStreams c)" using es by (rule ranI)
  have ran: "ran ((ic_eventStreams c)(stop := None)) = ran (ic_eventStreams c) - {es}"
    using inv es by (intro ran_del) (simp_all add: server_inv_def)
  have inj: "inj_on ((ic_eventStreams c)(stop := None)) (dom ((ic_eventStreams c)(stop := None)))"
    using inv by (auto simp: server_inv_def inj_on_def)
  have fin: "finite (dom ((ic_eventStreams c)(stop := None)))"
    using inv by (simp add: server_inv_def)
  obtain s where s: "ip_evs i es = Some s" "\<not> ch_closed (evs_eventCh s)"
    using inv mem unfolding server_inv_def by blast
  obtain s' where st: "es_Stop s = Ret s'"
    using s(2) by (auto simp: es_Stop_def close_chan_def)
  let ?a = "Agent_DeregisterEventHandler (s_order env) es (ip_agent i)"
  have ag: "agent_inv ?a"
    using inv env_order [OF env] by (intro agent_inv_ops) (auto simp: server_inv_def)
  have hs: "ag_eventHandlers ?a = Ba \<union> (ran (ic_eventStreams c) - {es})"
    using inv mem by (auto simp: server_inv_def Agent_DeregisterEventHandler_def Let_def)
  have dj: "Ba \<inter> (ran (ic_eventStreams c) - {es}) = {}"
    and lt: "\<forall>x \<in> Ba \<union> (ran (ic_eventStreams c) - {es}) \<union> Bl. x < ip_next i"
    and evs: "\<forall>es' \<in> ran (ic_eventStreams c) - {es}.
      \<exists>r. ((ip_evs i)(es \<mapsto> s')) es' = Some r \<and> \<not> ch_closed (evs_eventCh r)"
    using inv by (auto simp: server_inv_def)
  let ?i2 = "i\<lparr>ip_agent := ?a, ip_evs := (ip_evs i)(es \<mapsto> s')\<rparr>"
  have "server_inv Ba Bl (c\<lparr>ic_eventStreams := (ic_eventStreams c)(stop := None)\<rparr>) ?i2"
    using inv ag hs dj lt evs inj fin unfolding server_inv_def
    by (intro conjI) (simp_all add: ran del: fun_upd_apply)
  then show ?thesis
    using s(1) st by (simp add: stop_event_stream_def)
qed

lemma inv_log_close:
  assumes inv: "server_inv Ba Bl c i" and ls: "ic_logStreamer c = Some (ls, q)"
  shows "\<exists>i2. stop_log_stream ls i = Ret i2 \<and> server_inv Ba Bl (c\<lparr>ic_logStreamer := None\<rparr>) i2"
proof -
  obtain level s where s: "ip_lss i ls = Some (level, s)" "\<not> ch_closed (ls_logCh s)" "ls \<notin> Bl"
      "lw_handlers (ip_logWriter i) = insert ls Bl"
    using inv ls by (auto simp: server_inv_def log_inv_def)
  obtain s' where "ls_Stop s = Ret s'"
    using s(2) by (auto simp: ls_Stop_def close_chan_def)
  then show ?thesis
    using inv s by (auto simp: stop_log_stream_def server_inv_def log_inv_def lw_DeregisterHandler_def)
qed

lemma post_stop [handler_posts]:
  assumes inv: "server_inv Ba Bl c i" and env: "env_ok env"
  shows "outcome_ok (handler_post Ba Bl seq c) (handleStop env c i seq)"
  unfolding handleStop_def
proof (rule post_with_req [OF inv])
  fix w ws stop
  assume w: "ic_in c = w # ws"
  let ?c = "c\<lparr>ic_in := ws\<rparr>"
  have inv': "server_inv Ba Bl ?c i" using inv by simp
  have "\<exists>c1 i1. (case ic_logStreamer ?c of
        Some (ls, s) \<Rightarrow> if s = stop then go_bind (stop_log_stream ls i) (\<lambda>i1. Ret (?c\<lparr>ic_logStreamer := None\<rparr>, i1)) else Ret (?c, i)
      | None \<Rightarrow> Ret (?c, i)) = Ret (c1, i1) \<and> server_inv Ba Bl c1 i1 \<and>
      ic_in c1 = ws \<and> ic_out c1 = ic_out c \<and> ic_broken c1 = ic_broken c \<and> ic_closed c1 = ic_closed c \<and> ic_name c1 = ic_name c"
    using inv' inv_log_close [OF inv'] by (fastforce split: option.splits)
  then obtain c1 i1 where c1: "(case ic_logStreamer ?c of
        Some (ls, s) \<Rightarrow> if s = stop then go_bind (stop_log_stream ls i) (\<lambda>i1. Ret (?c\<lparr>ic_logStreamer := None\<rparr>, i1)) else Ret (?c, i)
      | None \<Rightarrow> Ret (?c, i)) = Ret (c1, i1)" and inv1: "server_inv Ba Bl c1 i1"
      and same: "ic_in c1 = ws" "ic_out c1 = ic_out c" "ic_broken c1 = ic_broken c" "ic_closed c1 = ic_closed c" "ic_name c1 = ic_name c"
    by blast
  have step2: "outcome_ok (handler_post Ba Bl seq c)
     (go_bind (case ic_eventStreams c1 stop of
            Some es \<Rightarrow> go_bind (stop_event_stream env es i1)
                (\<lambda>i2. Ret (c1\<lparr>ic_eventStreams := (ic_eventStreams c1)(stop := None)\<rparr>, i2))
          | None \<Rightarrow> Ret (c1, i1)) (\<lambda>(c2, i2). respond seq '''' None c2 i2 []))"
  proof (cases "ic_eventStreams c1 stop")
    case None
    then show ?thesis using inv1 same w by (auto intro!: post_respond)
  next
    case (Some es)
    then obtain i2 where "stop_event_stream env es i1 = Ret i2"
        "server_inv Ba Bl (c1\<lparr>ic_eventStreams := (ic_eventStreams c1)(stop := None)\<rparr>) i2"
      using inv_event_close [OF inv1 env Some] by blast
    then show ?thesis using Some same w by (auto intro!: post_respond)
  qed
  then show "outcome_ok (handler_post Ba Bl seq c)
    (go_bind (case ic_logStreamer ?c of
        Some (ls, s) \<Rightarrow> if s = stop then go_bind (stop_log_stream ls i) (\<lambda>i1. Ret (?c\<lparr>ic_logStreamer := None\<rparr>, i1)) else Ret (?c, i)
      | None \<Rightarrow> Ret (?c, i)) (\<lambda>(c1, i1).
       go_bind
         (case ic_eventStreams c1 stop of
            Some es \<Rightarrow>
              go_bind (stop_event_stream env es i1)
                (\<lambda>i2. Ret (c1\<lparr>ic_eventStreams := (ic_eventStreams c1)(stop := None)\<rparr>, i2))
          | None \<Rightarrow> Ret (c1, i1))
         (\<lambda>(c2, i2). respond seq '''' None c2 i2 [])))"
    unfolding c1 by simp
qed

section \<open>Every request\<close>

definition request_post :: "nat set \<Rightarrow> nat set \<Rightarrow> uint64 \<Rightarrow> 'w ipc_client \<Rightarrow> string option \<Rightarrow> 'w ipc_client \<Rightarrow> ipc \<Rightarrow> bool" where
  "request_post Ba Bl seq c e c' i' \<longleftrightarrow>
     server_inv Ba Bl c' i' \<and> (\<exists>k \<le> 1. ic_in c' = drop k (ic_in c)) \<and>
     ic_broken c' = ic_broken c \<and> ic_closed c' = ic_closed c \<and> ic_name c' = ic_name c \<and>
     (\<exists>rs. ic_out c' = ic_out c @ rs \<and> length rs \<le> 1 \<and> (\<forall>r \<in> set rs. rsp_Seq (fst r) = seq) \<and>
           (e = None \<longrightarrow> \<not> ic_broken c \<longrightarrow> \<not> ic_closed c \<longrightarrow> length rs = 1))"

lemma handler_request: "handler_post Ba Bl seq c e c' i' \<Longrightarrow> request_post Ba Bl seq c e c' i'"
  by (auto simp: handler_post_def answered_def request_post_def split: if_splits)

lemma outcome_mono: "outcome_ok Q out \<Longrightarrow> (\<And>e c i. Q e c i \<Longrightarrow> R e c i) \<Longrightarrow> outcome_ok R out"
  by (auto simp: outcome_ok_def split: go.splits)

lemma request_refused:
  assumes "server_inv Ba Bl c i"
  shows "request_post Ba Bl seq c e (snd (IPCClient_Send \<lparr>rsp_Seq = seq, rsp_Error = err\<rparr> None c)) i"
  using assms by (auto simp: request_post_def IPCClient_Send_def intro: exI [of _ 0])

lemma ok_handler: "outcome_ok (handler_post Ba Bl seq c) out \<Longrightarrow> outcome_ok (request_post Ba Bl seq c) out"
  by (erule outcome_mono) (rule handler_request)

lemma ok_if: "outcome_ok Q x \<Longrightarrow> outcome_ok Q y \<Longrightarrow> outcome_ok Q (if b then x else y)"
  by simp

lemma ok_refused:
  "server_inv Ba Bl c i \<Longrightarrow> outcome_ok (request_post Ba Bl seq c)
     (let (_, c1) = IPCClient_Send \<lparr>rsp_Seq = seq, rsp_Error = err\<rparr> None c in Ret (e, c1, i, []))"
  using request_refused [of Ba Bl c i seq e err] by (simp add: case_prod_beta)

lemma post_request:
  assumes inv: "server_inv Ba Bl c i" and env: "env_ok env" and st: "steady env"
  shows "outcome_ok (request_post Ba Bl (rh_Seq h) c) (handleRequest env c i h)"
  unfolding handleRequest_def Let_def [of "rh_Command h"] Let_def [of "rh_Seq h"]
  by (intro ok_if ok_refused [OF inv]; rule ok_handler; intro handler_posts; (rule inv | rule env | rule st))

section \<open>Serving a client\<close>

text \<open>A handler never puts input back, which is why the loop over a client's requests ends.\<close>

definition in_shrinks :: "nat \<Rightarrow> 'w outcome \<Rightarrow> bool" where
  "in_shrinks n out \<longleftrightarrow> (case out of Panic \<Rightarrow> True | Ret (e, c, i, reqs) \<Rightarrow> length (ic_in c) \<le> n)"

lemma shrinks_simps [simp]:
  "in_shrinks n Panic"
  "in_shrinks n (Ret (e, c, i, reqs)) \<longleftrightarrow> length (ic_in c) \<le> n"
  by (simp_all add: in_shrinks_def)

named_theorems shrinks

lemma shrinks_respond [shrinks]: "length (ic_in c) \<le> n \<Longrightarrow> in_shrinks n (respond seq err obj c i reqs)"
  by (simp add: respond_def IPCClient_Send_def)

lemma shrinks_if [shrinks]: "in_shrinks n x \<Longrightarrow> in_shrinks n y \<Longrightarrow> in_shrinks n (if b then x else y)"
  by simp

lemma shrinks_with_req [shrinks]:
  "length (ic_in c) \<le> n \<Longrightarrow> (\<And>r c1. length (ic_in c1) \<le> n \<Longrightarrow> in_shrinks n (k r c1)) \<Longrightarrow> in_shrinks n (with_req dec c i k)"
  by (auto simp: with_req_def Let_def split: list.splits sum.splits)

lemma shrinks_any [shrinks]: "(\<And>x. in_shrinks n (f x)) \<Longrightarrow> in_shrinks n (go_bind m f)"
  by (cases m) auto

lemma shrinks_after:
  "in_shrinks n m \<Longrightarrow> (\<And>e c i reqs. length (ic_in c) \<le> n \<Longrightarrow> in_shrinks n (f (e, c, i, reqs))) \<Longrightarrow>
   in_shrinks n (go_bind m f)"
proof (cases m)
  case (Ret x)
  obtain e c i reqs where "x = (e, c, i, reqs)" by (cases x)
  moreover assume "in_shrinks n m" "\<And>e c i reqs. length (ic_in c) \<le> n \<Longrightarrow> in_shrinks n (f (e, c, i, reqs))"
  ultimately show ?thesis using Ret by simp
qed simp

lemma shrinks_option [shrinks]:
  "in_shrinks n x \<Longrightarrow> (\<And>a. in_shrinks n (y a)) \<Longrightarrow> in_shrinks n (case v of None \<Rightarrow> x | Some a \<Rightarrow> y a)"
  by (cases v) auto

lemma shrinks_sum [shrinks]:
  "(\<And>a. in_shrinks n (x a)) \<Longrightarrow> (\<And>a. in_shrinks n (y a)) \<Longrightarrow> in_shrinks n (case v of Inl a \<Rightarrow> x a | Inr a \<Rightarrow> y a)"
  by (cases v) auto

lemma shrinks_prod [shrinks]: "(\<And>a b. in_shrinks n (x a b)) \<Longrightarrow> in_shrinks n (case v of (a, b) \<Rightarrow> x a b)"
  by (cases v) auto

lemma shrinks_handlers [shrinks]:
  assumes "length (ic_in c) \<le> n"
  shows "in_shrinks n (handleHandshake env c i seq)" "in_shrinks n (handleAuth env c i seq)"
    "in_shrinks n (handleEvent env c i seq)" "in_shrinks n (handleForceLeave env c i seq)"
    "in_shrinks n (handleJoin env c i seq)" "in_shrinks n (handleInstallKey env c i seq)"
    "in_shrinks n (handleUseKey env c i seq)" "in_shrinks n (handleRemoveKey env c i seq)"
    "in_shrinks n (handleListKeys env c i seq)" "in_shrinks n (handleTags env c i seq)"
    "in_shrinks n (handleQuery env c i seq)" "in_shrinks n (handleRespond env c i seq)"
    "in_shrinks n (handleStats env c i seq)" "in_shrinks n (handleListMicroApps env c i seq)"
    "in_shrinks n (handleListRouters env c i seq)" "in_shrinks n (handleUpdateRouters env c i seq)"
    "in_shrinks n (handleGetCoordinate env c i seq)" "in_shrinks n (handleStream env c i seq)"
    "in_shrinks n (handleMembers env command c i seq)"
  unfolding handleHandshake_def handleAuth_def handleEvent_def handleForceLeave_def
    handleJoin_def handleMembers_def handleInstallKey_def handleUseKey_def handleRemoveKey_def handleKey_def
    handleListKeys_def handleStream_def handleTags_def handleQuery_def Let_def
    handleRespond_def handleStats_def handleListMicroApps_def handleListRouters_def handleUpdateRouters_def
    handleGetCoordinate_def
  by ((intro shrinks; simp add: assms)+)

lemma shrinks_stop [shrinks]: "length (ic_in c) \<le> n \<Longrightarrow> in_shrinks n (handleStop env c i seq)"
  unfolding handleStop_def
proof (rule shrinks_with_req, assumption)
  fix stop and c1 :: "'a ipc_client"
  assume n: "length (ic_in c1) \<le> n"
  have step: "in_shrinks n (go_bind m (\<lambda>(c2, i2). go_bind (g c2 i2) (\<lambda>(c3, i3). respond seq '''' None c3 i3 [])))"
    if "\<And>x y. m = Ret (x, y) \<Longrightarrow> length (ic_in x) \<le> n"
      and "\<And>c2 i2 x y. g c2 i2 = Ret (x, y) \<Longrightarrow> length (ic_in c2) \<le> n \<Longrightarrow> length (ic_in x) \<le> n"
    for m :: "('a ipc_client \<times> ipc) go" and g
  proof (cases m)
    case (Ret x)
    obtain c2 i2 where x: "x = (c2, i2)" by (cases x)
    then have "in_shrinks n (go_bind (g c2 i2) (\<lambda>(c3, i3). respond seq '''' None c3 i3 []))"
      using that Ret by (cases "g c2 i2") (auto intro!: shrinks_respond)
    then show ?thesis using Ret x by simp
  qed simp
  show "in_shrinks n (go_bind
         (case ic_logStreamer c1 of
            Some (ls, s) \<Rightarrow> if s = stop then go_bind (stop_log_stream ls i) (\<lambda>i1. Ret (c1\<lparr>ic_logStreamer := None\<rparr>, i1)) else Ret (c1, i)
          | None \<Rightarrow> Ret (c1, i)) (\<lambda>(c1, i1).
       go_bind (case ic_eventStreams c1 stop of
            Some es \<Rightarrow> go_bind (stop_event_stream env es i1) (\<lambda>i2. Ret (c1\<lparr>ic_eventStreams := (ic_eventStreams c1)(stop := None)\<rparr>, i2))
          | None \<Rightarrow> Ret (c1, i1)) (\<lambda>(c2, i2). respond seq '''' None c2 i2 [])))"
    by (rule step) (use n in \<open>auto simp: go_bind_eq_Ret split: option.splits if_splits\<close>)
qed

lemma shrinks_monitor [shrinks]: "length (ic_in c) \<le> n \<Longrightarrow> in_shrinks n (handleMonitor env c i seq)"
  unfolding handleMonitor_def Let_def
  by (rule shrinks_with_req, assumption)
     (intro shrinks_if shrinks_respond shrinks_after; auto intro!: shrinks_respond shrinks_any)

lemma shrinks_leave [shrinks]: "length (ic_in c) \<le> n \<Longrightarrow> in_shrinks n (handleLeave env c i seq)"
  unfolding handleLeave_def Let_def
  by (rule shrinks_after) (auto intro!: shrinks_respond shrinks_any)

lemma shrinks_request: "in_shrinks (length (ic_in c)) (handleRequest env c i h)"
  unfolding handleRequest_def Let_def [of "rh_Command h"] Let_def [of "rh_Seq h"]
  by (intro shrinks_if shrinks_handlers shrinks_stop shrinks_monitor shrinks_leave order_refl)
     (simp_all add: IPCClient_Send_def)

end
