(* ===== verification/IpcSession.thy ===== *)
theory IpcSession
  imports Ipc
begin

text \<open>
  A client's session with the IPC server (\<^verbatim>\<open>command/agent/ipc.go\<close>): the loop that decodes requests and
  handles them, the clean-up after it, and the server's start and shutdown. A session terminates,
  does not panic and leaves the server's registrations as they were; a client that does not know the
  authentication key has no effect on the agent.
\<close>

section \<open>Serving a client\<close>

text \<open>\<^verbatim>\<open>reqHeader\<close> is one variable for all requests, so the decoder sees the header decoded before.\<close>

function handleClient ::
  "'w env \<Rightarrow> requestHeader \<Rightarrow> 'w ipc_client \<Rightarrow> ipc \<Rightarrow> ('w ipc_client \<times> ipc \<times> serf_req list) go" where
  "handleClient env reqHeader c i =
     (case ic_in c of
        [] \<Rightarrow> Ret (c, i, [])
      | w # ws \<Rightarrow>
          (let c1 = c\<lparr>ic_in := ws\<rparr> in
           case d_header env w reqHeader of
             Inl err \<Rightarrow> Ret (c1, i, [])
           | Inr h \<Rightarrow>
               (case handleRequest env c1 i h of
                  Panic \<Rightarrow> Panic
                | Ret (Some err, c2, i2, reqs) \<Rightarrow> Ret (c2, i2, reqs)
                | Ret (None, c2, i2, reqs) \<Rightarrow>
                    go_bind (handleClient env h c2 i2) (\<lambda>(c3, i3, reqs'). Ret (c3, i3, reqs @ reqs')))))"
  by pat_completeness auto
termination
proof (relation "measure (\<lambda>(env, h, c, i). length (ic_in c))")
  fix env :: "'w env" and reqHeader h and c c1 c2 :: "'w ipc_client" and i i2 and w ws r a b d reqs
  assume "ic_in c = w # ws" "c1 = c\<lparr>ic_in := ws\<rparr>" "handleRequest env c1 i h = Ret r" "(a, b) = r"
    "a = None" "(c2, d) = b" "(i2, reqs) = d"
  then show "((env, h, c2, i2), env, reqHeader, c, i) \<in> measure (\<lambda>(env, h, c, i). length (ic_in c))"
    using shrinks_request [of c1 env i h] by auto
qed simp

declare handleClient.simps [simp del]

fun stop_event_streams :: "'w env \<Rightarrow> (uint64 \<rightharpoonup> nat) \<Rightarrow> uint64 list \<Rightarrow> ipc \<Rightarrow> ipc go" where
  "stop_event_streams env streams [] i = Ret i"
| "stop_event_streams env streams (q # qs) i =
     (case streams q of
        None \<Rightarrow> stop_event_streams env streams qs i
      | Some es \<Rightarrow> go_bind (stop_event_stream env es i) (stop_event_streams env streams qs))"

definition deregisterClient :: "'w env \<Rightarrow> 'w ipc_client \<Rightarrow> ipc \<Rightarrow> ('w ipc_client \<times> ipc) go" where
  "deregisterClient env c i =
     (let i1 = i\<lparr>ip_clients := ip_clients i - {ic_name c}\<rparr> in
      go_bind (case ic_logStreamer c of None \<Rightarrow> Ret i1 | Some (ls, seq) \<Rightarrow> stop_log_stream ls i1) (\<lambda>i2.
      go_bind (stop_event_streams env (ic_eventStreams c) (s_seqs env (dom (ic_eventStreams c))) i2) (\<lambda>i3.
        Ret (c\<lparr>ic_closed := True\<rparr>, i3))))"

definition zero_header :: requestHeader where
  "zero_header = \<lparr>rh_Command = '''', rh_Seq = 0\<rparr>"

text \<open>The goroutine of one client, with its deferred clean-up.\<close>

definition serve_client :: "'w env \<Rightarrow> 'w ipc_client \<Rightarrow> ipc \<Rightarrow> ('w ipc_client \<times> ipc \<times> serf_req list) go" where
  "serve_client env c i =
     go_bind (handleClient env zero_header c i) (\<lambda>(c1, i1, reqs).
     go_bind (deregisterClient env c1 i1) (\<lambda>(c2, i2). Ret (c2, i2, reqs)))"

section \<open>The server\<close>

text \<open>Streams get the identities from 2 on; 0 and 1 are the two handlers that the agent command itself
  registers.\<close>

definition NewAgentIPC :: "nat agent \<Rightarrow> files \<Rightarrow> string \<Rightarrow> nat log_writer \<Rightarrow> ipc" where
  "NewAgentIPC agent fl authKey logWriter =
     \<lparr>ip_agent = agent, ip_files = fl, ip_discoverd = None, ip_authKey = authKey, ip_logWriter = logWriter,
      ip_stop = False, ip_evs = Map.empty, ip_lss = Map.empty, ip_next = 2, ip_clients = {}\<rparr>"

definition SetDiscoverd :: "discoverd \<Rightarrow> ipc \<Rightarrow> ipc" where
  "SetDiscoverd d i = i\<lparr>ip_discoverd := Some d\<rparr>"

text \<open>One turn of the accept loop: \<open>None\<close> is a failed \<^verbatim>\<open>Accept\<close>, after which the loop ends if the server
  has stopped. A connection accepted after the stop is closed at once.\<close>

definition listen_step :: "(string \<times> 'w list) option \<Rightarrow> ipc \<Rightarrow> bool \<times> 'w ipc_client option \<times> ipc" where
  "listen_step conn i =
     (case conn of
        None \<Rightarrow> (\<not> ip_stop i, None, i)
      | Some (name, input) \<Rightarrow>
          (let client = new_client name input in
           if \<not> ip_stop i then (True, Some client, i\<lparr>ip_clients := insert (ic_name client) (ip_clients i)\<rparr>)
           else (True, Some (client\<lparr>ic_closed := True\<rparr>), i)))"

text \<open>The result names the clients whose connections are closed and says whether the discovery daemon is
  told to stop its REST server.\<close>

definition AgentIPC_Shutdown :: "ipc \<Rightarrow> (string set \<times> bool) \<times> ipc" where
  "AgentIPC_Shutdown i =
     (if ip_stop i then (({}, False), i)
      else ((ip_clients i, ip_discoverd i \<noteq> None), i\<lparr>ip_stop := True\<rparr>))"

section \<open>Sessions leave no trace\<close>

definition no_streams :: "'w ipc_client \<Rightarrow> bool" where
  "no_streams c \<longleftrightarrow> ic_logStreamer c = None \<and> ic_eventStreams c = Map.empty"

definition server_idle :: "ipc \<Rightarrow> bool" where
  "server_idle i \<longleftrightarrow>
     agent_inv (ip_agent i) \<and>
     (\<exists>d. ip_discoverd i = Some d \<and> finite (dom (d_table d)) \<and> finite (dom (items (apps (d_repo d))))) \<and>
     lw_index (ip_logWriter i) < length (lw_logs (ip_logWriter i)) \<and>
     (\<forall>x \<in> ag_eventHandlers (ip_agent i) \<union> lw_handlers (ip_logWriter i). x < ip_next i)"

lemma server_inv_idle:
  "no_streams c \<Longrightarrow> server_inv Ba Bl c i \<longleftrightarrow>
     server_idle i \<and> ag_eventHandlers (ip_agent i) = Ba \<and> lw_handlers (ip_logWriter i) = Bl"
  by (auto simp: no_streams_def server_inv_def server_idle_def log_inv_def)

text \<open>What holds of a client's responses after a session that began with \<open>c\<close>.\<close>

definition seqs_of :: "'w env \<Rightarrow> 'w list \<Rightarrow> uint64 set" where
  "seqs_of env ws = {rh_Seq h' |h h' w. w \<in> set ws \<and> d_header env w h = Inr h'}"

lemma seqs_of_mono: "set vs \<subseteq> set ws \<Longrightarrow> seqs_of env vs \<subseteq> seqs_of env ws"
  by (auto simp: seqs_of_def)

definition session_post :: "nat set \<Rightarrow> nat set \<Rightarrow> 'w env \<Rightarrow> 'w ipc_client \<Rightarrow> 'w ipc_client \<Rightarrow> ipc \<Rightarrow> bool" where
  "session_post Ba Bl env c c' i' \<longleftrightarrow>
     server_inv Ba Bl c' i' \<and> ic_name c' = ic_name c \<and>
     (\<exists>rs. ic_out c' = ic_out c @ rs \<and> length rs \<le> length (ic_in c) \<and>
           (\<forall>r \<in> set rs. rsp_Seq (fst r) \<in> seqs_of env (ic_in c)))"

lemma session_step:
  assumes c: "ic_in c = w # ws" "d_header env w hdr = Inr h"
    and r: "request_post Ba Bl (rh_Seq h) (c\<lparr>ic_in := ws\<rparr>) e c2 i2"
    and s: "session_post Ba Bl env c2 c3 i3"
  shows "session_post Ba Bl env c c3 i3"
proof -
  obtain k rs where k: "ic_in c2 = drop k ws" "ic_out c2 = ic_out c @ rs" "length rs \<le> 1"
      "\<forall>r \<in> set rs. rsp_Seq (fst r) = rh_Seq h" "ic_name c2 = ic_name c"
    using r by (auto simp: request_post_def)
  obtain rs' where s': "ic_out c3 = ic_out c2 @ rs'" "length rs' \<le> length (ic_in c2)"
      "\<forall>r \<in> set rs'. rsp_Seq (fst r) \<in> seqs_of env (ic_in c2)" "server_inv Ba Bl c3 i3" "ic_name c3 = ic_name c2"
    using s by (auto simp: session_post_def)
  have "rh_Seq h \<in> seqs_of env (ic_in c)"
    using c by (auto simp: seqs_of_def)
  moreover have "seqs_of env (ic_in c2) \<subseteq> seqs_of env (ic_in c)"
    using c k(1) by (intro seqs_of_mono) (auto dest: in_set_dropD)
  moreover have "length (rs @ rs') \<le> length (ic_in c)"
    using s'(2) k(1,3) c(1) by simp
  ultimately show ?thesis
    using k s' unfolding session_post_def by (intro conjI exI [of _ "rs @ rs'"]) auto
qed

lemma session_stop:
  assumes "request_post Ba Bl seq c e c2 i2"
  shows "server_inv Ba Bl c2 i2"
  using assms by (simp add: request_post_def)

lemma handleClient_post:
  "server_inv Ba Bl c i \<Longrightarrow> env_ok env \<Longrightarrow> steady env \<Longrightarrow>
   \<exists>c' i' reqs. handleClient env hdr c i = Ret (c', i', reqs) \<and> session_post Ba Bl env c c' i'"
proof (induction env hdr c i rule: handleClient.induct)
  case (1 env hdr c i)
  show ?case
  proof (cases "ic_in c")
    case Nil
    then show ?thesis using "1.prems" by (simp add: handleClient.simps [of env hdr c i] session_post_def)
  next
    case (Cons w ws)
    let ?c1 = "c\<lparr>ic_in := ws\<rparr>"
    have inv1: "server_inv Ba Bl ?c1 i" using "1.prems" by simp
    show ?thesis
    proof (cases "d_header env w hdr")
      case (Inl err)
      then show ?thesis
        using inv1 Cons by (simp add: handleClient.simps [of env hdr c i] session_post_def)
    next
      case (Inr h)
      from post_request [OF inv1 "1.prems"(2,3), of h]
      obtain e c2 i2 reqs where out: "handleRequest env ?c1 i h = Ret (e, c2, i2, reqs)"
        and post: "request_post Ba Bl (rh_Seq h) ?c1 e c2 i2"
        by (auto simp: outcome_ok_def split: go.splits)
      note step = session_step [OF Cons Inr post]
      show ?thesis
      proof (cases e)
        case (Some err)
        have "session_post Ba Bl env c2 c2 i2"
          using session_stop [OF post] by (simp add: session_post_def)
        then show ?thesis
          using Cons Inr out Some step by (simp add: handleClient.simps [of env hdr c i])
      next
        case None
        have "\<exists>c' i' reqs. handleClient env h c2 i2 = Ret (c', i', reqs) \<and> session_post Ba Bl env c2 c' i'"
          by (rule "1.IH" [OF Cons refl Inr out refl None refl refl session_stop [OF post] "1.prems"(2,3)])
        then show ?thesis
          using Cons Inr out None step by (force simp: handleClient.simps [of env hdr c i])
      qed
    qed
  qed
qed

lemma stop_event_streams_post:
  "server_inv Ba Bl c i \<Longrightarrow> env_ok env \<Longrightarrow> distinct qs \<Longrightarrow>
   (\<And>q. q \<in> set qs \<Longrightarrow> ic_eventStreams c q = streams q) \<Longrightarrow>
   \<exists>i'. stop_event_streams env streams qs i = Ret i' \<and>
     server_inv Ba Bl (c\<lparr>ic_eventStreams := ic_eventStreams c |` (- set qs)\<rparr>) i'"
proof (induction qs arbitrary: c i)
  case Nil
  have "ic_eventStreams c |` UNIV = ic_eventStreams c"
    by (simp add: restrict_map_def)
  with Nil show ?case by simp
next
  case (Cons q qs)
  show ?case
  proof (cases "streams q")
    case None
    then have "ic_eventStreams c q = None" using Cons.prems(4) by simp
    then have "ic_eventStreams c |` (- set (q # qs)) = ic_eventStreams c |` (- set qs)"
      by (intro ext) (auto simp: restrict_map_def)
    then show ?thesis using Cons.IH [of c i] Cons.prems None by simp
  next
    case (Some es)
    let ?c = "c\<lparr>ic_eventStreams := (ic_eventStreams c)(q := None)\<rparr>"
    have "ic_eventStreams c q = Some es" using Cons.prems(4) Some by simp
    from inv_event_close [OF Cons.prems(1,2) this] obtain i2 where
      i2: "stop_event_stream env es i = Ret i2"
        "server_inv Ba Bl (c\<lparr>ic_eventStreams := (ic_eventStreams c)(q := None)\<rparr>) i2" by blast
    have "((ic_eventStreams c)(q := None)) |` (- set qs) = ic_eventStreams c |` (- set (q # qs))"
      by (intro ext) (auto simp: restrict_map_def)
    moreover have "\<exists>i'. stop_event_streams env streams qs i2 = Ret i' \<and>
        server_inv Ba Bl (?c\<lparr>ic_eventStreams := ic_eventStreams ?c |` (- set qs)\<rparr>) i'"
      by (rule Cons.IH [OF i2(2) Cons.prems(2)]) (use Cons.prems(3,4) in auto)
    ultimately show ?thesis
      using Some i2(1) by simp
  qed
qed

lemma deregister_post:
  assumes inv: "server_inv Ba Bl c i" and env: "env_ok env"
  shows "\<exists>i'. deregisterClient env c i = Ret (c\<lparr>ic_closed := True\<rparr>, i') \<and> server_idle i' \<and>
    ag_eventHandlers (ip_agent i') = Ba \<and> lw_handlers (ip_logWriter i') = Bl"
proof -
  let ?i1 = "i\<lparr>ip_clients := ip_clients i - {ic_name c}\<rparr>" and ?qs = "s_seqs env (dom (ic_eventStreams c))"
  have inv1: "server_inv Ba Bl c ?i1" using inv by (simp add: server_inv_def)
  have "\<exists>i2. (case ic_logStreamer c of None \<Rightarrow> Ret ?i1 | Some (ls, seq) \<Rightarrow> stop_log_stream ls ?i1) = Ret i2 \<and>
      server_inv Ba Bl (c\<lparr>ic_logStreamer := None\<rparr>) i2"
  proof (cases "ic_logStreamer c")
    case None
    then show ?thesis using inv1 by (simp add: server_inv_def log_inv_def)
  next
    case (Some s)
    obtain ls q where "s = (ls, q)" by (cases s)
    then show ?thesis using inv_log_close [OF inv1] Some by simp
  qed
  then obtain i2 where i2: "(case ic_logStreamer c of None \<Rightarrow> Ret ?i1 | Some (ls, seq) \<Rightarrow> stop_log_stream ls ?i1) = Ret i2"
      "server_inv Ba Bl (c\<lparr>ic_logStreamer := None\<rparr>) i2" by blast
  have qs: "distinct ?qs" "set ?qs = dom (ic_eventStreams c)"
    using env inv by (simp_all add: env_ok_def server_inv_def)
  from stop_event_streams_post [OF i2(2) env qs(1), of "ic_eventStreams c"]
  obtain i3 where i3: "stop_event_streams env (ic_eventStreams c) ?qs i2 = Ret i3"
      "server_inv Ba Bl (c\<lparr>ic_logStreamer := None, ic_eventStreams := ic_eventStreams c |` (- set ?qs)\<rparr>) i3"
    by auto
  have "no_streams (c\<lparr>ic_logStreamer := None, ic_eventStreams := ic_eventStreams c |` (- set ?qs)\<rparr>)"
    using qs(2) by (auto simp: no_streams_def restrict_map_def)
  then show ?thesis
    using i2(1) i3 server_inv_idle by (auto simp: deregisterClient_def Let_def)
qed

section \<open>A concrete environment\<close>

text \<open>Wire objects of four kinds are enough to run a session.\<close>

datatype wire = WHeader string uint64 | WVersion int | WText string | WStop uint64

fun wire_text :: "wire \<Rightarrow> string + string" where
  "wire_text (WText s) = Inr s"
| "wire_text _ = Inl ''type''"

fun wire_version :: "wire \<Rightarrow> string + int" where
  "wire_version (WVersion v) = Inr v"
| "wire_version _ = Inl ''type''"

fun wire_stop :: "wire \<Rightarrow> string + uint64" where
  "wire_stop (WStop q) = Inr q"
| "wire_stop _ = Inl ''type''"

fun wire_header :: "wire \<Rightarrow> requestHeader \<Rightarrow> string + requestHeader" where
  "wire_header (WHeader cmd q) h = Inr \<lparr>rh_Command = cmd, rh_Seq = q\<rparr>"
| "wire_header _ h = Inl ''type''"

definition no_key :: keyResponse where
  "no_key = \<lparr>kr_Messages = Map.empty, kr_Keys = Map.empty, kr_NumNodes = 1, kr_NumErr = 0, kr_NumResp = 1\<rparr>"

definition demo_env :: "wire env" where
  "demo_env =
     \<lparr>d_header = wire_header, d_handshake = wire_version, d_auth = wire_text, d_event = (\<lambda>w. Inl ''type''),
      d_forceLeave = wire_text, d_join = (\<lambda>w. Inl ''type''), d_membersFiltered = (\<lambda>w. Inl ''type''),
      d_key = wire_text, d_stream = wire_text, d_monitor = wire_text, d_stop = wire_stop,
      d_tags = (\<lambda>w. Inl ''type''), d_query = (\<lambda>w. Inl ''type''), d_respond = (\<lambda>w. Inl ''type''),
      d_routers = (\<lambda>w. Inl ''type''), d_coordinate = wire_text,
      s_UserEvent = (\<lambda>n p q. None), s_RemoveFailedNode = (\<lambda>n. None), s_Join = (\<lambda>a r. (int (length a), None)),
      s_Members = [demo_member ''n1''], s_status = (\<lambda>st. ''alive''), s_key = (\<lambda>r. (no_key, None)),
      s_Leave = None, s_Shutdown = None, s_SetTags = (\<lambda>t. None), s_internal = ''_serf_'',
      s_Query = (\<lambda>n p q. Inr 0), s_Respond = (\<lambda>q p. None), s_Stats = Map.empty, s_runtime = Map.empty,
      s_local = demo_member ''n1'', s_coordinate = (\<lambda>n. None), s_no_coordinate = undefined,
      s_compile = (\<lambda>p. Inr (\<lambda>s. True)), s_json = demo_json, s_conf_after = (\<lambda>t c. c),
      s_check = (\<lambda>level line. True), s_order = sorted_list_of_set, s_keys = sorted_list_of_set,
      s_seqs = sorted_list_of_set, s_counted = (\<lambda>d. d)\<rparr>"

lemma env_ok_demo: "env_ok demo_env"
  by (simp add: env_ok_def demo_env_def)

lemma steady_demo: "steady demo_env"
  by (simp add: steady_def demo_env_def)

definition demo_agent :: "nat agent" where
  "demo_agent = new_agent tags_conf \<lparr>sc_Tags = None, sc_Keyring = None\<rparr>"

definition demo_ipc :: "string \<Rightarrow> ipc" where
  "demo_ipc key = SetDiscoverd (Discoverd_Create 60 (demo_member ''n1'')) (NewAgentIPC demo_agent no_files key (NewLogWriter 512))"

lemma demo_idle: "server_idle (demo_ipc key)"
  by (simp add: server_idle_def demo_ipc_def SetDiscoverd_def NewAgentIPC_def demo_agent_def new_agent_def
      agent_inv_def NewLogWriter_def Discoverd_Create_def NewDiscoverdRepo_def NewCache_def newCacheWithJanitor_def newCache_def runJanitor_def Let_def cache_RegExpiredHandler_def)

definition demo_session :: "wire list" where
  "demo_session =
     [WHeader ''handshake'' 0, WVersion 1, WHeader ''members'' 1, WHeader ''monitor'' 2, WText ''debug'',
      WHeader ''stream'' 3, WText ''*'', WHeader ''stop'' 4, WStop 3]"

section \<open>Properties\<close>



section \<open>Access control\<close>

text \<open>What a request may do before the client is authenticated: nothing but answer without a body.\<close>

definition refused :: "'w ipc_client \<Rightarrow> ipc \<Rightarrow> 'w outcome \<Rightarrow> bool" where
  "refused c i out \<longleftrightarrow>
     (\<exists>e c'. out = Ret (e, c', i, []) \<and> \<not> ic_didAuth c' \<and> set (ic_in c') \<subseteq> set (ic_in c) \<and>
        (\<exists>rs. ic_out c' = ic_out c @ rs \<and> (\<forall>r \<in> set rs. snd r = None)))"

lemma refused_respond:
  "\<not> ic_didAuth c1 \<Longrightarrow> set (ic_in c1) \<subseteq> set (ic_in c) \<Longrightarrow> ic_out c1 = ic_out c \<Longrightarrow>
   refused c i (respond seq err None c1 i [])"
  by (simp add: refused_def respond_def IPCClient_Send_def)

lemma refused_send:
  "\<not> ic_didAuth c \<Longrightarrow>
   refused c i (let (_, c1) = IPCClient_Send \<lparr>rsp_Seq = seq, rsp_Error = err\<rparr> None c in Ret (e, c1, i, []))"
  by (simp add: refused_def IPCClient_Send_def)

lemma refused_with_req:
  assumes "\<not> ic_didAuth c"
    and "\<And>w ws r. ic_in c = w # ws \<Longrightarrow> dec w = Inr r \<Longrightarrow> refused c i (k r (c\<lparr>ic_in := ws\<rparr>))"
  shows "refused c i (with_req dec c i k)"
  using assms by (auto simp: with_req_def Let_def refused_def split: list.splits sum.splits)

lemma request_unauthenticated:
  assumes key: "ip_authKey i \<noteq> ''''" "\<forall>w \<in> set (ic_in c). d_auth env w \<noteq> Inr (ip_authKey i)"
    and no: "\<not> ic_didAuth c"
  shows "refused c i (handleRequest env c i h)"
proof -
  have hs: "refused c i (handleHandshake env c i q)" for q
    unfolding handleHandshake_def
    by (rule refused_with_req [OF no]) (auto intro!: refused_respond simp: no)
  have au: "refused c i (handleAuth env c i q)" for q
    unfolding handleAuth_def
    by (rule refused_with_req [OF no]) (use key in \<open>auto intro!: refused_respond simp: no\<close>)
  show ?thesis
    using hs au no key(1) refused_send [OF no] by (auto simp: handleRequest_def Let_def [of "rh_Command h"] Let_def [of "rh_Seq h"])
qed

lemma session_unauthenticated:
  "ip_authKey i \<noteq> '''' \<Longrightarrow> \<forall>w \<in> set (ic_in c). d_auth env w \<noteq> Inr (ip_authKey i) \<Longrightarrow> \<not> ic_didAuth c \<Longrightarrow>
   \<exists>c'. handleClient env hdr c i = Ret (c', i, []) \<and> (\<exists>rs. ic_out c' = ic_out c @ rs \<and> (\<forall>r \<in> set rs. snd r = None))"
proof (induction env hdr c i rule: handleClient.induct)
  case (1 env hdr c i)
  show ?case
  proof (cases "ic_in c")
    case Nil
    then show ?thesis by (simp add: handleClient.simps [of env hdr c i])
  next
    case (Cons w ws)
    show ?thesis
    proof (cases "d_header env w hdr")
      case (Inl err)
      then show ?thesis using Cons by (simp add: handleClient.simps [of env hdr c i])
    next
      case (Inr h)
      have "refused (c\<lparr>ic_in := ws\<rparr>) i (handleRequest env (c\<lparr>ic_in := ws\<rparr>) i h)"
        using "1.prems" Cons by (intro request_unauthenticated) auto
      then obtain e c2 rs where out: "handleRequest env (c\<lparr>ic_in := ws\<rparr>) i h = Ret (e, c2, i, [])"
        and c2: "\<not> ic_didAuth c2" "set (ic_in c2) \<subseteq> set ws" "ic_out c2 = ic_out c @ rs" "\<forall>r \<in> set rs. snd r = None"
        by (auto simp: refused_def)
      show ?thesis
      proof (cases e)
        case (Some err)
        then show ?thesis using Cons Inr out c2 by (simp add: handleClient.simps [of env hdr c i])
      next
        case None
        have "\<forall>w \<in> set (ic_in c2). d_auth env w \<noteq> Inr (ip_authKey i)"
          using "1.prems"(2) Cons c2(2) by auto
        from "1.IH" [OF Cons refl Inr out refl None refl refl "1.prems"(1) this c2(1)]
        obtain c3 rs' where "handleClient env h c2 i = Ret (c3, i, [])"
            "ic_out c3 = ic_out c2 @ rs'" "\<forall>r \<in> set rs'. snd r = None" by blast
        then show ?thesis
          using Cons Inr out None c2 by (auto simp: handleClient.simps [of env hdr c i])
      qed
    qed
  qed
qed

text \<open>C22. With an authentication key set, a client that never presents it has no effect: over its whole
  session nothing is asked of serf, the agent, the log writer, the files and the discovery daemon stay
  as they are, and every response is a bare header, without a body.\<close>

theorem unauthenticated_no_effect:
  assumes "ip_authKey i \<noteq> ''''" and "\<forall>w \<in> set input. d_auth env w \<noteq> Inr (ip_authKey i)"
  shows "\<exists>c'. handleClient env hdr (new_client name input) i = Ret (c', i, []) \<and> (\<forall>r \<in> set (ic_out c'). snd r = None)"
  using session_unauthenticated [of i "new_client name input" env hdr] assms by (auto simp: new_client_def)

theorem unauthenticated_no_effect_witness:
  "\<exists>c'. handleClient demo_env zero_header
      (new_client ''c1'' [WHeader ''handshake'' 0, WVersion 1, WHeader ''auth'' 1, WText ''guess'', WHeader ''leave'' 2])
      (demo_ipc ''secret'') = Ret (c', demo_ipc ''secret'', []) \<and> (\<forall>r \<in> set (ic_out c'). snd r = None)"
  by (rule unauthenticated_no_effect)
    (simp_all add: demo_ipc_def SetDiscoverd_def NewAgentIPC_def demo_env_def)

end
