(* ===== verification/IpcStreams.thy ===== *)
theory IpcStreams
  imports IpcSession
begin

text \<open>
  The goroutines that send to an IPC client without being asked: the event stream
  (\<^verbatim>\<open>command/agent/ipc_event_stream.go\<close>), which interprets the contract of bounded streams, and the
  stream of a query's results (\<^verbatim>\<open>command/agent/ipc_query_response_stream.go\<close>); the queries a client may
  respond to (\<^verbatim>\<open>RegisterQuery\<close> and \<^verbatim>\<open>handleRespond\<close> of \<^verbatim>\<open>command/agent/ipc.go\<close>); the members filter.
\<close>

section \<open>The event stream\<close>

definition evs_HandleEvent :: "(EventType \<Rightarrow> string) \<Rightarrow> Event \<Rightarrow> event_stream \<Rightarrow> event_stream go" where
  "evs_HandleEvent tyname e es =
     (if list_ex (\<lambda>f. EventFilter_Invoke tyname f e) (evs_filters es)
      then go_bind (try_send e (evs_eventCh es)) (\<lambda>(sent, c). Ret (es\<lparr>evs_eventCh := c\<rparr>))
      else Ret es)"

definition sendMemberEvent ::
  "(EventType \<Rightarrow> string) \<Rightarrow> (MemberStatus \<Rightarrow> string) \<Rightarrow> uint64 \<Rightarrow> EventType \<Rightarrow> Member list \<Rightarrow> 'w ipc_client \<Rightarrow>
   string option \<times> 'w ipc_client" where
  "sendMemberEvent tyname status seq t ms c =
     IPCClient_Send \<lparr>rsp_Seq = seq, rsp_Error = ''''\<rparr>
       (Some (RMemberEvent \<lparr>me_Event = tyname t, me_Members = map (ipc_member status) ms\<rparr>)) c"

definition sendUserEvent ::
  "(EventType \<Rightarrow> string) \<Rightarrow> uint64 \<Rightarrow> uint64 \<Rightarrow> string \<Rightarrow> string \<Rightarrow> bool \<Rightarrow> 'w ipc_client \<Rightarrow> string option \<times> 'w ipc_client" where
  "sendUserEvent tyname seq lt name payload co c =
     IPCClient_Send \<lparr>rsp_Seq = seq, rsp_Error = ''''\<rparr>
       (Some (RUserEvent \<lparr>ue_Event = tyname EventUser, ue_LTime = lt, ue_Name = name, ue_Payload = payload, ue_Coalesce = co\<rparr>)) c"

definition sendQuery ::
  "(EventType \<Rightarrow> string) \<Rightarrow> (Query \<Rightarrow> int) \<Rightarrow> uint64 \<Rightarrow> Query \<Rightarrow> 'w ipc_client \<Rightarrow> string option \<times> 'w ipc_client" where
  "sendQuery tyname timeout seq q c =
     (let (qid, c1) = RegisterQuery (timeout q) q c
      in IPCClient_Send \<lparr>rsp_Seq = seq, rsp_Error = ''''\<rparr>
           (Some (RQueryEvent \<lparr>qe_Event = tyname EventQuery, qe_ID = qid, qe_LTime = q_LTime q, qe_Name = q_Name q,
              qe_Payload = q_Payload q\<rparr>)) c1)"

text \<open>One turn of the streaming goroutine; the connection takes the record exactly if \<open>ok\<close>.\<close>

definition send_event ::
  "(EventType \<Rightarrow> string) \<Rightarrow> (MemberStatus \<Rightarrow> string) \<Rightarrow> (Query \<Rightarrow> int) \<Rightarrow> uint64 \<Rightarrow> Event \<Rightarrow> 'w ipc_client \<Rightarrow>
   string option \<times> 'w ipc_client" where
  "send_event tyname status timeout seq event c =
     (case event of
        MemberEvent t ms \<Rightarrow> sendMemberEvent tyname status seq t ms c
      | UserEvent lt name payload co \<Rightarrow> sendUserEvent tyname seq lt name payload co c
      | QueryEvent q \<Rightarrow> sendQuery tyname timeout seq q c
      | OtherEvent t \<Rightarrow> (Some (''Unknown event type: '' @ tyname t), c))"

definition evs_stream ::
  "(EventType \<Rightarrow> string) \<Rightarrow> (MemberStatus \<Rightarrow> string) \<Rightarrow> (Query \<Rightarrow> int) \<Rightarrow> bool \<Rightarrow>
   event_stream \<times> 'w ipc_client \<Rightarrow> event_stream \<times> 'w ipc_client" where
  "evs_stream tyname status timeout ok s =
     (let (es, c) = s in
      if evs_returned es then s
      else case ch_buf (evs_eventCh es) of
        [] \<Rightarrow> if ch_closed (evs_eventCh es) then (es\<lparr>evs_returned := True\<rparr>, c) else s
      | event # rest \<Rightarrow>
          (let es1 = es\<lparr>evs_eventCh := (evs_eventCh es)\<lparr>ch_buf := rest\<rparr>\<rparr>;
               (err, c1) = send_event tyname status timeout (evs_seq es) event (c\<lparr>ic_broken := \<not> ok\<rparr>)
           in case err of None \<Rightarrow> (es1, c1) | Some e \<Rightarrow> (es1\<lparr>evs_returned := True\<rparr>, c1)))"

text \<open>The record a client gets for an event.\<close>

fun event_record ::
  "(EventType \<Rightarrow> string) \<Rightarrow> (MemberStatus \<Rightarrow> string) \<Rightarrow> Event \<Rightarrow> reply \<Rightarrow> bool" where
  "event_record tyname status (MemberEvent t ms) r \<longleftrightarrow>
     r = RMemberEvent \<lparr>me_Event = tyname t, me_Members = map (ipc_member status) ms\<rparr>"
| "event_record tyname status (UserEvent lt name payload co) r \<longleftrightarrow>
     r = RUserEvent \<lparr>ue_Event = tyname EventUser, ue_LTime = lt, ue_Name = name, ue_Payload = payload, ue_Coalesce = co\<rparr>"
| "event_record tyname status (QueryEvent q) r \<longleftrightarrow>
     (\<exists>qid. r = RQueryEvent \<lparr>qe_Event = tyname EventQuery, qe_ID = qid, qe_LTime = q_LTime q, qe_Name = q_Name q,
        qe_Payload = q_Payload q\<rparr>)"
| "event_record tyname status (OtherEvent t) r \<longleftrightarrow> False"

definition event_message ::
  "(EventType \<Rightarrow> string) \<Rightarrow> (MemberStatus \<Rightarrow> string) \<Rightarrow> uint64 \<Rightarrow> Event \<Rightarrow> responseHeader \<times> reply option \<Rightarrow> bool" where
  "event_message tyname status seq e m \<longleftrightarrow>
     (\<exists>r. m = (\<lparr>rsp_Seq = seq, rsp_Error = ''''\<rparr>, Some r) \<and> event_record tyname status e r)"

lemma send_event_sent:
  "send_event tyname status timeout seq e c = (err, c') \<Longrightarrow>
   (err \<noteq> None \<and> ic_out c' = ic_out c) \<or>
   (err = None \<and> (\<exists>m. event_message tyname status seq e m \<and> ic_out c' = ic_out c @ [m]))"
  by (cases e)
    (auto simp: send_event_def sendMemberEvent_def sendUserEvent_def sendQuery_def IPCClient_Send_def
      RegisterQuery_def nextQueryID_def Let_def event_message_def split: if_splits)

text \<open>The stream and the client it sends to, as one state; \<open>base\<close> is what the client has been sent before.\<close>

definition evs_handle :: "(EventType \<Rightarrow> string) \<Rightarrow> Event \<Rightarrow> event_stream \<times> 'w ipc_client \<Rightarrow> (event_stream \<times> 'w ipc_client) go" where
  "evs_handle tyname e s = go_bind (evs_HandleEvent tyname e (fst s)) (\<lambda>es. Ret (es, snd s))"

definition evs_stop :: "event_stream \<times> 'w ipc_client \<Rightarrow> (event_stream \<times> 'w ipc_client) go" where
  "evs_stop s = go_bind (es_Stop (fst s)) (\<lambda>es. Ret (es, snd s))"

definition passes :: "(EventType \<Rightarrow> string) \<Rightarrow> EventFilter list \<Rightarrow> Event \<Rightarrow> bool" where
  "passes tyname filters e \<longleftrightarrow> list_ex (\<lambda>f. EventFilter_Invoke tyname f e) filters"

lemma evs_stream_item:
  assumes "\<not> evs_returned es" and "ch_buf (evs_eventCh es) = e # rest"
    and "take (length base) (ic_out c) = base"
  shows "\<exists>es' c'. evs_stream tyname status timeout ok (es, c) = (es', c') \<and>
     evs_seq es' = evs_seq es \<and> evs_filters es' = evs_filters es \<and> take (length base) (ic_out c') = base \<and>
     evs_eventCh es' = (evs_eventCh es)\<lparr>ch_buf := rest\<rparr> \<and>
     (drop (length base) (ic_out c') = drop (length base) (ic_out c) \<and> evs_returned es' \<or>
      (\<exists>m. event_message tyname status (evs_seq es) e m \<and>
         drop (length base) (ic_out c') = drop (length base) (ic_out c) @ [m] \<and> \<not> evs_returned es'))"
proof -
  obtain err c' where s: "send_event tyname status timeout (evs_seq es) e (c\<lparr>ic_broken := \<not> ok\<rparr>) = (err, c')"
    by (cases "send_event tyname status timeout (evs_seq es) e (c\<lparr>ic_broken := \<not> ok\<rparr>)")
  have len: "length base \<le> length (ic_out c)"
    using assms(3) by (metis length_take min.bounded_iff order_refl)
  from send_event_sent [OF s] assms s len show ?thesis
    by (auto simp: evs_stream_def Let_def split: option.splits)
qed

interpretation event_sink: bounded_stream
    "passes tyname filters" "event_message tyname status seq"
    "evs_handle tyname" evs_stop "evs_stream tyname status timeout"
    "\<lambda>s. evs_eventCh (fst s)" "\<lambda>s. drop (length base) (ic_out (snd s))" "\<lambda>s. evs_returned (fst s)"
    "\<lambda>s. evs_seq (fst s) = seq \<and> evs_filters (fst s) = filters \<and> take (length base) (ic_out (snd s)) = base"
  for tyname status timeout seq filters base
proof (unfold_locales, goal_cases)
  case (8 s x xs ok)
  then show ?case
    using evs_stream_item [of "fst s" x xs base "snd s" tyname status timeout ok] by auto
qed (auto simp: evs_handle_def evs_stop_def passes_def evs_HandleEvent_def try_send_def es_Stop_def close_chan_def
    evs_stream_def Let_def split: prod.splits list.splits)

section \<open>The results of a query\<close>

text \<open>What \<^verbatim>\<open>select\<close> of \<^verbatim>\<open>Stream\<close> picks: an acknowledgement, a response, or the deadline; with it, whether the
  connection takes the record.\<close>

datatype query_pick = PickAck string | PickResponse string string | PickDone

fun query_record_of :: "query_pick \<Rightarrow> queryRecord" where
  "query_record_of (PickAck from) = \<lparr>qrec_Type = queryRecordAck, qrec_From = from, qrec_Payload = ''''\<rparr>"
| "query_record_of (PickResponse from payload) = \<lparr>qrec_Type = queryRecordResponse, qrec_From = from, qrec_Payload = payload\<rparr>"
| "query_record_of PickDone = \<lparr>qrec_Type = queryRecordDone, qrec_From = '''', qrec_Payload = ''''\<rparr>"

definition sendRecord :: "uint64 \<Rightarrow> query_pick \<Rightarrow> 'w ipc_client \<Rightarrow> string option \<times> 'w ipc_client" where
  "sendRecord seq p c = IPCClient_Send \<lparr>rsp_Seq = seq, rsp_Error = ''''\<rparr> (Some (RQuery (query_record_of p))) c"

text \<open>The result says whether the goroutine has returned.\<close>

fun qs_Stream :: "uint64 \<Rightarrow> (query_pick \<times> bool) list \<Rightarrow> 'w ipc_client \<Rightarrow> bool \<times> 'w ipc_client" where
  "qs_Stream seq [] c = (False, c)"
| "qs_Stream seq ((p, ok) # ps) c =
     (let (err, c1) = sendRecord seq p (c\<lparr>ic_broken := \<not> ok\<rparr>)
      in if err \<noteq> None \<or> p = PickDone then (True, c1) else qs_Stream seq ps c1)"

definition query_messages :: "uint64 \<Rightarrow> query_pick list \<Rightarrow> (responseHeader \<times> reply option) list" where
  "query_messages seq ps = map (\<lambda>p. (\<lparr>rsp_Seq = seq, rsp_Error = ''''\<rparr>, Some (RQuery (query_record_of p)))) ps"

text \<open>A query's results reach the client in the order they are received, up to the first record the
  connection refuses; the stream ends with the \<^verbatim>\<open>done\<close> record and sends nothing after it.\<close>

fun streamed :: "(query_pick \<times> bool) list \<Rightarrow> query_pick list" where
  "streamed [] = []"
| "streamed ((p, ok) # ps) = (if \<not> ok then [] else if p = PickDone then [p] else p # streamed ps)"

lemma query_stream_in_order:
  "\<not> ic_closed c \<Longrightarrow> qs_Stream seq ps c = (returned, c') \<Longrightarrow>
   ic_out c' = ic_out c @ query_messages seq (streamed ps) \<and> \<not> ic_closed c' \<and>
   (returned \<longleftrightarrow> (\<exists>p \<in> set ps. \<not> snd p \<or> fst p = PickDone))"
proof (induction seq ps c arbitrary: c' rule: qs_Stream.induct)
  case (2 seq p ok ps c)
  let ?c = "c\<lparr>ic_broken := \<not> ok\<rparr>"
  show ?case
  proof (cases "ok \<and> p \<noteq> PickDone")
    case True
    let ?c1 = "?c\<lparr>ic_out := ic_out c @ query_messages seq [p]\<rparr>"
    have s: "sendRecord seq p ?c = (None, ?c1)"
      using True 2(2) by (simp add: sendRecord_def IPCClient_Send_def query_messages_def)
    then have "ic_out c' = ic_out ?c1 @ query_messages seq (streamed ps) \<and> \<not> ic_closed c' \<and>
        (returned \<longleftrightarrow> (\<exists>p \<in> set ps. \<not> snd p \<or> fst p = PickDone))"
      using 2(2,3) True by (intro 2(1) [of "(None, ?c1)" None ?c1]) auto
    then show ?thesis using True by (simp add: query_messages_def)
  next
    case False
    then show ?thesis
      using 2(2,3) by (auto simp: sendRecord_def IPCClient_Send_def query_messages_def)
  qed
qed (simp add: query_messages_def)

section \<open>Pending queries\<close>

text \<open>What happens to a client's pending queries: a query is streamed to it with so much time left, or a
  timer expires.\<close>

datatype query_op = QStart int Query | QExpire uint64

fun query_step :: "query_op \<Rightarrow> 'w ipc_client \<Rightarrow> 'w ipc_client" where
  "query_step (QStart timeout q) c = snd (RegisterQuery timeout q c)"
| "query_step (QExpire qid) c = expire_query qid c"

text \<open>The identifiers the client is told, in order.\<close>

fun told :: "query_op list \<Rightarrow> 'w ipc_client \<Rightarrow> (uint64 \<times> Query) list" where
  "told [] c = []"
| "told (QStart timeout q # ops) c = (fst (RegisterQuery timeout q c), q) # told ops (query_step (QStart timeout q) c)"
| "told (QExpire qid # ops) c = told ops (query_step (QExpire qid) c)"

lemma query_ids_gen:
  "unat (ic_queryID c) + length ops < 2 ^ 64 \<Longrightarrow> (\<forall>qid \<in> dom (ic_pendingQueries c). unat qid \<le> unat (ic_queryID c)) \<Longrightarrow>
   map (unat \<circ> fst) (told ops c) = [Suc (unat (ic_queryID c)) ..< Suc (unat (ic_queryID c) + length (told ops c))] \<and>
   length (told ops c) \<le> length ops \<and>
   map_le (ic_pendingQueries (fold query_step ops c)) (ic_pendingQueries c ++ map_of (told ops c))"
proof (induction ops arbitrary: c)
  case (Cons op ops)
  show ?case
  proof (cases op)
    case (QExpire qid)
    have "ic_pendingQueries (expire_query qid c) \<subseteq>\<^sub>m ic_pendingQueries c" 
      by (simp add: expire_query_def map_le_def)
    then have le: "ic_pendingQueries (expire_query qid c) ++ map_of ts \<subseteq>\<^sub>m ic_pendingQueries c ++ map_of ts" for ts
      by (auto simp: map_le_def map_add_def split: option.splits)
    have "unat (ic_queryID (expire_query qid c)) + length ops < 2 ^ 64"
      "\<forall>x \<in> dom (ic_pendingQueries (expire_query qid c)). unat x \<le> unat (ic_queryID (expire_query qid c))"
      using Cons.prems by (auto simp: expire_query_def split: if_splits)
    note ih = Cons.IH [OF this]
    then have "ic_pendingQueries (fold query_step ops (expire_query qid c)) \<subseteq>\<^sub>m
        ic_pendingQueries c ++ map_of (told ops (expire_query qid c))"
      using map_le_trans [OF _ le] by blast
    moreover have "ic_queryID (expire_query qid c) = ic_queryID c"
      by (simp add: expire_query_def)
    ultimately show ?thesis
      using QExpire ih by (simp del: upt_Suc)
  next
    case (QStart timeout q)
    let ?c = "query_step op c" and ?qid = "ic_queryID c + 1"
    have nid: "unat ?qid = Suc (unat (ic_queryID c))"
      using Cons.prems(1) by (simp add: unat_word_ariths)
    have c1: "ic_queryID ?c = ?qid" "fst (RegisterQuery timeout q c) = ?qid"
      using QStart by (auto simp: RegisterQuery_def nextQueryID_def Let_def)
    have pend: "ic_pendingQueries ?c = ic_pendingQueries c \<or> ic_pendingQueries ?c = (ic_pendingQueries c)(?qid \<mapsto> q)"
      using QStart by (auto simp: RegisterQuery_def nextQueryID_def Let_def)
    have fresh: "?qid \<notin> dom (ic_pendingQueries c)"
    proof
      assume "?qid \<in> dom (ic_pendingQueries c)"
      with Cons.prems(2) have "unat ?qid \<le> unat (ic_queryID c)" by (rule bspec)
      with nid show False by simp
    qed
    have p1: "unat (ic_queryID ?c) + length ops < 2 ^ 64"
      using Cons.prems(1) nid c1 by simp
    have p2: "\<forall>qid \<in> dom (ic_pendingQueries ?c). unat qid \<le> unat (ic_queryID ?c)"
      using pend Cons.prems(2) unfolding c1 nid by (auto intro: le_SucI simp: nid split: if_splits)
    note ih = Cons.IH [OF p1 p2, unfolded c1]
    have "?qid \<notin> fst ` set (told ops ?c)"
    proof
      assume "?qid \<in> fst ` set (told ops ?c)"
      then have "unat ?qid \<in> set (map (unat \<circ> fst) (told ops ?c))" by force
      then show False unfolding conjunct1 [OF ih] set_upt by simp
    qed
    then have "map_of (told ops ?c) ?qid = None"
      by (simp add: map_of_eq_None_iff)
    then have "ic_pendingQueries ?c ++ map_of (told ops ?c) \<subseteq>\<^sub>m ic_pendingQueries c ++ map_of ((?qid, q) # told ops ?c)"
      using pend fresh by (auto simp: map_le_def map_add_def split: option.splits)
    with ih have "ic_pendingQueries (fold query_step ops ?c) \<subseteq>\<^sub>m ic_pendingQueries c ++ map_of ((?qid, q) # told ops ?c)"
      using map_le_trans by blast
    then show ?thesis
      using QStart ih c1 nid by (auto simp: upt_conv_Cons simp del: upt_Suc fun_upd_apply)
  qed
qed simp

section \<open>Properties\<close>

text \<open>An event stream: whatever the interleaving of the agent's events, streaming and stopping, the
  client is sent, under the sequence number of its stream request and in order, the records of a
  sublist of the events that pass one of its filters, each at most once; at most 512 events are ever
  buffered.\<close>

lemma event_stream_in_order:
  assumes "stream_run (evs_handle tyname) evs_stop (evs_stream tyname status timeout) as
      (newEventStream filters seq, c) = Ret (es', c')"
  shows "\<exists>xs ms. ic_out c' = ic_out c @ ms \<and> list_all2 (event_message tyname status seq) xs ms \<and>
    subseq (xs @ ch_buf (evs_eventCh es')) (filter (passes tyname filters) (handled as)) \<and>
    length (ch_buf (evs_eventCh es')) \<le> 512"
proof -
  let ?s = "(newEventStream filters seq, c)"
  have "event_sink.seen tyname status seq (ic_out c) ?s []"
    by (simp add: event_sink.seen_def newEventStream_def make_chan_def)
  from event_sink.run_seen [OF _ this _ assms, where filters = filters]
  have "take (length (ic_out c)) (ic_out c') = ic_out c"
    "event_sink.seen tyname status seq (ic_out c) (es', c') (filter (passes tyname filters) (handled as))"
    "length (ch_buf (evs_eventCh es')) \<le> 512"
    by (auto simp: newEventStream_def make_chan_def)
  then show ?thesis
    unfolding event_sink.seen_def by (metis append_take_drop_id fst_conv snd_conv)
qed

text \<open>C23. The queries a client may answer: whatever queries are streamed to it and whatever timers expire,
  the identifiers it is told are 1, 2, 3, ... without repetition, and a \<^verbatim>\<open>respond\<close> request reaches serf only
  for an identifier it was told, and then with exactly the query it was told under that identifier; for
  every other identifier it is refused without any effect.\<close>

theorem respond_reaches_told_query:
  assumes n: "length ops < 2 ^ 64" and c: "c = fold query_step ops (new_client name input)"
    and w: "d_respond env w = Inr req"
  shows "map (unat \<circ> fst) (told ops (new_client name input)) = [1 ..< Suc (length (told ops (new_client name input)))] \<and>
    ((\<exists>q. (rr_ID req, q) \<in> set (told ops (new_client name input)) \<and>
        handleRespond env (c\<lparr>ic_in := w # ws\<rparr>) i seq =
          respond seq (errToString (s_Respond env q (rr_Payload req))) None (c\<lparr>ic_in := ws\<rparr>) i [QRespond q (rr_Payload req)]) \<or>
     handleRespond env (c\<lparr>ic_in := w # ws\<rparr>) i seq = respond seq invalidQueryID None (c\<lparr>ic_in := ws\<rparr>) i [])"
proof -
  let ?c = "new_client name input"
  have ids: "map (unat \<circ> fst) (told ops ?c) = [1 ..< Suc (length (told ops ?c))]"
    and pend: "ic_pendingQueries c \<subseteq>\<^sub>m map_of (told ops ?c)"
    using query_ids_gen [of ?c ops] n c by (simp_all add: new_client_def del: upt_Suc)
  have "(rr_ID req, q) \<in> set (told ops ?c)" if "ic_pendingQueries c (rr_ID req) = Some q" for q
    using that pend by (metis domI map_le_def map_of_SomeD)
  then show ?thesis
    using ids w by (auto simp: handleRespond_def with_req_def Let_def split: option.splits)
qed

theorem respond_reaches_told_query_witness:
  "\<exists>req q. d_respond (demo_env\<lparr>d_respond := \<lambda>w. Inr \<lparr>rr_ID = 1, rr_Payload = ''0.5''\<rparr>\<rparr>) (WText ''x'') = Inr req \<and>
     (rr_ID req, q) \<in> set (told [QStart 5 q] (new_client ''c'' ([] :: wire list)))"
proof -
  let ?q = "\<lparr>q_id = 1, q_LTime = 3, q_Name = ''load'', q_Payload = ''''\<rparr>"
  let ?env = "demo_env\<lparr>d_respond := \<lambda>w. Inr \<lparr>rr_ID = 1, rr_Payload = ''0.5''\<rparr>\<rparr>"
  have "handleRespond ?env ((fold query_step [QStart 5 ?q] (new_client ''c'' []))\<lparr>ic_in := [WText ''x'']\<rparr>) (demo_ipc '''') 0 \<noteq>
      respond 0 invalidQueryID None ((fold query_step [QStart 5 ?q] (new_client ''c'' []))\<lparr>ic_in := []\<rparr>) (demo_ipc '''') []"
    by (simp add: handleRespond_def with_req_def RegisterQuery_def nextQueryID_def new_client_def respond_def IPCClient_Send_def Let_def)
  then show ?thesis
    using respond_reaches_told_query [OF _ refl, of "[QStart 5 ?q]" ?env "WText ''x''" _ "''c''" "[]" "[]" "demo_ipc ''''" 0]
    by auto
qed

section \<open>The members filter\<close>

text \<open>A text matches a pattern that compiles.\<close>

definition matches :: "(string \<Rightarrow> string + (string \<Rightarrow> bool)) \<Rightarrow> string \<Rightarrow> string \<Rightarrow> bool" where
  "matches compile expr s = (case compile (anchored expr) of Inl err \<Rightarrow> False | Inr re \<Rightarrow> re s)"

definition compiles :: "(string \<Rightarrow> string + (string \<Rightarrow> bool)) \<Rightarrow> string \<Rightarrow> bool" where
  "compiles compile expr \<longleftrightarrow> (\<exists>re. compile (anchored expr) = Inr re)"

lemma compile_tags_spec:
  "set ks \<subseteq> dom tags \<Longrightarrow>
   case compile_tags compile tags ks m of
     Inl e \<Rightarrow> \<exists>expr \<in> ran tags. \<exists>err. compile (anchored expr) = Inl err \<and> e = compile_error err
   | Inr m' \<Rightarrow> (\<forall>k \<in> set ks. \<exists>expr re. tags k = Some expr \<and> compile (anchored expr) = Inr re \<and> m' k = Some re) \<and>
       (\<forall>k. k \<notin> set ks \<longrightarrow> m' k = m k)"
proof (induction ks arbitrary: m)
  case (Cons k ks)
  then obtain expr where expr: "tags k = Some expr" by auto
  show ?case
  proof (cases "compile (anchored expr)")
    case (Inl err)
    then show ?thesis using expr by (auto intro: ranI)
  next
    case (Inr re)
    have ih: "case compile_tags compile tags ks (m(k \<mapsto> re)) of
        Inl e \<Rightarrow> \<exists>expr \<in> ran tags. \<exists>err. compile (anchored expr) = Inl err \<and> e = compile_error err
      | Inr m' \<Rightarrow> (\<forall>k \<in> set ks. \<exists>expr re. tags k = Some expr \<and> compile (anchored expr) = Inr re \<and> m' k = Some re) \<and>
          (\<forall>k'. k' \<notin> set ks \<longrightarrow> m' k' = (m(k \<mapsto> re)) k')"
      by (rule Cons.IH) (use Cons.prems in simp)
    show ?thesis
    proof (cases "compile_tags compile tags ks (m(k \<mapsto> re))")
      case (Inl e)
      then show ?thesis using ih expr \<open>compile (anchored expr) = Inr re\<close> by (simp del: fun_upd_apply)
    next
      case (Inr m')
      have "m' k = Some re"
        using ih Inr expr \<open>compile (anchored expr) = Inr re\<close> by (cases "k \<in> set ks") fastforce+
      then show ?thesis
        using ih Inr expr \<open>compile (anchored expr) = Inr re\<close> by (simp del: fun_upd_apply) auto
    qed
  qed
qed simp

text \<open>C24. Filtering members: the filter fails, with the compiler's error, exactly if one of the patterns
  given (those of the tags, of the status and of the name, even the empty ones) does not compile;
  otherwise it keeps, in order, the members that match every tag's pattern (an absent tag counts as
  empty), the status pattern and the name pattern, where an empty status or name pattern matches
  everything. The order in which the tags are visited does not matter for the members kept.\<close>

theorem filter_members_exact:
  assumes ks: "enumerates ks tags"
  shows "case filterMembers compile status_name ks members tags status name of
      Inl e \<Rightarrow> \<exists>expr \<in> ran tags \<union> {status, name}. \<exists>err. compile (anchored expr) = Inl err \<and> e = compile_error err
    | Inr kept \<Rightarrow> (\<forall>expr \<in> ran tags \<union> {status, name}. compiles compile expr) \<and>
        kept = filter (\<lambda>m. (\<forall>tag expr. tags tag = Some expr \<longrightarrow> matches compile expr (nil_string (m_Tags m tag))) \<and>
          (status = '''' \<or> matches compile status (status_name (m_Status m))) \<and>
          (name = '''' \<or> matches compile name (m_Name m))) members"
proof -
  have dom: "set ks = dom tags" using ks by (simp add: enumerates_def)
  note spec = compile_tags_spec [of ks tags compile Map.empty, unfolded dom, OF order_refl]
  show ?thesis
  proof (cases "compile_tags compile tags ks Map.empty")
    case (Inl e)
    then show ?thesis using spec by (auto simp: filterMembers_def)
  next
    case (Inr tagsRe)
    have re: "\<exists>expr re. tags k = Some expr \<and> compile (anchored expr) = Inr re \<and> tagsRe k = Some re" if "k \<in> dom tags" for k
      using spec that Inr by simp
    have tm: "tags_match tagsRe ks m \<longleftrightarrow>
        (\<forall>tag expr. tags tag = Some expr \<longrightarrow> matches compile expr (nil_string (m_Tags m tag)))" for m
      unfolding tags_match_def list_all_iff dom matches_def
      using re by (force split: option.splits)
    have "\<forall>expr \<in> ran tags. compiles compile expr"
      using re by (force simp: ran_def compiles_def)
    then show ?thesis
      using Inr tm by (auto simp: filterMembers_def compiles_def matches_def split: sum.splits intro!: filter_cong)
  qed
qed

theorem filter_members_exact_witness:
  "filterMembers (\<lambda>p. Inr (\<lambda>s. p = anchored s)) (\<lambda>st. ''alive'') [] [demo_member ''n1'', demo_member ''n2''] Map.empty '''' ''n2'' =
     Inr [demo_member ''n2''] \<and>
   (\<exists>kept. kept = filter (\<lambda>m. matches (\<lambda>p. Inr (\<lambda>s. p = anchored s)) ''n2'' (m_Name m)) [demo_member ''n1'', demo_member ''n2''] \<and>
      kept = [demo_member ''n2''])"
proof -
  have f: "filterMembers (\<lambda>p. Inr (\<lambda>s. p = anchored s)) (\<lambda>st. ''alive'') [] [demo_member ''n1'', demo_member ''n2''] Map.empty '''' ''n2'' =
     Inr [demo_member ''n2'']"
    by (simp add: filterMembers_def tags_match_def anchored_def demo_member_def)
  have "enumerates [] (Map.empty :: string \<rightharpoonup> string)"
    by (simp add: enumerates_def)
  from filter_members_exact [OF this, where compile = "\<lambda>p. Inr (\<lambda>s. p = anchored s)" and status_name = "\<lambda>st. ''alive''" and members = "[demo_member ''n1'', demo_member ''n2'']" and status = "''''" and name = "''n2''"]
  show ?thesis using f by simp
qed

end
