(* ===== verification/ClientData.thy ===== *)
theory ClientData
  imports IpcSession
begin

text \<open>
  The RPC client's side of the wire (\<^verbatim>\<open>client/const.go\<close>): its own copies of the protocol's constants and
  message types, what it can send and what it expects back. The types repeat the server's field by
  field, so they are named as synonyms; the constants are written out and shown to agree.
\<close>

section \<open>Constants\<close>

definition cl_maxIPCVersion :: int where "cl_maxIPCVersion = 1"

definition cl_handshakeCommand :: string where "cl_handshakeCommand = ''handshake''"
definition cl_eventCommand :: string where "cl_eventCommand = ''event''"
definition cl_forceLeaveCommand :: string where "cl_forceLeaveCommand = ''force-leave''"
definition cl_joinCommand :: string where "cl_joinCommand = ''join''"
definition cl_membersCommand :: string where "cl_membersCommand = ''members''"
definition cl_membersFilteredCommand :: string where "cl_membersFilteredCommand = ''members-filtered''"
definition cl_streamCommand :: string where "cl_streamCommand = ''stream''"
definition cl_stopCommand :: string where "cl_stopCommand = ''stop''"
definition cl_monitorCommand :: string where "cl_monitorCommand = ''monitor''"
definition cl_leaveCommand :: string where "cl_leaveCommand = ''leave''"
definition cl_installKeyCommand :: string where "cl_installKeyCommand = ''install-key''"
definition cl_useKeyCommand :: string where "cl_useKeyCommand = ''use-key''"
definition cl_removeKeyCommand :: string where "cl_removeKeyCommand = ''remove-key''"
definition cl_listKeysCommand :: string where "cl_listKeysCommand = ''list-keys''"
definition cl_tagsCommand :: string where "cl_tagsCommand = ''tags''"
definition cl_queryCommand :: string where "cl_queryCommand = ''query''"
definition cl_respondCommand :: string where "cl_respondCommand = ''respond''"
definition cl_authCommand :: string where "cl_authCommand = ''auth''"
definition cl_statsCommand :: string where "cl_statsCommand = ''stats''"
definition cl_getCoordinateCommand :: string where "cl_getCoordinateCommand = ''get-coordinate''"
definition cl_listMicroAppsCommand :: string where "cl_listMicroAppsCommand = ''list-microapps''"
definition cl_listRoutersCommand :: string where "cl_listRoutersCommand = ''list-routers''"
definition cl_updateRoutersCommand :: string where "cl_updateRoutersCommand = ''update-routers''"
definition cl_unsupportedCommand :: string where "cl_unsupportedCommand = ''Unsupported command''"
definition cl_unsupportedIPCVersion :: string where "cl_unsupportedIPCVersion = ''Unsupported IPC version''"
definition cl_duplicateHandshake :: string where "cl_duplicateHandshake = ''Handshake already performed''"
definition cl_handshakeRequired :: string where "cl_handshakeRequired = ''Handshake required''"
definition cl_monitorExists :: string where "cl_monitorExists = ''Monitor already exists''"
definition cl_invalidFilter :: string where "cl_invalidFilter = ''Invalid event filter''"
definition cl_streamExists :: string where "cl_streamExists = ''Stream with given sequence exists''"
definition cl_invalidQueryID :: string where "cl_invalidQueryID = ''No pending queries matching ID''"
definition cl_authRequired :: string where "cl_authRequired = ''Authentication required''"
definition cl_invalidAuthToken :: string where "cl_invalidAuthToken = ''Invalid authentication token''"
definition cl_queryRecordAck :: string where "cl_queryRecordAck = ''ack''"
definition cl_queryRecordResponse :: string where "cl_queryRecordResponse = ''response''"
definition cl_queryRecordDone :: string where "cl_queryRecordDone = ''done''"

named_theorems client_constants

lemma constants_agree [client_constants]:
  "cl_maxIPCVersion = MaxIPCVersion"
  "cl_handshakeCommand = handshakeCommand"
  "cl_eventCommand = eventCommand"
  "cl_forceLeaveCommand = forceLeaveCommand"
  "cl_joinCommand = joinCommand"
  "cl_membersCommand = membersCommand"
  "cl_membersFilteredCommand = membersFilteredCommand"
  "cl_streamCommand = streamCommand"
  "cl_stopCommand = stopCommand"
  "cl_monitorCommand = monitorCommand"
  "cl_leaveCommand = leaveCommand"
  "cl_installKeyCommand = installKeyCommand"
  "cl_useKeyCommand = useKeyCommand"
  "cl_removeKeyCommand = removeKeyCommand"
  "cl_listKeysCommand = listKeysCommand"
  "cl_tagsCommand = tagsCommand"
  "cl_queryCommand = queryCommand"
  "cl_respondCommand = respondCommand"
  "cl_authCommand = authCommand"
  "cl_statsCommand = statsCommand"
  "cl_getCoordinateCommand = getCoordinateCommand"
  "cl_listMicroAppsCommand = listMicroAppsCommand"
  "cl_listRoutersCommand = listRoutersCommand"
  "cl_updateRoutersCommand = updateRoutersCommand"
  "cl_unsupportedCommand = unsupportedCommand"
  "cl_unsupportedIPCVersion = unsupportedIPCVersion"
  "cl_duplicateHandshake = duplicateHandshake"
  "cl_handshakeRequired = handshakeRequired"
  "cl_monitorExists = monitorExists"
  "cl_invalidFilter = invalidFilter"
  "cl_streamExists = streamExists"
  "cl_invalidQueryID = invalidQueryID"
  "cl_authRequired = authRequired"
  "cl_invalidAuthToken = invalidAuthToken"
  "cl_queryRecordAck = queryRecordAck"
  "cl_queryRecordResponse = queryRecordResponse"
  "cl_queryRecordDone = queryRecordDone"
  unfolding cl_maxIPCVersion_def MaxIPCVersion_def command_defs
    unsupportedCommand_def unsupportedIPCVersion_def duplicateHandshake_def handshakeRequired_def monitorExists_def invalidFilter_def streamExists_def invalidQueryID_def authRequired_def invalidAuthToken_def queryRecordAck_def queryRecordResponse_def queryRecordDone_def
    cl_handshakeCommand_def cl_eventCommand_def cl_forceLeaveCommand_def cl_joinCommand_def cl_membersCommand_def cl_membersFilteredCommand_def cl_streamCommand_def cl_stopCommand_def cl_monitorCommand_def cl_leaveCommand_def cl_installKeyCommand_def cl_useKeyCommand_def cl_removeKeyCommand_def cl_listKeysCommand_def cl_tagsCommand_def cl_queryCommand_def cl_respondCommand_def cl_authCommand_def cl_statsCommand_def cl_getCoordinateCommand_def cl_listMicroAppsCommand_def cl_listRoutersCommand_def cl_updateRoutersCommand_def cl_unsupportedCommand_def cl_unsupportedIPCVersion_def cl_duplicateHandshake_def cl_handshakeRequired_def cl_monitorExists_def cl_invalidFilter_def cl_streamExists_def cl_invalidQueryID_def cl_authRequired_def cl_invalidAuthToken_def cl_queryRecordAck_def cl_queryRecordResponse_def cl_queryRecordDone_def
  by (rule refl)+

section \<open>Types\<close>

type_synonym cl_requestHeader = requestHeader
type_synonym cl_responseHeader = responseHeader
type_synonym cl_coordinateResponse = coordinateResponse
type_synonym cl_eventRequest = eventRequest
type_synonym cl_joinRequest = joinRequest
type_synonym cl_membersFilteredRequest = membersFilteredRequest
type_synonym cl_keyResponse = keyResponse
type_synonym cl_tagsRequest = tagsRequest
type_synonym cl_queryRequest = queryRequest
type_synonym cl_respondRequest = respondRequest
type_synonym cl_queryRecord = queryRecord
type_synonym cl_userEventRecord = userEventRecord
type_synonym cl_memberEventRecord = memberEventRecord
type_synonym cl_Member = IpcMember
type_synonym cl_logRecord = log_record

record NodeResponse =
  nr_From :: string
  nr_Payload :: string

text \<open>The objects the client encodes: headers and request bodies, one constructor per type.\<close>

datatype msg =
    MHeader cl_requestHeader
  | MHandshake int
  | MAuth string
  | MEvent cl_eventRequest
  | MForceLeave string
  | MJoin cl_joinRequest
  | MMembersFiltered cl_membersFilteredRequest
  | MKey string
  | MMonitor string
  | MStream string
  | MStop uint64
  | MTags cl_tagsRequest
  | MQuery cl_queryRequest
  | MRespond cl_respondRequest
  | MRouters "Router list"
  | MCoordinate string

text \<open>The Go types the client decodes response bodies into, and the type of each body.\<close>

datatype kind = KJoin | KMembers | KKeys | KStats | KCoordinate | KMicroApps | KRouters | KLog | KEvent | KQuery

primrec kind_of :: "reply \<Rightarrow> kind" where
  "kind_of (RJoin n) = KJoin"
| "kind_of (RMembers ms) = KMembers"
| "kind_of (RKeys r) = KKeys"
| "kind_of (RStats s) = KStats"
| "kind_of (RMicroApps ms) = KMicroApps"
| "kind_of (RRouters rs) = KRouters"
| "kind_of (RCoordinate r) = KCoordinate"
| "kind_of (RMemberEvent r) = KEvent"
| "kind_of (RUserEvent r) = KEvent"
| "kind_of (RQueryEvent r) = KEvent"
| "kind_of (RQuery r) = KQuery"
| "kind_of (RLog r) = KLog"

text \<open>What arrives from the server, and the client's decoders on it; the header is decoded over the one before.\<close>

datatype down = DHeader responseHeader | DBody reply

record client_codec =
  cc_header :: "down \<Rightarrow> cl_responseHeader \<Rightarrow> string + cl_responseHeader"
  cc_body :: "kind \<Rightarrow> down \<Rightarrow> string + reply"

end
