(* ===== verification/Client.thy ===== *)
theory Client
  imports ClientData
begin

text \<open>
  The RPC client (\<^verbatim>\<open>client/rpc_client.go\<close>): sequence numbers, the table of handlers that responses are
  dispatched to, the handlers of calls, monitors, streams and queries, the listening goroutine, and
  one request per function of the client. A handler object is known by its sequence number: the
  table \<open>rc_handlers\<close> holds the objects, \<open>rc_dispatch\<close> the numbers that are registered.
\<close>

section \<open>State\<close>

text \<open>\<^verbatim>\<open>errCh\<close> and \<^verbatim>\<open>initCh\<close> have room for one error.\<close>

record call =
  ca_kind :: "kind option"
  ca_errCh :: "string option list"
  ca_resp :: "reply option"

record monitorHandler =
  mh_closed :: bool
  mh_init :: bool
  mh_initCh :: "string option list"
  mh_logCh :: "string chan option"

record streamHandler =
  sh_closed :: bool
  sh_init :: bool
  sh_initCh :: "string option list"
  sh_eventCh :: "reply chan option"

record queryHandler =
  qh_closed :: bool
  qh_init :: bool
  qh_initCh :: "string option list"
  qh_ackCh :: "string chan option"
  qh_respCh :: "NodeResponse chan option"

datatype seq_handler =
    SeqCallback call
  | MonitorHandler monitorHandler
  | StreamHandler streamHandler
  | QueryHandler queryHandler

record rpc_client =
  rc_seq :: uint64
  rc_shutdown :: bool
  rc_shutdownCh_closed :: bool
  rc_conn_closed :: bool
  rc_sent :: "msg list"
  rc_in :: "down list"
  rc_handlers :: "uint64 \<rightharpoonup> seq_handler"
  rc_dispatch :: "uint64 set"
  rc_blocked :: bool

definition dialed_client :: "down list \<Rightarrow> rpc_client" where
  "dialed_client input =
     \<lparr>rc_seq = 0, rc_shutdown = False, rc_shutdownCh_closed = False, rc_conn_closed = False, rc_sent = [],
      rc_in = input, rc_handlers = Map.empty, rc_dispatch = {}, rc_blocked = False\<rparr>"

section \<open>Sending\<close>

definition clientClosed :: string where "clientClosed = ''client closed''"

definition strToError :: "string \<Rightarrow> string option" where
  "strToError s = (if s \<noteq> '''' then Some s else None)"

definition getSeq :: "rpc_client \<Rightarrow> uint64 \<times> rpc_client" where
  "getSeq c = (rc_seq c + 1, c\<lparr>rc_seq := rc_seq c + 1\<rparr>)"

text \<open>\<open>ok\<close> says whether the connection takes the request before the deadline.\<close>

definition client_send :: "bool \<Rightarrow> requestHeader \<Rightarrow> msg option \<Rightarrow> rpc_client \<Rightarrow> string option \<times> rpc_client" where
  "client_send ok header obj c =
     (if rc_shutdown c then (Some clientClosed, c)
      else if \<not> ok then (Some ''write failed'', c)
      else (None, c\<lparr>rc_sent := rc_sent c @ MHeader header # (case obj of None \<Rightarrow> [] | Some m \<Rightarrow> [m])\<rparr>))"

definition handleSeq :: "uint64 \<Rightarrow> seq_handler \<Rightarrow> rpc_client \<Rightarrow> rpc_client" where
  "handleSeq seq handler c =
     c\<lparr>rc_handlers := (rc_handlers c)(seq \<mapsto> handler), rc_dispatch := insert seq (rc_dispatch c)\<rparr>"

section \<open>Clean-up\<close>

definition close_opt :: "'a chan option \<Rightarrow> 'a chan option go" where
  "close_opt ch = (case ch of None \<Rightarrow> Ret None | Some c \<Rightarrow> go_bind (close_chan c) (\<lambda>c'. Ret (Some c')))"

definition streamClosed :: string where "streamClosed = ''Stream closed''"

definition monitor_Cleanup :: "monitorHandler \<Rightarrow> monitorHandler go" where
  "monitor_Cleanup mh =
     (if mh_closed mh then Ret mh
      else (let mh1 = (if \<not> mh_init mh then mh\<lparr>mh_init := True, mh_initCh := mh_initCh mh @ [Some streamClosed]\<rparr> else mh)
            in go_bind (close_opt (mh_logCh mh1)) (\<lambda>ch. Ret (mh1\<lparr>mh_logCh := ch, mh_closed := True\<rparr>))))"

definition stream_Cleanup :: "streamHandler \<Rightarrow> streamHandler go" where
  "stream_Cleanup sh =
     (if sh_closed sh then Ret sh
      else (let sh1 = (if \<not> sh_init sh then sh\<lparr>sh_init := True, sh_initCh := sh_initCh sh @ [Some streamClosed]\<rparr> else sh)
            in go_bind (close_opt (sh_eventCh sh1)) (\<lambda>ch. Ret (sh1\<lparr>sh_eventCh := ch, sh_closed := True\<rparr>))))"

definition query_Cleanup :: "queryHandler \<Rightarrow> queryHandler go" where
  "query_Cleanup qh =
     (if qh_closed qh then Ret qh
      else (let qh1 = (if \<not> qh_init qh then qh\<lparr>qh_init := True, qh_initCh := qh_initCh qh @ [Some streamClosed]\<rparr> else qh)
            in go_bind (close_opt (qh_ackCh qh1)) (\<lambda>ack.
               go_bind (close_opt (qh_respCh qh1)) (\<lambda>resp.
                 Ret (qh1\<lparr>qh_ackCh := ack, qh_respCh := resp, qh_closed := True\<rparr>)))))"

fun handler_Cleanup :: "seq_handler \<Rightarrow> seq_handler go" where
  "handler_Cleanup (SeqCallback ca) = Ret (SeqCallback ca)"
| "handler_Cleanup (MonitorHandler mh) = go_bind (monitor_Cleanup mh) (\<lambda>h. Ret (MonitorHandler h))"
| "handler_Cleanup (StreamHandler sh) = go_bind (stream_Cleanup sh) (\<lambda>h. Ret (StreamHandler h))"
| "handler_Cleanup (QueryHandler qh) = go_bind (query_Cleanup qh) (\<lambda>h. Ret (QueryHandler h))"

definition cleanup_seq :: "uint64 \<Rightarrow> rpc_client \<Rightarrow> rpc_client go" where
  "cleanup_seq seq c =
     (case rc_handlers c seq of
        None \<Rightarrow> Ret c
      | Some h \<Rightarrow> go_bind (handler_Cleanup h) (\<lambda>h'. Ret (c\<lparr>rc_handlers := (rc_handlers c)(seq \<mapsto> h')\<rparr>)))"

definition deregisterHandler :: "uint64 \<Rightarrow> rpc_client \<Rightarrow> rpc_client go" where
  "deregisterHandler seq c =
     (if seq \<in> rc_dispatch c then cleanup_seq seq (c\<lparr>rc_dispatch := rc_dispatch c - {seq}\<rparr>) else Ret c)"

fun cleanup_all :: "uint64 list \<Rightarrow> rpc_client \<Rightarrow> rpc_client go" where
  "cleanup_all [] c = Ret c"
| "cleanup_all (s # ss) c = go_bind (cleanup_seq s c) (cleanup_all ss)"

text \<open>\<open>order\<close> is the order in which the table is traversed.\<close>

definition deregisterAll :: "(uint64 set \<Rightarrow> uint64 list) \<Rightarrow> rpc_client \<Rightarrow> rpc_client go" where
  "deregisterAll order c =
     go_bind (cleanup_all (order (rc_dispatch c)) c) (\<lambda>c1. Ret (c1\<lparr>rc_dispatch := {}\<rparr>))"

definition client_Close :: "(uint64 set \<Rightarrow> uint64 list) \<Rightarrow> rpc_client \<Rightarrow> rpc_client go" where
  "client_Close order c =
     (if \<not> rc_shutdown c then
        (let c1 = c\<lparr>rc_shutdown := True\<rparr> in
         if rc_shutdownCh_closed c1 then Panic
         else go_bind (deregisterAll order (c1\<lparr>rc_shutdownCh_closed := True\<rparr>)) (\<lambda>c2. Ret (c2\<lparr>rc_conn_closed := True\<rparr>)))
      else Ret c)"

definition IsClosed :: "rpc_client \<Rightarrow> bool" where
  "IsClosed c = rc_shutdown c"

section \<open>Handlers\<close>

text \<open>A handler gets the response header and what follows it in the input; it returns itself, the rest of
  the input, and what is left to do: nothing, deregistering itself, or waiting for ever (the call's
  channel is full).\<close>

datatype after = Continue | Deregister | Blocked

definition decode_body :: "client_codec \<Rightarrow> kind \<Rightarrow> down list \<Rightarrow> (string + reply) \<times> down list" where
  "decode_body codec k input = (case input of [] \<Rightarrow> (Inl ''EOF'', []) | d # ds \<Rightarrow> (cc_body codec k d, ds))"

definition put_err :: "string option \<Rightarrow> call \<Rightarrow> call \<times> after" where
  "put_err e ca = (if ca_errCh ca = [] then (ca\<lparr>ca_errCh := [e]\<rparr>, Continue) else (ca, Blocked))"

definition callback_Handle ::
  "client_codec \<Rightarrow> responseHeader \<Rightarrow> call \<Rightarrow> down list \<Rightarrow> call \<times> down list \<times> after" where
  "callback_Handle codec respHeader ca input =
     (if rsp_Error respHeader = cl_authRequired
      then (let (ca1, a) = put_err (strToError (rsp_Error respHeader)) ca in (ca1, input, a))
      else case ca_kind ca of
        None \<Rightarrow> (let (ca1, a) = put_err (strToError (rsp_Error respHeader)) ca in (ca1, input, a))
      | Some k \<Rightarrow>
          (case decode_body codec k input of
             (Inl err, rest) \<Rightarrow> (let (ca1, a) = put_err (Some err) ca in (ca1, rest, a))
           | (Inr r, rest) \<Rightarrow>
               (let (ca1, a) = put_err (strToError (rsp_Error respHeader)) (ca\<lparr>ca_resp := Some r\<rparr>) in (ca1, rest, a))))"

definition send_opt :: "'a \<Rightarrow> 'a chan option \<Rightarrow> 'a chan option go" where
  "send_opt x ch = (case ch of None \<Rightarrow> Ret None | Some c \<Rightarrow> go_bind (try_send x c) (\<lambda>(sent, c'). Ret (Some c')))"

definition monitor_Handle ::
  "client_codec \<Rightarrow> responseHeader \<Rightarrow> monitorHandler \<Rightarrow> down list \<Rightarrow> (monitorHandler \<times> down list \<times> after) go" where
  "monitor_Handle codec resp mh input =
     (if \<not> mh_init mh
      then Ret (mh\<lparr>mh_init := True, mh_initCh := mh_initCh mh @ [strToError (rsp_Error resp)]\<rparr>, input, Continue)
      else case decode_body codec KLog input of
        (Inr (RLog rec), rest) \<Rightarrow>
          go_bind (send_opt (log_Log rec) (mh_logCh mh)) (\<lambda>ch. Ret (mh\<lparr>mh_logCh := ch\<rparr>, rest, Continue))
      | (_, rest) \<Rightarrow> Ret (mh, rest, Deregister))"

definition stream_Handle ::
  "client_codec \<Rightarrow> responseHeader \<Rightarrow> streamHandler \<Rightarrow> down list \<Rightarrow> (streamHandler \<times> down list \<times> after) go" where
  "stream_Handle codec resp sh input =
     (if \<not> sh_init sh
      then Ret (sh\<lparr>sh_init := True, sh_initCh := sh_initCh sh @ [strToError (rsp_Error resp)]\<rparr>, input, Continue)
      else case decode_body codec KEvent input of
        (Inr rec, rest) \<Rightarrow> go_bind (send_opt rec (sh_eventCh sh)) (\<lambda>ch. Ret (sh\<lparr>sh_eventCh := ch\<rparr>, rest, Continue))
      | (Inl err, rest) \<Rightarrow> Ret (sh, rest, Deregister))"

definition query_Handle ::
  "client_codec \<Rightarrow> responseHeader \<Rightarrow> queryHandler \<Rightarrow> down list \<Rightarrow> (queryHandler \<times> down list \<times> after) go" where
  "query_Handle codec resp qh input =
     (if \<not> qh_init qh
      then Ret (qh\<lparr>qh_init := True, qh_initCh := qh_initCh qh @ [strToError (rsp_Error resp)]\<rparr>, input, Continue)
      else case decode_body codec KQuery input of
        (Inr (RQuery rec), rest) \<Rightarrow>
          (if qrec_Type rec = cl_queryRecordAck then
             go_bind (send_opt (qrec_From rec) (qh_ackCh qh)) (\<lambda>ch. Ret (qh\<lparr>qh_ackCh := ch\<rparr>, rest, Continue))
           else if qrec_Type rec = cl_queryRecordResponse then
             go_bind (send_opt \<lparr>nr_From = qrec_From rec, nr_Payload = qrec_Payload rec\<rparr> (qh_respCh qh))
               (\<lambda>ch. Ret (qh\<lparr>qh_respCh := ch\<rparr>, rest, Continue))
           else if qrec_Type rec = cl_queryRecordDone then Ret (qh, rest, Deregister)
           else Ret (qh, rest, Continue))
      | (_, rest) \<Rightarrow> Ret (qh, rest, Deregister))"

fun handler_Handle ::
  "client_codec \<Rightarrow> responseHeader \<Rightarrow> seq_handler \<Rightarrow> down list \<Rightarrow> (seq_handler \<times> down list \<times> after) go" where
  "handler_Handle codec resp (SeqCallback ca) input =
     (let (ca1, rest, a) = callback_Handle codec resp ca input in Ret (SeqCallback ca1, rest, a))"
| "handler_Handle codec resp (MonitorHandler mh) input =
     go_bind (monitor_Handle codec resp mh input) (\<lambda>(h, rest, a). Ret (MonitorHandler h, rest, a))"
| "handler_Handle codec resp (StreamHandler sh) input =
     go_bind (stream_Handle codec resp sh input) (\<lambda>(h, rest, a). Ret (StreamHandler h, rest, a))"
| "handler_Handle codec resp (QueryHandler qh) input =
     go_bind (query_Handle codec resp qh input) (\<lambda>(h, rest, a). Ret (QueryHandler h, rest, a))"

text \<open>\<^verbatim>\<open>respondSeq\<close> looks the handler up under the lock and calls it after releasing it: \<open>handle_found\<close> is
  the call.\<close>

definition handle_found :: "client_codec \<Rightarrow> responseHeader \<Rightarrow> uint64 \<Rightarrow> rpc_client \<Rightarrow> rpc_client go" where
  "handle_found codec resp seq c =
     (case rc_handlers c seq of
        None \<Rightarrow> Ret c
      | Some h \<Rightarrow>
          go_bind (handler_Handle codec resp h (rc_in c)) (\<lambda>(h', rest, a).
            let c1 = c\<lparr>rc_handlers := (rc_handlers c)(seq \<mapsto> h'), rc_in := rest\<rparr> in
            case a of Continue \<Rightarrow> Ret c1 | Deregister \<Rightarrow> deregisterHandler seq c1 | Blocked \<Rightarrow> Ret (c1\<lparr>rc_blocked := True\<rparr>)))"

definition respondSeq :: "client_codec \<Rightarrow> responseHeader \<Rightarrow> rpc_client \<Rightarrow> rpc_client go" where
  "respondSeq codec resp c =
     (if rsp_Seq resp \<in> rc_dispatch c then handle_found codec resp (rsp_Seq resp) c else Ret c)"

section \<open>Listening\<close>

text \<open>The header variable is reused. The loop ends when the input does (or cannot be decoded), and then
  closes the client; \<open>drain\<close> is the loop up to there, returning the last header. A blocked listener
  stays where it is.\<close>

lemma decode_body_len: "length (snd (decode_body codec k input)) \<le> length input"
  by (auto simp: decode_body_def split: list.splits)

lemma monitor_rest: "monitor_Handle codec resp mh input = Ret (h, rest, a) \<Longrightarrow> length rest \<le> length input"
  using decode_body_len [of codec KLog input]
  by (auto simp: monitor_Handle_def go_bind_eq_Ret split: if_splits prod.splits sum.splits reply.splits)

lemma stream_rest: "stream_Handle codec resp sh input = Ret (h, rest, a) \<Longrightarrow> length rest \<le> length input"
  using decode_body_len [of codec KEvent input]
  by (auto simp: stream_Handle_def go_bind_eq_Ret split: if_splits prod.splits sum.splits)

lemma query_rest: "query_Handle codec resp qh input = Ret (h, rest, a) \<Longrightarrow> length rest \<le> length input"
  using decode_body_len [of codec KQuery input]
  by (auto simp: query_Handle_def go_bind_eq_Ret split: if_splits prod.splits sum.splits reply.splits)

lemma callback_rest: "callback_Handle codec resp ca input = (h, rest, a) \<Longrightarrow> length rest \<le> length input"
  using decode_body_len [of codec "the (ca_kind ca)" input]
  by (auto simp: callback_Handle_def split: if_splits prod.splits sum.splits option.splits)

lemma handler_rest: "handler_Handle codec resp sh input = Ret (h, rest, a) \<Longrightarrow> length rest \<le> length input"
  by (cases sh) (auto simp: go_bind_eq_Ret Let_def split: prod.splits
      dest!: monitor_rest stream_rest query_rest callback_rest)

lemma cleanup_seq_in: "cleanup_seq seq c = Ret c' \<Longrightarrow> rc_in c' = rc_in c"
  by (auto simp: cleanup_seq_def go_bind_eq_Ret split: option.splits)

lemma deregister_in: "deregisterHandler seq c = Ret c' \<Longrightarrow> rc_in c' = rc_in c"
  by (auto simp: deregisterHandler_def dest!: cleanup_seq_in split: if_splits)

lemma found_in: "handle_found codec resp seq c = Ret c' \<Longrightarrow> length (rc_in c') \<le> length (rc_in c)"
proof (cases "rc_handlers c seq")
  case (Some h)
  assume "handle_found codec resp seq c = Ret c'"
  with Some obtain h' rest a where r: "handler_Handle codec resp h (rc_in c) = Ret (h', rest, a)"
    and a: "(case a of Continue \<Rightarrow> Ret (c\<lparr>rc_handlers := (rc_handlers c)(seq \<mapsto> h'), rc_in := rest\<rparr>)
       | Deregister \<Rightarrow> deregisterHandler seq (c\<lparr>rc_handlers := (rc_handlers c)(seq \<mapsto> h'), rc_in := rest\<rparr>)
       | Blocked \<Rightarrow> Ret (c\<lparr>rc_handlers := (rc_handlers c)(seq \<mapsto> h'), rc_in := rest\<rparr>\<lparr>rc_blocked := True\<rparr>)) = Ret c'"
    by (auto simp: handle_found_def go_bind_eq_Ret Let_def)
  from a have "rc_in c' = rest"
    by (cases a) (auto dest: deregister_in)
  then show ?thesis using handler_rest [OF r] by simp
qed (simp add: handle_found_def)

lemma respond_in: "respondSeq codec resp c = Ret c' \<Longrightarrow> length (rc_in c') \<le> length (rc_in c)"
  by (auto simp: respondSeq_def dest: found_in split: if_splits)

function drain :: "client_codec \<Rightarrow> responseHeader \<Rightarrow> rpc_client \<Rightarrow> (responseHeader \<times> rpc_client) go" where
  "drain codec h c =
     (if rc_blocked c then Ret (h, c)
      else case rc_in c of
        [] \<Rightarrow> Ret (h, c)
      | d # ds \<Rightarrow>
          (case cc_header codec d h of
             Inl err \<Rightarrow> Ret (h, c\<lparr>rc_in := []\<rparr>)
           | Inr h' \<Rightarrow>
               (case respondSeq codec h' (c\<lparr>rc_in := ds\<rparr>) of
                  Panic \<Rightarrow> Panic
                | Ret c' \<Rightarrow> drain codec h' c')))"
  by pat_completeness auto
termination
  by (relation "measure (\<lambda>(codec, h, c). length (rc_in c))") (auto dest!: respond_in)

declare drain.simps [simp del]

definition zero_response :: responseHeader where
  "zero_response = \<lparr>rsp_Seq = 0, rsp_Error = ''''\<rparr>"

definition client_listen :: "client_codec \<Rightarrow> (uint64 set \<Rightarrow> uint64 list) \<Rightarrow> rpc_client \<Rightarrow> rpc_client go" where
  "client_listen codec order c =
     go_bind (drain codec zero_response c) (\<lambda>(h, c1). if rc_blocked c1 then Ret c1 else client_Close order c1)"

section \<open>Calls\<close>

record rpc_request =
  rq_Command :: string
  rq_body :: "msg option"
  rq_kind :: "kind option"

text \<open>\<^verbatim>\<open>genericRPC\<close> up to its wait: the error of the send, if any, is its result.\<close>

definition genericRPC_start :: "bool \<Rightarrow> rpc_request \<Rightarrow> rpc_client \<Rightarrow> (string option \<times> uint64 \<times> rpc_client) go" where
  "genericRPC_start ok rq c =
     (let (seq, c1) = getSeq c;
          c2 = handleSeq seq (SeqCallback \<lparr>ca_kind = rq_kind rq, ca_errCh = [], ca_resp = None\<rparr>) c1;
          (err, c3) = client_send ok \<lparr>rh_Command = rq_Command rq, rh_Seq = seq\<rparr> (rq_body rq) c2
      in if err \<noteq> None then go_bind (deregisterHandler seq c3) (\<lambda>c4. Ret (err, seq, c4)) else Ret (None, seq, c3))"

text \<open>Its wait: \<open>None\<close> if neither channel is ready; \<open>closed_first\<close> is the choice when both are.\<close>

definition genericRPC_wait :: "bool \<Rightarrow> uint64 \<Rightarrow> rpc_client \<Rightarrow> ((string option \<times> reply option) option \<times> rpc_client) go" where
  "genericRPC_wait closed_first seq c =
     (let answer = (case rc_handlers c seq of
                      Some (SeqCallback ca) \<Rightarrow> (case ca_errCh ca of [] \<Rightarrow> None | e # es \<Rightarrow> Some (e, ca_resp ca))
                    | _ \<Rightarrow> None);
          closed = (if rc_shutdownCh_closed c then Some (Some clientClosed, None) else None);
          pick = (if closed_first then (case closed of None \<Rightarrow> answer | Some r \<Rightarrow> Some r)
                  else (case answer of None \<Rightarrow> closed | Some r \<Rightarrow> Some r))
      in case pick of
           None \<Rightarrow> Ret (None, c)
         | Some r \<Rightarrow> go_bind (deregisterHandler seq c) (\<lambda>c'. Ret (Some r, c')))"

definition RPC_ForceLeave :: "string \<Rightarrow> rpc_request" where
  "RPC_ForceLeave node = \<lparr>rq_Command = cl_forceLeaveCommand, rq_body = Some (MForceLeave node), rq_kind = None\<rparr>"

definition RPC_Join :: "string list \<Rightarrow> bool \<Rightarrow> rpc_request" where
  "RPC_Join addrs replay =
     \<lparr>rq_Command = cl_joinCommand, rq_body = Some (MJoin \<lparr>jr_Existing = addrs, jr_Replay = replay\<rparr>), rq_kind = Some KJoin\<rparr>"

definition RPC_Members :: rpc_request where
  "RPC_Members = \<lparr>rq_Command = cl_membersCommand, rq_body = None, rq_kind = Some KMembers\<rparr>"

definition RPC_MembersFiltered :: "(string \<rightharpoonup> string) \<Rightarrow> string \<Rightarrow> string \<Rightarrow> rpc_request" where
  "RPC_MembersFiltered tags status name =
     \<lparr>rq_Command = cl_membersFilteredCommand,
      rq_body = Some (MMembersFiltered \<lparr>mf_Tags = tags, mf_Status = status, mf_Name = name\<rparr>), rq_kind = Some KMembers\<rparr>"

definition RPC_UserEvent :: "string \<Rightarrow> string \<Rightarrow> bool \<Rightarrow> rpc_request" where
  "RPC_UserEvent name payload coalesce =
     \<lparr>rq_Command = cl_eventCommand,
      rq_body = Some (MEvent \<lparr>evr_Name = name, evr_Payload = payload, evr_Coalesce = coalesce\<rparr>), rq_kind = None\<rparr>"

definition RPC_Leave :: rpc_request where
  "RPC_Leave = \<lparr>rq_Command = cl_leaveCommand, rq_body = None, rq_kind = None\<rparr>"

definition RPC_UpdateTags :: "(string \<rightharpoonup> string) \<Rightarrow> string list \<Rightarrow> rpc_request" where
  "RPC_UpdateTags tags delTags =
     \<lparr>rq_Command = cl_tagsCommand, rq_body = Some (MTags \<lparr>tr_Tags = tags, tr_DeleteTags = delTags\<rparr>), rq_kind = None\<rparr>"

definition RPC_Respond :: "uint64 \<Rightarrow> string \<Rightarrow> rpc_request" where
  "RPC_Respond qid buf =
     \<lparr>rq_Command = cl_respondCommand, rq_body = Some (MRespond \<lparr>rr_ID = qid, rr_Payload = buf\<rparr>), rq_kind = None\<rparr>"

definition RPC_InstallKey :: "string \<Rightarrow> rpc_request" where
  "RPC_InstallKey key = \<lparr>rq_Command = cl_installKeyCommand, rq_body = Some (MKey key), rq_kind = Some KKeys\<rparr>"

definition RPC_UseKey :: "string \<Rightarrow> rpc_request" where
  "RPC_UseKey key = \<lparr>rq_Command = cl_useKeyCommand, rq_body = Some (MKey key), rq_kind = Some KKeys\<rparr>"

definition RPC_RemoveKey :: "string \<Rightarrow> rpc_request" where
  "RPC_RemoveKey key = \<lparr>rq_Command = cl_removeKeyCommand, rq_body = Some (MKey key), rq_kind = Some KKeys\<rparr>"

definition RPC_ListKeys :: rpc_request where
  "RPC_ListKeys = \<lparr>rq_Command = cl_listKeysCommand, rq_body = None, rq_kind = Some KKeys\<rparr>"

definition RPC_Stats :: rpc_request where
  "RPC_Stats = \<lparr>rq_Command = cl_statsCommand, rq_body = None, rq_kind = Some KStats\<rparr>"

definition RPC_GetCoordinate :: "string \<Rightarrow> rpc_request" where
  "RPC_GetCoordinate node = \<lparr>rq_Command = cl_getCoordinateCommand, rq_body = Some (MCoordinate node), rq_kind = Some KCoordinate\<rparr>"

definition RPC_ListMicroApps :: rpc_request where
  "RPC_ListMicroApps = \<lparr>rq_Command = cl_listMicroAppsCommand, rq_body = None, rq_kind = Some KMicroApps\<rparr>"

definition RPC_ListRouters :: rpc_request where
  "RPC_ListRouters = \<lparr>rq_Command = cl_listRoutersCommand, rq_body = None, rq_kind = Some KRouters\<rparr>"

definition RPC_UpdateRouters :: "Router list \<Rightarrow> rpc_request" where
  "RPC_UpdateRouters rs = \<lparr>rq_Command = cl_updateRoutersCommand, rq_body = Some (MRouters rs), rq_kind = None\<rparr>"

definition RPC_handshake :: rpc_request where
  "RPC_handshake = \<lparr>rq_Command = cl_handshakeCommand, rq_body = Some (MHandshake cl_maxIPCVersion), rq_kind = None\<rparr>"

definition RPC_auth :: "string \<Rightarrow> rpc_request" where
  "RPC_auth authKey = \<lparr>rq_Command = cl_authCommand, rq_body = Some (MAuth authKey), rq_kind = None\<rparr>"

text \<open>What the functions make of the body: the numbers and tables default to zero and nil.\<close>

fun result_Join :: "reply option \<Rightarrow> int" where
  "result_Join (Some (RJoin n)) = n"
| "result_Join _ = 0"

fun result_Members :: "reply option \<Rightarrow> IpcMember list" where
  "result_Members (Some (RMembers ms)) = ms"
| "result_Members _ = []"

fun result_Messages :: "reply option \<Rightarrow> (string \<rightharpoonup> string)" where
  "result_Messages (Some (RKeys r)) = kr_Messages r"
| "result_Messages _ = Map.empty"

fun result_ListKeys :: "reply option \<Rightarrow> (string \<rightharpoonup> int) \<times> int \<times> (string \<rightharpoonup> string)" where
  "result_ListKeys (Some (RKeys r)) = (kr_Keys r, kr_NumNodes r, kr_Messages r)"
| "result_ListKeys _ = (Map.empty, 0, Map.empty)"

fun result_GetCoordinate :: "string option \<times> reply option \<Rightarrow> string + coordinate option" where
  "result_GetCoordinate (Some err, r) = Inl err"
| "result_GetCoordinate (None, Some (RCoordinate r)) = Inr (if co_Ok r then Some (co_Coord r) else None)"
| "result_GetCoordinate (None, _) = Inr None"

section \<open>Streams\<close>

text \<open>\<^verbatim>\<open>Monitor\<close>, \<^verbatim>\<open>Stream\<close> and \<^verbatim>\<open>Query\<close> up to their wait.\<close>

definition open_stream :: "bool \<Rightarrow> string \<Rightarrow> msg \<Rightarrow> seq_handler \<Rightarrow> rpc_client \<Rightarrow> (string option \<times> uint64 \<times> rpc_client) go" where
  "open_stream ok command body handler c =
     (let (seq, c1) = getSeq c;
          c2 = handleSeq seq handler c1;
          (err, c3) = client_send ok \<lparr>rh_Command = command, rh_Seq = seq\<rparr> (Some body) c2
      in if err \<noteq> None then go_bind (deregisterHandler seq c3) (\<lambda>c4. Ret (err, 0, c4)) else Ret (None, seq, c3))"

definition client_Monitor :: "bool \<Rightarrow> string \<Rightarrow> string chan option \<Rightarrow> rpc_client \<Rightarrow> (string option \<times> uint64 \<times> rpc_client) go" where
  "client_Monitor ok level ch =
     open_stream ok cl_monitorCommand (MMonitor level)
       (MonitorHandler \<lparr>mh_closed = False, mh_init = False, mh_initCh = [], mh_logCh = ch\<rparr>)"

definition client_Stream :: "bool \<Rightarrow> string \<Rightarrow> reply chan option \<Rightarrow> rpc_client \<Rightarrow> (string option \<times> uint64 \<times> rpc_client) go" where
  "client_Stream ok flt ch =
     open_stream ok cl_streamCommand (MStream flt)
       (StreamHandler \<lparr>sh_closed = False, sh_init = False, sh_initCh = [], sh_eventCh = ch\<rparr>)"

definition client_Query ::
  "bool \<Rightarrow> queryRequest \<Rightarrow> string chan option \<Rightarrow> NodeResponse chan option \<Rightarrow> rpc_client \<Rightarrow>
   (string option \<times> uint64 \<times> rpc_client) go" where
  "client_Query ok req ackCh respCh =
     open_stream ok cl_queryCommand (MQuery req)
       (QueryHandler \<lparr>qh_closed = False, qh_init = False, qh_initCh = [], qh_ackCh = ackCh, qh_respCh = respCh\<rparr>)"

fun init_channel :: "seq_handler \<Rightarrow> string option list" where
  "init_channel (SeqCallback ca) = []"
| "init_channel (MonitorHandler mh) = mh_initCh mh"
| "init_channel (StreamHandler sh) = sh_initCh sh"
| "init_channel (QueryHandler qh) = qh_initCh qh"

text \<open>Their wait. The handle is the sequence number, also when the server answers with an error.\<close>

definition stream_wait :: "bool \<Rightarrow> uint64 \<Rightarrow> rpc_client \<Rightarrow> ((string option \<times> uint64) option \<times> rpc_client) go" where
  "stream_wait closed_first seq c =
     (let answer = (case rc_handlers c seq of None \<Rightarrow> None
                    | Some h \<Rightarrow> (case init_channel h of [] \<Rightarrow> None | e # es \<Rightarrow> Some e));
          closed = go_bind (deregisterHandler seq c) (\<lambda>c'. Ret (Some (Some clientClosed, 0), c'))
      in if rc_shutdownCh_closed c \<and> (closed_first \<or> answer = None) then closed
         else case answer of None \<Rightarrow> Ret (None, c) | Some e \<Rightarrow> Ret (Some (e, seq), c))"

definition client_Stop :: "bool \<Rightarrow> uint64 \<Rightarrow> rpc_client \<Rightarrow> (string option \<times> uint64 \<times> rpc_client) go" where
  "client_Stop ok hdl c =
     go_bind (deregisterHandler hdl c)
       (genericRPC_start ok \<lparr>rq_Command = cl_stopCommand, rq_body = Some (MStop hdl), rq_kind = None\<rparr>)"

end
