(* ===== verification/ClientSafety.thy ===== *)
theory ClientSafety
  imports Client
begin

text \<open>
  The client (\<^verbatim>\<open>client/rpc_client.go\<close>) under any interleaving of its users and its listener, whose turn is two steps,
  looking a handler up and calling it: no channel is
  closed twice or sent on after it is closed as long as no stream is deregistered between the two,
  every handler that is gone has closed its user's channels, and closing
  the client releases everything. The window between look-up and call is real: a record for a stream deregistered
  in it panics.
\<close>

section \<open>Open and released handlers\<close>

definition open_opt :: "'a chan option \<Rightarrow> bool" where
  "open_opt ch \<longleftrightarrow> (\<forall>c. ch = Some c \<longrightarrow> \<not> ch_closed c)"

definition closed_opt :: "'a chan option \<Rightarrow> bool" where
  "closed_opt ch \<longleftrightarrow> (\<forall>c. ch = Some c \<longrightarrow> ch_closed c)"

fun handler_open :: "seq_handler \<Rightarrow> bool" where
  "handler_open (SeqCallback ca) \<longleftrightarrow> True"
| "handler_open (MonitorHandler mh) \<longleftrightarrow> \<not> mh_closed mh \<and> open_opt (mh_logCh mh)"
| "handler_open (StreamHandler sh) \<longleftrightarrow> \<not> sh_closed sh \<and> open_opt (sh_eventCh sh)"
| "handler_open (QueryHandler qh) \<longleftrightarrow> \<not> qh_closed qh \<and> open_opt (qh_ackCh qh) \<and> open_opt (qh_respCh qh)"

fun handler_released :: "seq_handler \<Rightarrow> bool" where
  "handler_released (SeqCallback ca) \<longleftrightarrow> True"
| "handler_released (MonitorHandler mh) \<longleftrightarrow> mh_closed mh \<and> mh_initCh mh \<noteq> [] \<and> closed_opt (mh_logCh mh)"
| "handler_released (StreamHandler sh) \<longleftrightarrow> sh_closed sh \<and> sh_initCh sh \<noteq> [] \<and> closed_opt (sh_eventCh sh)"
| "handler_released (QueryHandler qh) \<longleftrightarrow>
     qh_closed qh \<and> qh_initCh qh \<noteq> [] \<and> closed_opt (qh_ackCh qh) \<and> closed_opt (qh_respCh qh)"

text \<open>The initial error is put into its channel when the handler is initialised, and only then.\<close>

fun handler_init_ok :: "seq_handler \<Rightarrow> bool" where
  "handler_init_ok (SeqCallback ca) \<longleftrightarrow> length (ca_errCh ca) \<le> 1"
| "handler_init_ok (MonitorHandler mh) \<longleftrightarrow> (if mh_init mh then length (mh_initCh mh) = 1 else mh_initCh mh = [])"
| "handler_init_ok (StreamHandler sh) \<longleftrightarrow> (if sh_init sh then length (sh_initCh sh) = 1 else sh_initCh sh = [])"
| "handler_init_ok (QueryHandler qh) \<longleftrightarrow> (if qh_init qh then length (qh_initCh qh) = 1 else qh_initCh qh = [])"

lemma close_opt_open: "open_opt ch \<Longrightarrow> \<exists>ch'. close_opt ch = Ret ch' \<and> closed_opt ch'"
  by (cases ch) (auto simp: close_opt_def open_opt_def closed_opt_def close_chan_def)

lemma send_opt_open: "open_opt ch \<Longrightarrow> \<exists>ch'. send_opt x ch = Ret ch' \<and> open_opt ch'"
  by (cases ch; cases "length (ch_buf (the ch)) < ch_cap (the ch)") (auto simp: send_opt_def open_opt_def try_send_def)

lemma cleanup_open:
  assumes "handler_open h" and "handler_init_ok h"
  shows "\<exists>h'. handler_Cleanup h = Ret h' \<and> handler_released h' \<and> handler_init_ok h'"
proof (cases h)
  case (MonitorHandler mh)
  then obtain ch where "close_opt (mh_logCh mh) = Ret ch" "closed_opt ch"
    using assms close_opt_open by auto
  then show ?thesis using assms MonitorHandler by (auto simp: monitor_Cleanup_def Let_def)
next
  case (StreamHandler sh)
  then obtain ch where "close_opt (sh_eventCh sh) = Ret ch" "closed_opt ch"
    using assms close_opt_open by auto
  then show ?thesis using assms StreamHandler by (auto simp: stream_Cleanup_def Let_def)
next
  case (QueryHandler qh)
  then obtain a r where "close_opt (qh_ackCh qh) = Ret a" "closed_opt a" "close_opt (qh_respCh qh) = Ret r" "closed_opt r"
    using assms close_opt_open by (metis handler_open.simps(4))
  then show ?thesis using assms QueryHandler by (auto simp: query_Cleanup_def Let_def)
qed (use assms in auto)

lemma monitor_open:
  assumes "\<not> mh_closed mh" "open_opt (mh_logCh mh)" "handler_init_ok (MonitorHandler mh)"
  shows "\<exists>h' rest a. monitor_Handle codec resp mh input = Ret (h', rest, a) \<and>
    \<not> mh_closed h' \<and> open_opt (mh_logCh h') \<and> handler_init_ok (MonitorHandler h')"
proof (cases "mh_init mh")
  case True
  obtain d rest where d: "decode_body codec KLog input = (d, rest)" by (cases "decode_body codec KLog input")
  show ?thesis
  proof (cases "\<exists>rec. d = Inr (RLog rec)")
    case True
    then obtain rec where rec: "d = Inr (RLog rec)" ..
    obtain ch where "send_opt (log_Log rec) (mh_logCh mh) = Ret ch" "open_opt ch"
      using send_opt_open [OF assms(2)] by blast
    then show ?thesis using assms \<open>mh_init mh\<close> d rec by (simp add: monitor_Handle_def)
  next
    case False
    then have "monitor_Handle codec resp mh input = Ret (mh, rest, Deregister)"
      using d \<open>mh_init mh\<close> by (auto simp: monitor_Handle_def split: sum.splits reply.splits)
    then show ?thesis using assms by simp
  qed
qed (use assms in \<open>simp add: monitor_Handle_def\<close>)

lemma stream_open:
  assumes "\<not> sh_closed sh" "open_opt (sh_eventCh sh)" "handler_init_ok (StreamHandler sh)"
  shows "\<exists>h' rest a. stream_Handle codec resp sh input = Ret (h', rest, a) \<and>
    \<not> sh_closed h' \<and> open_opt (sh_eventCh h') \<and> handler_init_ok (StreamHandler h')"
proof (cases "sh_init sh")
  case True
  obtain d rest where d: "decode_body codec KEvent input = (d, rest)" by (cases "decode_body codec KEvent input")
  show ?thesis
  proof (cases d)
    case (Inr rec)
    obtain ch where "send_opt rec (sh_eventCh sh) = Ret ch" "open_opt ch"
      using send_opt_open [OF assms(2)] by blast
    then show ?thesis using assms True d Inr by (simp add: stream_Handle_def)
  qed (use assms True d in \<open>simp add: stream_Handle_def\<close>)
qed (use assms in \<open>simp add: stream_Handle_def\<close>)

lemma query_open:
  assumes "\<not> qh_closed qh" "open_opt (qh_ackCh qh)" "open_opt (qh_respCh qh)" "handler_init_ok (QueryHandler qh)"
  shows "\<exists>h' rest a. query_Handle codec resp qh input = Ret (h', rest, a) \<and>
    \<not> qh_closed h' \<and> open_opt (qh_ackCh h') \<and> open_opt (qh_respCh h') \<and> handler_init_ok (QueryHandler h')"
proof (cases "qh_init qh")
  case True
  obtain d rest where d: "decode_body codec KQuery input = (d, rest)" by (cases "decode_body codec KQuery input")
  show ?thesis
  proof (cases "\<exists>rec. d = Inr (RQuery rec)")
    case True
    then obtain rec where rec: "d = Inr (RQuery rec)" ..
    obtain a r where "send_opt (qrec_From rec) (qh_ackCh qh) = Ret a" "open_opt a"
        "send_opt \<lparr>nr_From = qrec_From rec, nr_Payload = qrec_Payload rec\<rparr> (qh_respCh qh) = Ret r" "open_opt r"
      using send_opt_open [OF assms(2)] send_opt_open [OF assms(3)] by blast
    then show ?thesis using assms \<open>qh_init qh\<close> d rec by (simp add: query_Handle_def)
  next
    case False
    then have "query_Handle codec resp qh input = Ret (qh, rest, Deregister)"
      using d \<open>qh_init qh\<close> by (auto simp: query_Handle_def split: sum.splits reply.splits)
    then show ?thesis using assms by simp
  qed
qed (use assms in \<open>simp add: query_Handle_def\<close>)

lemma handle_open:
  assumes "handler_open h" and "handler_init_ok h"
  shows "\<exists>h' rest a. handler_Handle codec resp h input = Ret (h', rest, a) \<and> handler_open h' \<and> handler_init_ok h'"
proof (cases h)
  case (SeqCallback ca)
  obtain ca' rest a where c: "callback_Handle codec resp ca input = (ca', rest, a)"
    by (cases "callback_Handle codec resp ca input")
  then have "length (ca_errCh ca') \<le> 1"
    using assms SeqCallback
    by (auto simp: callback_Handle_def put_err_def Let_def split: if_splits option.splits prod.splits sum.splits)
  then show ?thesis using SeqCallback c by simp
next
  case (MonitorHandler mh)
  then obtain h' rest a where "monitor_Handle codec resp mh input = Ret (h', rest, a)"
    "\<not> mh_closed h' \<and> open_opt (mh_logCh h') \<and> handler_init_ok (MonitorHandler h')"
    using monitor_open [of mh codec resp input] assms by auto
  then show ?thesis using MonitorHandler by simp
next
  case (StreamHandler sh)
  then obtain h' rest a where "stream_Handle codec resp sh input = Ret (h', rest, a)"
    "\<not> sh_closed h' \<and> open_opt (sh_eventCh h') \<and> handler_init_ok (StreamHandler h')"
    using stream_open [of sh codec resp input] assms by auto
  then show ?thesis using StreamHandler by simp
next
  case (QueryHandler qh)
  then obtain h' rest a where "query_Handle codec resp qh input = Ret (h', rest, a)"
    "\<not> qh_closed h' \<and> open_opt (qh_ackCh h') \<and> open_opt (qh_respCh h') \<and> handler_init_ok (QueryHandler h')"
    using query_open [of qh codec resp input] assms by auto
  then show ?thesis using QueryHandler by simp
qed

section \<open>The client's invariant\<close>

definition entry_ok :: "bool \<Rightarrow> seq_handler option \<Rightarrow> bool" where
  "entry_ok reg entry \<longleftrightarrow>
     (case entry of None \<Rightarrow> \<not> reg
      | Some h \<Rightarrow> handler_init_ok h \<and> (if reg then handler_open h else handler_released h))"

definition client_inv :: "rpc_client \<Rightarrow> bool" where
  "client_inv c \<longleftrightarrow>
     rc_shutdownCh_closed c = rc_shutdown c \<and> (rc_shutdown c \<longrightarrow> rc_dispatch c = {}) \<and> finite (rc_dispatch c) \<and>
     (\<forall>s. entry_ok (s \<in> rc_dispatch c) (rc_handlers c s)) \<and>
     (\<forall>s \<in> dom (rc_handlers c). unat s \<le> unat (rc_seq c))"

lemma client_inv_entry:
  assumes "client_inv c"
  shows "s \<in> rc_dispatch c \<Longrightarrow> entry_ok True (rc_handlers c s)"
    and "s \<notin> rc_dispatch c \<Longrightarrow> entry_ok False (rc_handlers c s)"
proof -
  have e: "entry_ok (s \<in> rc_dispatch c) (rc_handlers c s)"
    using assms by (simp add: client_inv_def)
  show "s \<in> rc_dispatch c \<Longrightarrow> entry_ok True (rc_handlers c s)" using e by simp
  show "s \<notin> rc_dispatch c \<Longrightarrow> entry_ok False (rc_handlers c s)" using e by simp
qed

lemma client_inv_bound: "client_inv c \<Longrightarrow> rc_handlers c s = Some h \<Longrightarrow> unat s \<le> unat (rc_seq c)"
  by (auto simp: client_inv_def)

lemma client_invI:
  "rc_shutdownCh_closed c = rc_shutdown c \<Longrightarrow> (rc_shutdown c \<Longrightarrow> rc_dispatch c = {}) \<Longrightarrow> finite (rc_dispatch c) \<Longrightarrow>
   (\<And>s. entry_ok (s \<in> rc_dispatch c) (rc_handlers c s)) \<Longrightarrow>
   (\<And>s h. rc_handlers c s = Some h \<Longrightarrow> unat s \<le> unat (rc_seq c)) \<Longrightarrow> client_inv c"
  by (auto simp: client_inv_def)

lemma client_inv_more [simp]:
  "client_inv (c\<lparr>rc_in := x\<rparr>) = client_inv c" "client_inv (c\<lparr>rc_blocked := b\<rparr>) = client_inv c"
  "client_inv (c\<lparr>rc_sent := y\<rparr>) = client_inv c"
  by (simp_all add: client_inv_def)

lemma cleanup_seq_ok:
  assumes "entry_ok True (rc_handlers c s)"
  shows "\<exists>h'. cleanup_seq s c = Ret (c\<lparr>rc_handlers := (rc_handlers c)(s \<mapsto> h')\<rparr>) \<and> entry_ok False (Some h')"
proof -
  obtain h where h: "rc_handlers c s = Some h" "handler_open h" "handler_init_ok h"
    using assms by (auto simp: entry_ok_def split: option.splits)
  from cleanup_open [OF h(2,3)] h(1) show ?thesis
    by (auto simp: cleanup_seq_def entry_ok_def)
qed

lemma deregister_ok:
  assumes inv: "client_inv c"
  shows "\<exists>c'. deregisterHandler s c = Ret c' \<and> client_inv c' \<and> rc_seq c' = rc_seq c \<and>
    rc_dispatch c' = rc_dispatch c - {s} \<and> rc_shutdown c' = rc_shutdown c \<and> rc_in c' = rc_in c \<and> rc_blocked c' = rc_blocked c"
proof (cases "s \<in> rc_dispatch c")
  case True
  then have "entry_ok True (rc_handlers (c\<lparr>rc_dispatch := rc_dispatch c - {s}\<rparr>) s)"
    using client_inv_entry(1) [OF inv True] by simp
  from cleanup_seq_ok [OF this] obtain h' where
    h': "cleanup_seq s (c\<lparr>rc_dispatch := rc_dispatch c - {s}\<rparr>) =
      Ret (c\<lparr>rc_dispatch := rc_dispatch c - {s}, rc_handlers := (rc_handlers c)(s \<mapsto> h')\<rparr>)" "entry_ok False (Some h')"
    by auto
  have "s \<in> dom (rc_handlers c)"
    using inv True by (auto simp: client_inv_def entry_ok_def split: option.splits) 
  then have "client_inv (c\<lparr>rc_dispatch := rc_dispatch c - {s}, rc_handlers := (rc_handlers c)(s \<mapsto> h')\<rparr>)"
    using inv h'(2) by (auto simp: client_inv_def)
  then show ?thesis using h'(1) True by (simp add: deregisterHandler_def)
qed (use inv in \<open>simp add: deregisterHandler_def\<close>)

lemma cleanup_all_ok:
  "distinct ss \<Longrightarrow> (\<And>s. s \<in> set ss \<Longrightarrow> entry_ok True (rc_handlers c s)) \<Longrightarrow>
   \<exists>hs. cleanup_all ss c = Ret (c\<lparr>rc_handlers := hs\<rparr>) \<and>
     (\<forall>s. if s \<in> set ss then entry_ok False (hs s) \<and> hs s \<noteq> None else hs s = rc_handlers c s)"
proof (induction ss arbitrary: c)
  case Nil
  then show ?case by (intro exI [of _ "rc_handlers c"]) simp
next
  case (Cons a ss)
  then obtain h' where h': "cleanup_seq a c = Ret (c\<lparr>rc_handlers := (rc_handlers c)(a \<mapsto> h')\<rparr>)" "entry_ok False (Some h')"
    using cleanup_seq_ok [of c a] by auto
  let ?c = "c\<lparr>rc_handlers := (rc_handlers c)(a \<mapsto> h')\<rparr>"
  have "\<exists>hs. cleanup_all ss ?c = Ret (?c\<lparr>rc_handlers := hs\<rparr>) \<and>
     (\<forall>s. if s \<in> set ss then entry_ok False (hs s) \<and> hs s \<noteq> None else hs s = rc_handlers ?c s)"
    using Cons.prems by (intro Cons.IH) auto
  then obtain hs where hs: "cleanup_all ss ?c = Ret (?c\<lparr>rc_handlers := hs\<rparr>)"
     "\<forall>s. if s \<in> set ss then entry_ok False (hs s) \<and> hs s \<noteq> None else hs s = rc_handlers ?c s"
    by blast
  show ?case
  proof (intro exI conjI allI)
    show "cleanup_all (a # ss) c = Ret (c\<lparr>rc_handlers := hs\<rparr>)"
      using h'(1) hs(1) by simp
    show "if s \<in> set (a # ss) then entry_ok False (hs s) \<and> hs s \<noteq> None else hs s = rc_handlers c s" for s
      using hs(2) [rule_format, of s] h'(2) Cons.prems(1) by (auto split: if_splits)
  qed
qed

lemma Close_ok:
  assumes inv: "client_inv c" and order: "\<And>S. finite S \<Longrightarrow> distinct (order S) \<and> set (order S) = S"
  shows "\<exists>c'. client_Close order c = Ret c' \<and> client_inv c' \<and> rc_shutdown c' \<and> rc_seq c' = rc_seq c"
proof (cases "rc_shutdown c")
  case False
  let ?c = "c\<lparr>rc_shutdown := True, rc_shutdownCh_closed := True\<rparr>"
  have o: "distinct (order (rc_dispatch c))" "set (order (rc_dispatch c)) = rc_dispatch c"
    using inv order by (simp_all add: client_inv_def)
  have "\<And>s. s \<in> set (order (rc_dispatch c)) \<Longrightarrow> entry_ok True (rc_handlers ?c s)"
    using client_inv_entry(1) [OF inv] o by simp
  from cleanup_all_ok [OF o(1) this] obtain hs where
    hs: "cleanup_all (order (rc_dispatch c)) ?c = Ret (?c\<lparr>rc_handlers := hs\<rparr>)"
      "\<forall>s. if s \<in> rc_dispatch c then entry_ok False (hs s) \<and> hs s \<noteq> None else hs s = rc_handlers c s"
    using o(2) by auto
  have "entry_ok False (hs s)" for s
    using hs(2) [rule_format, of s] client_inv_entry(2) [OF inv, of s] by (cases "s \<in> rc_dispatch c") auto
  moreover have "dom hs = dom (rc_handlers c)"
  proof (intro set_eqI)
    show "s \<in> dom hs \<longleftrightarrow> s \<in> dom (rc_handlers c)" for s
      using hs(2) [rule_format, of s] client_inv_entry(1) [OF inv, of s]
      by (cases "s \<in> rc_dispatch c") (auto simp: entry_ok_def domIff split: option.splits)
  qed
  ultimately have "client_inv (?c\<lparr>rc_handlers := hs, rc_dispatch := {}, rc_conn_closed := True\<rparr>)"
    using inv by (simp add: client_inv_def)
  then show ?thesis
    using hs(1) inv False by (simp add: client_Close_def deregisterAll_def client_inv_def Let_def)
qed (use inv in \<open>simp add: client_Close_def\<close>)

text \<open>Calling a handler, also a call's one that has been deregistered since it was looked up.\<close>

fun is_callback :: "seq_handler option \<Rightarrow> bool" where
  "is_callback (Some (SeqCallback ca)) \<longleftrightarrow> True"
| "is_callback _ \<longleftrightarrow> False"

lemma callback_open: "is_callback (Some h) \<Longrightarrow> handler_open h \<and> handler_released h"
  by (cases h) auto

lemma callback_stays: "handler_Handle codec resp h input = Ret (h', rest, a) \<Longrightarrow> is_callback (Some h) \<Longrightarrow> is_callback (Some h')"
  by (cases h) (auto split: prod.splits)

lemma found_ok:
  assumes inv: "client_inv c" and reg: "s \<in> rc_dispatch c \<or> is_callback (rc_handlers c s)"
  shows "\<exists>c'. handle_found codec resp s c = Ret c' \<and> client_inv c' \<and> rc_seq c' = rc_seq c \<and> rc_shutdown c' = rc_shutdown c"
proof -
  have e: "entry_ok (s \<in> rc_dispatch c) (rc_handlers c s)"
    using inv by (simp add: client_inv_def)
  obtain h where h: "rc_handlers c s = Some h" "handler_open h" "handler_init_ok h"
    using e reg callback_open by (cases "rc_handlers c s") (auto simp: entry_ok_def split: if_splits)
  from handle_open [OF h(2,3)] obtain h' rest a where
    h': "handler_Handle codec resp h (rc_in c) = Ret (h', rest, a)" "handler_open h'" "handler_init_ok h'" by blast
  have "s \<notin> rc_dispatch c \<Longrightarrow> handler_released h'"
    using reg h(1) callback_stays [OF h'(1)] callback_open by auto
  then have ok: "entry_ok (s \<in> rc_dispatch c) (Some h')"
    using h'(2,3) by (simp add: entry_ok_def)
  let ?c = "c\<lparr>rc_handlers := (rc_handlers c)(s \<mapsto> h'), rc_in := rest\<rparr>"
  have inv': "client_inv ?c"
  proof (rule client_invI)
    show "entry_ok (q \<in> rc_dispatch ?c) (rc_handlers ?c q)" for q
      using inv ok by (simp add: client_inv_def)
    show "unat q \<le> unat (rc_seq ?c)" if "rc_handlers ?c q = Some hl" for q hl
      using that client_inv_bound [OF inv] h(1) by (auto split: if_splits)
  qed (use inv in \<open>auto simp: client_inv_def\<close>)
  from deregister_ok [OF inv', of s] inv' h(1) h'(1) show ?thesis
    by (cases a) (auto simp: handle_found_def)
qed

lemma respond_ok:
  assumes "client_inv c"
  shows "\<exists>c'. respondSeq codec resp c = Ret c' \<and> client_inv c' \<and> rc_seq c' = rc_seq c \<and> rc_shutdown c' = rc_shutdown c"
  using found_ok [OF assms] assms by (auto simp: respondSeq_def)

section \<open>Runs\<close>

text \<open>The users' calls and the listener's turns; \<open>CStart\<close> and \<open>COpen\<close> are what \<^verbatim>\<open>genericRPC\<close> and \<^verbatim>\<open>Monitor\<close>,
  \<^verbatim>\<open>Stream\<close> and \<^verbatim>\<open>Query\<close> do up to their wait, the handler being new, \<open>CWait\<close> and \<open>CStreamWait\<close> what they do
  after it. A turn of the listener is two steps: \<open>CLookUp\<close> decodes a header and looks its handler up, under the
  lock; \<open>CCall\<close> calls the handler found, without the lock, whatever has happened before it gets to decode the body and send
  the record on. The state is the header last decoded,
  whether its handler has been found and is to be called, and the client.\<close>

datatype client_act =
    CStart bool rpc_request
  | COpen bool string msg seq_handler
  | CWait bool uint64
  | CStreamWait bool uint64
  | CStop bool uint64
  | CLookUp
  | CCall
  | CClose

type_synonym client_run_state = "responseHeader \<times> bool \<times> rpc_client"

fun client_step ::
  "client_codec \<Rightarrow> (uint64 set \<Rightarrow> uint64 list) \<Rightarrow> client_act \<Rightarrow> client_run_state \<Rightarrow> client_run_state go" where
  "client_step codec order (CStart ok rq) (h, due, c) = go_bind (genericRPC_start ok rq c) (\<lambda>(e, s, c'). Ret (h, due, c'))"
| "client_step codec order (COpen ok cmd body hl) (h, due, c) =
     go_bind (open_stream ok cmd body hl c) (\<lambda>(e, s, c'). Ret (h, due, c'))"
| "client_step codec order (CWait first s) (h, due, c) = go_bind (genericRPC_wait first s c) (\<lambda>(r, c'). Ret (h, due, c'))"
| "client_step codec order (CStreamWait first s) (h, due, c) = go_bind (stream_wait first s c) (\<lambda>(r, c'). Ret (h, due, c'))"
| "client_step codec order (CStop ok s) (h, due, c) = go_bind (client_Stop ok s c) (\<lambda>(e, q, c'). Ret (h, due, c'))"
| "client_step codec order CLookUp (h, due, c) =
     (if due \<or> rc_blocked c \<or> rc_conn_closed c then Ret (h, due, c)
      else case rc_in c of
        [] \<Rightarrow> go_bind (client_Close order c) (\<lambda>c'. Ret (h, False, c'))
      | d # ds \<Rightarrow>
          (case cc_header codec d h of
             Inl err \<Rightarrow> go_bind (client_Close order (c\<lparr>rc_in := ds\<rparr>)) (\<lambda>c'. Ret (h, False, c'))
           | Inr h' \<Rightarrow> Ret (h', rsp_Seq h' \<in> rc_dispatch c, c\<lparr>rc_in := ds\<rparr>)))"
| "client_step codec order CCall (h, due, c) =
     (if due then go_bind (handle_found codec h (rsp_Seq h) c) (\<lambda>c'. Ret (h, False, c')) else Ret (h, due, c))"
| "client_step codec order CClose (h, due, c) = go_bind (client_Close order c) (\<lambda>c'. Ret (h, due, c'))"

text \<open>Undisturbed, the two steps are \<^verbatim>\<open>respondSeq\<close>.\<close>

lemma undisturbed_turn:
  assumes "\<not> rc_blocked c" "\<not> rc_conn_closed c" "rc_in c = d # ds" "cc_header codec d h = Inr h'"
  shows "go_bind (client_step codec order CLookUp (h, False, c)) (client_step codec order CCall) =
    go_bind (respondSeq codec h' (c\<lparr>rc_in := ds\<rparr>)) (\<lambda>c'. Ret (h', False, c'))"
  using assms by (simp add: respondSeq_def)

fun client_run ::
  "client_codec \<Rightarrow> (uint64 set \<Rightarrow> uint64 list) \<Rightarrow> client_act list \<Rightarrow> client_run_state \<Rightarrow> client_run_state go" where
  "client_run codec order [] s = Ret s"
| "client_run codec order (a # as) s = go_bind (client_step codec order a s) (client_run codec order as)"

text \<open>A stream was deregistered after the listener had found it and before it called it.\<close>

fun overtaken_now :: "client_act \<Rightarrow> client_run_state \<Rightarrow> bool" where
  "overtaken_now CCall (h, due, c) \<longleftrightarrow> due \<and> rsp_Seq h \<notin> rc_dispatch c \<and> \<not> is_callback (rc_handlers c (rsp_Seq h))"
| "overtaken_now _ s \<longleftrightarrow> False"

fun overtaken ::
  "client_codec \<Rightarrow> (uint64 set \<Rightarrow> uint64 list) \<Rightarrow> client_act list \<Rightarrow> client_run_state \<Rightarrow> bool" where
  "overtaken codec order [] s \<longleftrightarrow> False"
| "overtaken codec order (a # as) s \<longleftrightarrow>
     overtaken_now a s \<or> (case client_step codec order a s of Panic \<Rightarrow> False | Ret s' \<Rightarrow> overtaken codec order as s')"

fun new_handler :: "client_act \<Rightarrow> bool" where
  "new_handler (COpen ok cmd body hl) \<longleftrightarrow> handler_open hl \<and> handler_init_ok hl"
| "new_handler _ \<longleftrightarrow> True"

lemma register_ok:
  assumes inv: "client_inv c" and n: "unat (rc_seq c) < 2 ^ 64 - 1" and h: "handler_open hl" "handler_init_ok hl"
  defines "seq \<equiv> rc_seq c + 1"
  shows "\<exists>e s c'. (let (err, c3) = client_send ok hdr obj (handleSeq seq hl (c\<lparr>rc_seq := seq\<rparr>))
        in if err \<noteq> None then go_bind (deregisterHandler seq c3) (\<lambda>c4. Ret (err, f seq, c4)) else Ret (None, seq, c3)) = Ret (e, s, c') \<and>
      client_inv c' \<and> unat (rc_seq c') = Suc (unat (rc_seq c))"
proof -
  let ?c = "handleSeq seq hl (c\<lparr>rc_seq := seq\<rparr>)"
  have u: "unat seq = Suc (unat (rc_seq c))"
    using n by (simp add: seq_def unat_word_ariths)
  show ?thesis
  proof (cases "rc_shutdown c")
    case False
    have inv': "client_inv ?c"
    proof (rule client_invI)
      show "entry_ok (s \<in> rc_dispatch ?c) (rc_handlers ?c s)" for s
      proof (cases "s = seq")
        case True
        then show ?thesis using h by (simp add: handleSeq_def entry_ok_def)
      next
        case ne: False
        then show ?thesis
          using client_inv_entry [OF inv, of s] by (cases "s \<in> rc_dispatch c") (simp_all add: handleSeq_def)
      qed
      show "unat s \<le> unat (rc_seq ?c)" if "rc_handlers ?c s = Some hl'" for s hl'
        using that client_inv_bound [OF inv, of s] u by (auto simp: handleSeq_def split: if_splits)
    qed (use inv False in \<open>simp_all add: client_inv_def handleSeq_def\<close>)
    from deregister_ok [OF inv', of seq] inv' u show ?thesis
      by (auto simp: client_send_def handleSeq_def)
  next
    case True
    then have d: "rc_dispatch c = {}" using inv by (simp add: client_inv_def)
    from cleanup_seq_ok [of "?c\<lparr>rc_dispatch := {}\<rparr>" seq] h obtain h' where
      h': "cleanup_seq seq (?c\<lparr>rc_dispatch := {}\<rparr>) = Ret (?c\<lparr>rc_dispatch := {}, rc_handlers := (rc_handlers ?c)(seq \<mapsto> h')\<rparr>)"
        "entry_ok False (Some h')"
      by (auto simp: handleSeq_def entry_ok_def)
    have "client_inv (?c\<lparr>rc_dispatch := {}, rc_handlers := (rc_handlers ?c)(seq \<mapsto> h')\<rparr>)" (is "client_inv ?d")
    proof (rule client_invI)
      show "entry_ok (s \<in> rc_dispatch ?d) (rc_handlers ?d s)" for s
        using client_inv_entry(2) [OF inv, of s] h'(2) d by (auto simp: handleSeq_def)
      show "unat s \<le> unat (rc_seq ?d)" if "rc_handlers ?d s = Some hl'" for s hl'
        using that client_inv_bound [OF inv, of s] u by (auto simp: handleSeq_def split: if_splits)
    qed (use inv in \<open>simp_all add: client_inv_def handleSeq_def\<close>)
    then show ?thesis
      using True h'(1) d u by (auto simp: client_send_def deregisterHandler_def handleSeq_def)
  qed
qed

lemma start_ok:
  assumes "client_inv c" and "unat (rc_seq c) < 2 ^ 64 - 1"
  shows "\<exists>e s c'. genericRPC_start ok rq c = Ret (e, s, c') \<and> client_inv c' \<and> unat (rc_seq c') = Suc (unat (rc_seq c))"
  using register_ok [OF assms, where hl = "SeqCallback \<lparr>ca_kind = rq_kind rq, ca_errCh = [], ca_resp = None\<rparr>" and ok = ok
      and hdr = "\<lparr>rh_Command = rq_Command rq, rh_Seq = rc_seq c + 1\<rparr>" and obj = "rq_body rq" and f = "\<lambda>x. x"]
  by (simp add: genericRPC_start_def getSeq_def Let_def)

lemma open_ok:
  assumes "client_inv c" and "unat (rc_seq c) < 2 ^ 64 - 1" and "handler_open hl" "handler_init_ok hl"
  shows "\<exists>e s c'. open_stream ok cmd body hl c = Ret (e, s, c') \<and> client_inv c' \<and> unat (rc_seq c') = Suc (unat (rc_seq c))"
  using register_ok [OF assms, where ok = ok and hdr = "\<lparr>rh_Command = cmd, rh_Seq = rc_seq c + 1\<rparr>"
      and obj = "Some body" and f = "\<lambda>x. 0"]
  by (simp add: open_stream_def getSeq_def Let_def)

lemma step_ok:
  assumes inv: "client_inv c" and n: "unat (rc_seq c) < 2 ^ 64 - 1" and a: "new_handler a"
    and order: "\<And>S. finite S \<Longrightarrow> distinct (order S) \<and> set (order S) = S"
    and on: "\<not> overtaken_now a (h, due, c)"
  shows "\<exists>h' due' c'. client_step codec order a (h, due, c) = Ret (h', due', c') \<and> client_inv c' \<and> unat (rc_seq c') \<le> Suc (unat (rc_seq c))"
proof (cases a)
  case (CStart ok rq)
  then show ?thesis using start_ok [OF inv n, of ok rq] by auto
next
  case (COpen ok cmd body hl)
  then show ?thesis using open_ok [OF inv n, of hl ok cmd body] a by auto
next
  case (CWait first s)
  then show ?thesis
    using deregister_ok [OF inv, of s] inv by (auto simp: genericRPC_wait_def Let_def split: option.splits)
next
  case (CStreamWait first s)
  then show ?thesis
    using deregister_ok [OF inv, of s] inv by (auto simp: stream_wait_def Let_def split: option.splits)
next
  case (CStop ok s)
  obtain c1 where c1: "deregisterHandler s c = Ret c1" "client_inv c1" "rc_seq c1 = rc_seq c"
    using deregister_ok [OF inv] by blast
  show ?thesis
    using CStop c1 n start_ok [OF c1(2), of ok "\<lparr>rq_Command = cl_stopCommand, rq_body = Some (MStop s), rq_kind = None\<rparr>"]
    by (auto simp: client_Stop_def)
next
  case CLookUp
  have close: "\<exists>c'. client_Close order c1 = Ret c' \<and> client_inv c' \<and> rc_seq c' = rc_seq c" if "client_inv c1" "rc_seq c1 = rc_seq c" for c1
    using Close_ok [OF that(1) order] that(2) by auto
  have inv': "client_inv (c\<lparr>rc_in := ds\<rparr>)" for ds using inv by simp
  obtain f where f: "client_Close order (c\<lparr>rc_in := ds\<rparr>) = Ret (f ds) \<and> client_inv (f ds) \<and> rc_seq (f ds) = rc_seq c" for ds
    using close [OF inv'] by simp metis
  show ?thesis
    using CLookUp inv close [OF inv] f by (auto split: list.splits sum.splits)
next
  case CCall
  then have "due \<Longrightarrow> rsp_Seq h \<in> rc_dispatch c \<or> is_callback (rc_handlers c (rsp_Seq h))"
    using on by auto
  then show ?thesis
    using CCall inv found_ok [OF inv, of "rsp_Seq h" codec h] by (cases due) auto
next
  case CClose
  then show ?thesis using Close_ok [OF inv order] by auto
qed

lemma run_ok:
  "client_inv c \<Longrightarrow> unat (rc_seq c) + length as < 2 ^ 64 \<Longrightarrow> list_all new_handler as \<Longrightarrow>
   (\<And>S. finite S \<Longrightarrow> distinct (order S) \<and> set (order S) = S) \<Longrightarrow> \<not> overtaken codec order as (h, due, c) \<Longrightarrow>
   \<exists>h' due' c'. client_run codec order as (h, due, c) = Ret (h', due', c') \<and> client_inv c'"
proof (induction as arbitrary: h due c)
  case (Cons a as)
  have "unat (rc_seq c) < 2 ^ 64 - 1" using Cons.prems(2) by simp
  moreover have "new_handler a" "\<not> overtaken_now a (h, due, c)" using Cons.prems(3,5) by simp_all
  ultimately obtain h1 d1 c1 where s: "client_step codec order a (h, due, c) = Ret (h1, d1, c1)" "client_inv c1"
      "unat (rc_seq c1) \<le> Suc (unat (rc_seq c))"
    using step_ok [OF Cons.prems(1) _ _ Cons.prems(4)] by blast
  have "unat (rc_seq c1) + length as < 2 ^ 64" "\<not> overtaken codec order as (h1, d1, c1)"
    using Cons.prems(2,5) s(1,3) by simp_all
  from Cons.IH [OF s(2) this(1) _ Cons.prems(4) this(2)] Cons.prems(3) s(1) show ?case by simp
qed simp

section \<open>Properties\<close>

definition demo_codec_client :: client_codec where
  "demo_codec_client =
     \<lparr>cc_header = (\<lambda>d h. case d of DHeader h' \<Rightarrow> Inr h' | _ \<Rightarrow> Inl ''type''),
      cc_body = (\<lambda>k d. case d of DBody r \<Rightarrow> Inr r | _ \<Rightarrow> Inl ''type'')\<rparr>"

definition demo_monitor :: seq_handler where
  "demo_monitor = MonitorHandler \<lparr>mh_closed = False, mh_init = False, mh_initCh = [], mh_logCh = Some (make_chan 16)\<rparr>"

definition demo_feed :: "down list" where
  "demo_feed = [DHeader \<lparr>rsp_Seq = 1, rsp_Error = ''''\<rparr>, DHeader \<lparr>rsp_Seq = 1, rsp_Error = ''''\<rparr>, DBody (RLog \<lparr>log_Log = ''x''\<rparr>)]"

text \<open>C25. However the users of a client (calls, subscriptions, queries, stops, closing it, in any number and
  order, with sends that succeed or fail) and its listener interleave, and whatever the server sends: as long as no stream is deregistered
  (stopped, or its client closed) between the listener's finding it and calling it,
  nothing panics, no channel is closed twice and none is sent on after it is closed; every handler that
  is no longer registered has told its opener and closed its channels; and closing the client at any
  point releases all of them. Calls may be overtaken that way without harm; a stream may not: with a record for it under way, stopping
  it just then makes the listener send on the closed channel, and the program panics, as the second run shows.\<close>

theorem client_releases_handlers:
  assumes n: "length as < 2 ^ 64" and new: "list_all new_handler as"
    and order: "\<And>S. finite S \<Longrightarrow> distinct (order S) \<and> set (order S) = S"
  shows "(\<not> overtaken codec order as (zero_response, False, dialed_client input) \<longrightarrow>
      (\<exists>h due c. client_run codec order as (zero_response, False, dialed_client input) = Ret (h, due, c) \<and>
        (\<forall>s hl. rc_handlers c s = Some hl \<longrightarrow> s \<notin> rc_dispatch c \<longrightarrow> handler_released hl) \<and>
        (\<exists>c'. client_Close order c = Ret c' \<and> IsClosed c' \<and> (\<forall>hl \<in> ran (rc_handlers c'). handler_released hl)))) \<and>
    client_run demo_codec_client order
      [COpen True ''monitor'' (MMonitor ''INFO'') demo_monitor, CLookUp, CCall, CLookUp, CStop True 1, CCall]
      (zero_response, False, dialed_client demo_feed) = Panic"
proof (intro conjI impI)
  assume on: "\<not> overtaken codec order as (zero_response, False, dialed_client input)"
  have "client_inv (dialed_client input)"
    by (simp add: client_inv_def dialed_client_def entry_ok_def)
  moreover have "unat (rc_seq (dialed_client input)) + length as < 2 ^ 64"
    using n by (simp add: dialed_client_def)
  ultimately obtain h due c where r: "client_run codec order as (zero_response, False, dialed_client input) = Ret (h, due, c)"
      and inv: "client_inv c"
    using run_ok [OF _ _ new order on] by blast
  have gone: "handler_released hl" if "client_inv c" "rc_handlers c s = Some hl" "s \<notin> rc_dispatch c" for c s hl
    using client_inv_entry(2) [OF that(1,3)] that(2) by (simp add: entry_ok_def)
  obtain c' where c': "client_Close order c = Ret c'" "client_inv c'" "rc_shutdown c'"
    using Close_ok [OF inv order] by blast
  then have "rc_dispatch c' = {}" by (simp add: client_inv_def)
  then have "\<forall>hl \<in> ran (rc_handlers c'). handler_released hl"
    using gone [OF c'(2)] by (auto simp: ran_def)
  then show "\<exists>h due c. client_run codec order as (zero_response, False, dialed_client input) = Ret (h, due, c) \<and>
        (\<forall>s hl. rc_handlers c s = Some hl \<longrightarrow> s \<notin> rc_dispatch c \<longrightarrow> handler_released hl) \<and>
        (\<exists>c'. client_Close order c = Ret c' \<and> IsClosed c' \<and> (\<forall>hl \<in> ran (rc_handlers c'). handler_released hl))"
    using r gone [OF inv] c' by (auto simp: IsClosed_def)
next
  show "client_run demo_codec_client order
      [COpen True ''monitor'' (MMonitor ''INFO'') demo_monitor, CLookUp, CCall, CLookUp, CStop True 1, CCall]
      (zero_response, False, dialed_client demo_feed) = Panic"
    by (simp add: demo_codec_client_def demo_monitor_def demo_feed_def dialed_client_def open_stream_def getSeq_def handleSeq_def
        client_send_def handle_found_def monitor_Handle_def decode_body_def client_Stop_def deregisterHandler_def cleanup_seq_def
        monitor_Cleanup_def close_opt_def close_chan_def make_chan_def genericRPC_start_def send_opt_def try_send_def
        strToError_def Let_def)
qed

theorem client_releases_handlers_witness:
  "\<exists>h due c. client_run demo_codec_client sorted_list_of_set
      [COpen True ''monitor'' (MMonitor ''INFO'') demo_monitor, CLookUp, CCall, CStop True 1, CClose]
      (zero_response, False, dialed_client demo_feed) = Ret (h, due, c) \<and>
    (\<forall>s hl. rc_handlers c s = Some hl \<longrightarrow> s \<notin> rc_dispatch c \<longrightarrow> handler_released hl)"
proof -
  let ?as = "[COpen True ''monitor'' (MMonitor ''INFO'') demo_monitor, CLookUp, CCall, CStop True 1, CClose]"
  have "\<not> overtaken demo_codec_client sorted_list_of_set ?as (zero_response, False, dialed_client demo_feed)"
    by (simp add: demo_codec_client_def demo_monitor_def demo_feed_def dialed_client_def open_stream_def getSeq_def handleSeq_def
        client_send_def Let_def split: go.splits)
  moreover have "length ?as < 2 ^ 64" "list_all new_handler ?as"
    by (simp_all add: demo_monitor_def open_opt_def make_chan_def)
  ultimately show ?thesis
    using client_releases_handlers [of ?as sorted_list_of_set demo_codec_client demo_feed] by auto
qed

text \<open>The listener looks a handler up under the lock and calls it after releasing the lock. When the
  handler's stream is stopped (or the client closed) in between, the record that was about to be
  delivered is sent on a closed channel and the program panics; called at once, the same record is
  delivered without harm.\<close>

theorem late_record_panics:
  assumes inv: "client_inv c" and reg: "rsp_Seq resp \<in> rc_dispatch c"
    and mh: "rc_handlers c (rsp_Seq resp) = Some (MonitorHandler mh)" "mh_init mh" "mh_logCh mh = Some ch"
    and input: "rc_in c = DBody (RLog rec) # ds" "cc_body codec KLog (DBody (RLog rec)) = Inr (RLog rec)"
  shows "go_bind (deregisterHandler (rsp_Seq resp) c) (handle_found codec resp (rsp_Seq resp)) = Panic \<and>
    (\<exists>c'. respondSeq codec resp c = Ret c')"
proof -
  have op: "\<not> mh_closed mh" "\<not> ch_closed ch"
    using client_inv_entry(1) [OF inv reg] mh by (simp_all add: entry_ok_def open_opt_def)
  have "deregisterHandler (rsp_Seq resp) c = Ret (c\<lparr>rc_dispatch := rc_dispatch c - {rsp_Seq resp},
      rc_handlers := (rc_handlers c)(rsp_Seq resp \<mapsto> MonitorHandler (mh\<lparr>mh_logCh := Some (ch\<lparr>ch_closed := True\<rparr>), mh_closed := True\<rparr>))\<rparr>)"
    using reg mh op
    by (simp add: deregisterHandler_def cleanup_seq_def monitor_Cleanup_def close_opt_def close_chan_def Let_def)
  then have "go_bind (deregisterHandler (rsp_Seq resp) c) (handle_found codec resp (rsp_Seq resp)) = Panic"
    using mh input
    by (simp add: handle_found_def monitor_Handle_def decode_body_def send_opt_def try_send_def)
  then show ?thesis
    using respond_ok [OF inv, of codec resp] by blast
qed

theorem late_record_panics_witness:
  "\<exists>c. client_inv c \<and> go_bind (deregisterHandler 1 c)
      (handle_found \<lparr>cc_header = \<lambda>d h. Inr h, cc_body = \<lambda>k d. case d of DBody r \<Rightarrow> Inr r | _ \<Rightarrow> Inl ''type''\<rparr>
        \<lparr>rsp_Seq = 1, rsp_Error = ''''\<rparr> 1) = Panic"
proof -
  let ?mh = "\<lparr>mh_closed = False, mh_init = True, mh_initCh = [None], mh_logCh = Some (make_chan 16)\<rparr>"
  let ?c = "(dialed_client [DBody (RLog \<lparr>log_Log = ''x''\<rparr>)])\<lparr>rc_seq := 1, rc_dispatch := {1},
    rc_handlers := [1 \<mapsto> MonitorHandler ?mh]\<rparr>"
  let ?codec = "\<lparr>cc_header = \<lambda>d h. Inr h, cc_body = \<lambda>k d. case d of DBody r \<Rightarrow> Inr r | _ \<Rightarrow> Inl ''type''\<rparr>"
  have inv: "client_inv ?c"
    by (simp add: client_inv_def dialed_client_def entry_ok_def open_opt_def make_chan_def)
  from late_record_panics [OF this, of "\<lparr>rsp_Seq = 1, rsp_Error = ''''\<rparr>" ?mh "make_chan 16" "\<lparr>log_Log = ''x''\<rparr>" "[]" ?codec]
  show ?thesis
    using inv by (intro exI [of _ ?c]) (simp add: dialed_client_def)
qed

end
