(* ===== verification/Rpc.thy ===== *)
theory Rpc
  imports ClientSafety
begin

text \<open>
  The client (\<^verbatim>\<open>client/rpc_client.go\<close>) and the IPC server (\<^verbatim>\<open>command/agent/ipc.go\<close>) put together: one call
  of the client, over the wire, through the server's dispatcher and handler and back, is the direct
  call of the agent. The codec is a parameter: decoding inverts encoding, and decoding a record that
  is not a header into the header variable leaves it as it was.
\<close>

section \<open>The wire\<close>

definition decodes_msgs :: "msg env \<Rightarrow> bool" where
  "decodes_msgs env \<longleftrightarrow>
     (\<forall>h h0. d_header env (MHeader h) h0 = Inr h) \<and>
     (\<forall>v. d_handshake env (MHandshake v) = Inr v) \<and>
     (\<forall>s. d_auth env (MAuth s) = Inr s) \<and>
     (\<forall>r. d_event env (MEvent r) = Inr r) \<and>
     (\<forall>s. d_forceLeave env (MForceLeave s) = Inr s) \<and>
     (\<forall>r. d_join env (MJoin r) = Inr r) \<and>
     (\<forall>r. d_membersFiltered env (MMembersFiltered r) = Inr r) \<and>
     (\<forall>s. d_key env (MKey s) = Inr s) \<and>
     (\<forall>s. d_stream env (MStream s) = Inr s) \<and>
     (\<forall>s. d_monitor env (MMonitor s) = Inr s) \<and>
     (\<forall>q. d_stop env (MStop q) = Inr q) \<and>
     (\<forall>r. d_tags env (MTags r) = Inr r) \<and>
     (\<forall>r. d_query env (MQuery r) = Inr r) \<and>
     (\<forall>r. d_respond env (MRespond r) = Inr r) \<and>
     (\<forall>rs. d_routers env (MRouters rs) = Inr rs) \<and>
     (\<forall>s. d_coordinate env (MCoordinate s) = Inr s)"

definition codec_inverts :: "client_codec \<Rightarrow> bool" where
  "codec_inverts codec \<longleftrightarrow>
     (\<forall>h h0. cc_header codec (DHeader h) h0 = Inr h) \<and>
     (\<forall>r. cc_body codec (kind_of r) (DBody r) = Inr r)"

text \<open>A response on the wire.\<close>

fun wire_of :: "responseHeader \<times> reply option \<Rightarrow> down list" where
  "wire_of (h, None) = [DHeader h]"
| "wire_of (h, Some r) = [DHeader h, DBody r]"

definition on_wire :: "(responseHeader \<times> reply option) list \<Rightarrow> down list" where
  "on_wire ms = concat (map wire_of ms)"

section \<open>One call\<close>

text \<open>The server's turn: whether it ends the session, the client's record, the server, serf requests.\<close>

definition server_turn :: "msg env \<Rightarrow> msg ipc_client \<Rightarrow> ipc \<Rightarrow> msg list \<Rightarrow> (bool \<times> msg ipc_client \<times> ipc \<times> serf_req list) go" where
  "server_turn env ic i input =
     (case input of
        [] \<Rightarrow> Ret (False, ic, i, [])
      | w # ws \<Rightarrow>
          (case d_header env w zero_header of
             Inl err \<Rightarrow> Ret (True, ic\<lparr>ic_in := ws\<rparr>, i, [])
           | Inr h \<Rightarrow>
               go_bind (handleRequest env (ic\<lparr>ic_in := ws\<rparr>) i h) (\<lambda>(e, ic', i', reqs). Ret (e \<noteq> None, ic', i', reqs))))"

text \<open>The client's turn: it reads what has come, and closes when the server has.\<close>

definition client_turn :: "client_codec \<Rightarrow> (uint64 set \<Rightarrow> uint64 list) \<Rightarrow> bool \<Rightarrow> down list \<Rightarrow> rpc_client \<Rightarrow> rpc_client go" where
  "client_turn codec order ended input c =
     go_bind (drain codec zero_response (c\<lparr>rc_in := input\<rparr>)) (\<lambda>(h, c1). if ended then client_Close order c1 else Ret c1)"

definition exchange ::
  "msg env \<Rightarrow> client_codec \<Rightarrow> (uint64 set \<Rightarrow> uint64 list) \<Rightarrow> rpc_request \<Rightarrow> rpc_client \<Rightarrow> msg ipc_client \<Rightarrow> ipc \<Rightarrow>
   ((string option \<times> reply option) option \<times> rpc_client \<times> msg ipc_client \<times> ipc \<times> serf_req list) go" where
  "exchange env codec order rq c ic i =
     go_bind (genericRPC_start True rq c) (\<lambda>(err, seq, c1).
       if err \<noteq> None then Ret (Some (err, None), c1, ic, i, [])
       else go_bind (server_turn env ic i (drop (length (rc_sent c)) (rc_sent c1))) (\<lambda>(ended, ic', i', reqs).
            go_bind (client_turn codec order ended (on_wire (drop (length (ic_out ic)) (ic_out ic'))) c1) (\<lambda>c2.
            go_bind (genericRPC_wait False seq c2) (\<lambda>(r, c3). Ret (r, c3, ic', i', reqs)))))"

section \<open>The calls and what they ask of the agent\<close>

datatype api =
    AForceLeave string | AJoin "string list" bool | AMembers
  | AMembersFiltered "string \<rightharpoonup> string" string string
  | AUserEvent string string bool | ALeave | AUpdateTags "string \<rightharpoonup> string" "string list"
  | ARespond uint64 string | AInstallKey string | AUseKey string | ARemoveKey string | AListKeys
  | AStats | AGetCoordinate string | AListMicroApps | AListRouters | AUpdateRouters "Router list"

fun request_of :: "api \<Rightarrow> rpc_request" where
  "request_of (AForceLeave node) = RPC_ForceLeave node"
| "request_of (AJoin addrs replay) = RPC_Join addrs replay"
| "request_of AMembers = RPC_Members"
| "request_of (AMembersFiltered tags status name) = RPC_MembersFiltered tags status name"
| "request_of (AUserEvent name payload coalesce) = RPC_UserEvent name payload coalesce"
| "request_of ALeave = RPC_Leave"
| "request_of (AUpdateTags tags del) = RPC_UpdateTags tags del"
| "request_of (ARespond qid buf) = RPC_Respond qid buf"
| "request_of (AInstallKey key) = RPC_InstallKey key"
| "request_of (AUseKey key) = RPC_UseKey key"
| "request_of (ARemoveKey key) = RPC_RemoveKey key"
| "request_of AListKeys = RPC_ListKeys"
| "request_of AStats = RPC_Stats"
| "request_of (AGetCoordinate node) = RPC_GetCoordinate node"
| "request_of AListMicroApps = RPC_ListMicroApps"
| "request_of AListRouters = RPC_ListRouters"
| "request_of (AUpdateRouters rs) = RPC_UpdateRouters rs"

text \<open>The agent's answer to a call made on it directly: its error, the value returned with it, the agent
  and what serf was asked; \<open>None\<close> is an answer the server cannot express (a members filter that does not
  compile). A call on a discovery daemon that is missing panics.\<close>

definition key_call :: "msg env \<Rightarrow> serf_req \<Rightarrow> (keyResponse \<Rightarrow> keyResponse) \<Rightarrow> ipc \<Rightarrow>
    (string option \<times> reply option \<times> ipc \<times> serf_req list) option go" where
  "key_call env rq f i = Ret (Some (snd (s_key env rq), Some (RKeys (f (fst (s_key env rq)))), i, [rq]))"

fun direct :: "msg env \<Rightarrow> (uint64 \<rightharpoonup> Query) \<Rightarrow> ipc \<Rightarrow> api \<Rightarrow>
    (string option \<times> reply option \<times> ipc \<times> serf_req list) option go" where
  "direct env pending i (AForceLeave node) = Ret (Some (s_RemoveFailedNode env node, None, i, [QForceLeave node]))"
| "direct env pending i (AJoin addrs replay) =
     (let (n, err) = s_Join env addrs (\<not> replay)
      in Ret (Some (err, Some (RJoin (int32 n)), i, [QJoin addrs (\<not> replay)])))"
| "direct env pending i AMembers = Ret (Some (None, Some (RMembers (map (ipc_member (s_status env)) (s_Members env))), i, []))"
| "direct env pending i (AMembersFiltered tags status name) =
     (case filterMembers (s_compile env) (s_status env) (s_keys env (dom tags)) (s_Members env) tags status name of
        Inl err \<Rightarrow> Ret None
      | Inr ms \<Rightarrow> Ret (Some (None, Some (RMembers (map (ipc_member (s_status env)) ms)), i, [])))"
| "direct env pending i (AUserEvent name payload coalesce) =
     Ret (Some (s_UserEvent env name payload coalesce, None, i, [QUserEvent name payload coalesce]))"
| "direct env pending i ALeave =
     go_bind (Agent_Shutdown (s_Shutdown env) (ip_agent i)) (\<lambda>(_, a).
       Ret (Some (Agent_Leave (s_Leave env) (ip_agent i), None, i\<lparr>ip_agent := a\<rparr>, [QLeave, QShutdown])))"
| "direct env pending i (AUpdateTags tags del) =
     (let tags' = updated_tags (sc_Tags (ag_conf (ip_agent i))) \<lparr>tr_Tags = tags, tr_DeleteTags = del\<rparr>;
          (err, fl, called) = Agent_SetTags (s_json env) (s_SetTags env) tags' (ip_agent i) (ip_files i);
          a = (if called then (ip_agent i)\<lparr>ag_conf := s_conf_after env tags' (ag_conf (ip_agent i))\<rparr> else ip_agent i)
      in Ret (Some (err, None, i\<lparr>ip_files := fl, ip_agent := a\<rparr>, if called then [QSetTags tags'] else [])))"
| "direct env pending i (ARespond qid buf) =
     (case pending qid of
        None \<Rightarrow> Ret (Some (Some invalidQueryID, None, i, []))
      | Some q \<Rightarrow> Ret (Some (s_Respond env q buf, None, i, [QRespond q buf])))"
| "direct env pending i (AInstallKey key) = key_call env (QInstallKey key) key_reply i"
| "direct env pending i (AUseKey key) = key_call env (QUseKey key) key_reply i"
| "direct env pending i (ARemoveKey key) = key_call env (QRemoveKey key) key_reply i"
| "direct env pending i AListKeys = key_call env QListKeys (\<lambda>r. r) i"
| "direct env pending i AStats =
     Ret (Some (None, Some (RStats (Agent_Stats (s_runtime env) (s_Stats env) (s_local env) (ip_agent i))), i, []))"
| "direct env pending i (AGetCoordinate node) =
     Ret (Some (None, Some (RCoordinate (case s_coordinate env node of
         None \<Rightarrow> \<lparr>co_Coord = s_no_coordinate env, co_Ok = False\<rparr> | Some co \<Rightarrow> \<lparr>co_Coord = co, co_Ok = True\<rparr>)), i, []))"
| "direct env pending i AListMicroApps =
     (case ip_discoverd i of None \<Rightarrow> Panic
      | Some d \<Rightarrow> go_bind (Discoverd_ListMicroApps (s_counted env d) (s_keys env (dom (items (apps (d_repo d))))) d)
                  (\<lambda>ms. Ret (Some (None, Some (RMicroApps ms), i, []))))"
| "direct env pending i AListRouters =
     (case ip_discoverd i of None \<Rightarrow> Panic
      | Some d \<Rightarrow> go_bind (Discoverd_ListRouters (s_keys env (dom (d_table d))) d)
                  (\<lambda>rs. Ret (Some (None, Some (RRouters rs), i, []))))"
| "direct env pending i (AUpdateRouters rs) =
     (case ip_discoverd i of None \<Rightarrow> Panic
      | Some d \<Rightarrow> Ret (Some (None, None, i\<lparr>ip_discoverd := Some (Discoverd_UpdateRouters (s_keys env (dom (d_table d))) rs d)\<rparr>, [])))"

text \<open>The client is connected, has shaken hands and, where a key is set, authenticated.\<close>

definition admitted :: "msg ipc_client \<Rightarrow> ipc \<Rightarrow> bool" where
  "admitted ic i \<longleftrightarrow> ic_version ic \<noteq> 0 \<and> (ip_authKey i = '''' \<or> ic_didAuth ic) \<and> \<not> ic_broken ic \<and> \<not> ic_closed ic"

definition unadmitted :: "msg ipc_client \<Rightarrow> ipc \<Rightarrow> bool" where
  "unadmitted ic i \<longleftrightarrow> ic_version ic \<noteq> 0 \<and> ip_authKey i \<noteq> [] \<and> \<not> ic_didAuth ic \<and> \<not> ic_broken ic \<and> \<not> ic_closed ic"

text \<open>The handler of a call gives the agent's answer.\<close>

lemmas api_defs = RPC_ForceLeave_def RPC_Join_def RPC_Members_def RPC_MembersFiltered_def RPC_UserEvent_def RPC_Leave_def
  RPC_UpdateTags_def RPC_Respond_def RPC_InstallKey_def RPC_UseKey_def RPC_RemoveKey_def RPC_ListKeys_def RPC_Stats_def
  RPC_GetCoordinate_def RPC_ListMicroApps_def RPC_ListRouters_def RPC_UpdateRouters_def

lemmas serving_defs = handleForceLeave_def handleJoin_def handleMembers_def handleEvent_def handleLeave_def handleTags_def
  handleRespond_def handleInstallKey_def handleUseKey_def handleRemoveKey_def handleKey_def handleListKeys_def handleStats_def
  handleGetCoordinate_def handleListMicroApps_def handleListRouters_def handleUpdateRouters_def
  with_req_def respond_def IPCClient_Send_def

lemma errToString_simps [simp]: "errToString None = ''''" "errToString (Some e) = e"
  by (simp_all add: errToString_def)

lemma admitted_request:
  fixes a :: api
  assumes env: "decodes_msgs env" and ad: "admitted ic i"
  defines "rq \<equiv> request_of a"
  defines "ic1 \<equiv> ic\<lparr>ic_in := (case rq_body rq of None \<Rightarrow> [] | Some m \<Rightarrow> [m])\<rparr>"
  shows "case direct env (ic_pendingQueries ic) i a of
     Panic \<Rightarrow> handleRequest env ic1 i \<lparr>rh_Command = rq_Command rq, rh_Seq = seq\<rparr> = Panic
   | Ret None \<Rightarrow> \<exists>e. handleRequest env ic1 i \<lparr>rh_Command = rq_Command rq, rh_Seq = seq\<rparr> = Ret (Some e, ic\<lparr>ic_in := []\<rparr>, i, [])
   | Ret (Some (err, obj, i', reqs)) \<Rightarrow>
       handleRequest env ic1 i \<lparr>rh_Command = rq_Command rq, rh_Seq = seq\<rparr> =
         Ret (None, ic\<lparr>ic_in := [], ic_out := ic_out ic @ [(\<lparr>rsp_Seq = seq, rsp_Error = errToString err\<rparr>, obj)]\<rparr>, i', reqs) \<and>
       (case rq_kind rq of None \<Rightarrow> obj = None | Some k \<Rightarrow> \<exists>r. obj = Some r \<and> kind_of r = k)"
proof -
  have gate: "ic_version ic \<noteq> 0" "(ip_authKey i \<noteq> '''' \<and> \<not> ic_didAuth ic \<and> X) = False" "\<not> ic_broken ic" "\<not> ic_closed ic" for X
    using ad by (auto simp: admitted_def)
  have dec: "d_header env (MHeader h) h0 = Inr h" "d_event env (MEvent r1) = Inr r1" "d_forceLeave env (MForceLeave s) = Inr s"
    "d_join env (MJoin r2) = Inr r2" "d_membersFiltered env (MMembersFiltered r3) = Inr r3" "d_key env (MKey s) = Inr s"
    "d_tags env (MTags r4) = Inr r4" "d_respond env (MRespond r5) = Inr r5" "d_routers env (MRouters rs) = Inr rs"
    "d_coordinate env (MCoordinate s) = Inr s" for h h0 r1 s r2 r3 r4 r5 rs
    using env by (simp_all add: decodes_msgs_def)
  note defs = gate dec rq_def ic1_def api_defs client_constants command_defs handleRequest_def serving_defs key_call_def
    Agent_ForceLeave_def Agent_Join_def Agent_UserEvent_def Let_def
  show ?thesis
  proof (cases a)
    case ALeave
    then show ?thesis
      by (cases "Agent_Shutdown (s_Shutdown env) (ip_agent i)") (simp_all add: defs split: prod.splits)
  next
    case (ARespond qid buf)
    then show ?thesis
      by (cases "ic_pendingQueries ic qid") (simp_all add: defs)
  next
    case AListMicroApps
    show ?thesis
    proof (cases "ip_discoverd i")
      case (Some d)
      with AListMicroApps show ?thesis
        by (cases "Discoverd_ListMicroApps (s_counted env d) (s_keys env (dom (items (apps (d_repo d))))) d") (simp_all add: defs)
    qed (use AListMicroApps in \<open>simp add: defs\<close>)
  next
    case AListRouters
    show ?thesis
    proof (cases "ip_discoverd i")
      case (Some d)
      with AListRouters show ?thesis
        by (cases "Discoverd_ListRouters (s_keys env (dom (d_table d))) d") (simp_all add: defs)
    qed (use AListRouters in \<open>simp add: defs\<close>)
  qed (simp_all add: defs split: prod.splits option.splits sum.splits)
qed

section \<open>The client's half\<close>

text \<open>The client can make a call: it is open and its listener is not blocked.\<close>

definition ready :: "rpc_client \<Rightarrow> bool" where
  "ready c \<longleftrightarrow> client_inv c \<and> \<not> rc_shutdown c \<and> \<not> rc_blocked c"

definition fresh_call :: "kind option \<Rightarrow> seq_handler" where
  "fresh_call k = SeqCallback \<lparr>ca_kind = k, ca_errCh = [], ca_resp = None\<rparr>"

lemma drain_call:
  assumes codec: "codec_inverts codec" and c: "\<not> rc_blocked c" "seq \<in> rc_dispatch c" "rc_handlers c seq = Some (fresh_call k)"
    and obj: "case k of None \<Rightarrow> obj = None | Some kd \<Rightarrow> \<exists>r. obj = Some r \<and> kind_of r = kd"
    and err: "err \<noteq> cl_authRequired"
  shows "drain codec h0 (c\<lparr>rc_in := on_wire [(\<lparr>rsp_Seq = seq, rsp_Error = err\<rparr>, obj)]\<rparr>) =
    Ret (\<lparr>rsp_Seq = seq, rsp_Error = err\<rparr>, c\<lparr>rc_in := [],
      rc_handlers := (rc_handlers c)(seq \<mapsto> SeqCallback \<lparr>ca_kind = k, ca_errCh = [strToError err], ca_resp = obj\<rparr>)\<rparr>)"
proof (cases k)
  case None
  then show ?thesis
    using assms
    by (simp add: drain.simps on_wire_def codec_inverts_def respondSeq_def handle_found_def fresh_call_def
        callback_Handle_def put_err_def Let_def)
next
  case (Some kd)
  then obtain r where "obj = Some r" "kind_of r = kd" using obj by auto
  then show ?thesis
    using assms Some
    by (auto simp: drain.simps on_wire_def codec_inverts_def respondSeq_def handle_found_def fresh_call_def
        callback_Handle_def put_err_def decode_body_def Let_def)
qed

lemma start_call:
  assumes c: "ready c" and n: "unat (rc_seq c) < 2 ^ 64 - 1"
  defines "seq \<equiv> rc_seq c + 1"
  shows "genericRPC_start True rq c = Ret (None, seq,
      c\<lparr>rc_seq := seq, rc_handlers := (rc_handlers c)(seq \<mapsto> fresh_call (rq_kind rq)), rc_dispatch := insert seq (rc_dispatch c),
        rc_sent := rc_sent c @ MHeader \<lparr>rh_Command = rq_Command rq, rh_Seq = seq\<rparr> #
          (case rq_body rq of None \<Rightarrow> [] | Some m \<Rightarrow> [m])\<rparr>)"
    and "seq \<notin> rc_dispatch c" and "unat seq = Suc (unat (rc_seq c))"
proof -
  show u: "unat seq = Suc (unat (rc_seq c))"
    using n by (simp add: seq_def unat_word_ariths)
  show "seq \<notin> rc_dispatch c"
  proof
    assume "seq \<in> rc_dispatch c"
    then obtain hl where "rc_handlers c seq = Some hl"
      using client_inv_entry(1) [of c seq] c by (auto simp: ready_def entry_ok_def split: option.splits)
    then have "unat seq \<le> unat (rc_seq c)" using c client_inv_bound by (auto simp: ready_def)
    then show False using u by simp
  qed
  show "genericRPC_start True rq c = Ret (None, seq,
      c\<lparr>rc_seq := seq, rc_handlers := (rc_handlers c)(seq \<mapsto> fresh_call (rq_kind rq)), rc_dispatch := insert seq (rc_dispatch c),
        rc_sent := rc_sent c @ MHeader \<lparr>rh_Command = rq_Command rq, rh_Seq = seq\<rparr> #
          (case rq_body rq of None \<Rightarrow> [] | Some m \<Rightarrow> [m])\<rparr>)"
    using c by (simp add: genericRPC_start_def getSeq_def handleSeq_def client_send_def ready_def seq_def fresh_call_def Let_def)
qed

lemma wait_call:
  assumes "seq \<notin> D" and "rc_dispatch c = insert seq D"
    and "rc_handlers c seq = Some (SeqCallback \<lparr>ca_kind = k, ca_errCh = [e], ca_resp = obj\<rparr>)"
  shows "\<exists>c'. genericRPC_wait False seq c = Ret (Some (e, obj), c') \<and> c' = c\<lparr>rc_dispatch := D\<rparr>"
  using assms
  by (auto simp: genericRPC_wait_def deregisterHandler_def cleanup_seq_def Let_def fun_upd_idem_iff [THEN iffD2])

lemma cleanup_callback:
  "cleanup_all ss c = Ret c' \<Longrightarrow> rc_handlers c s = Some (SeqCallback ca) \<Longrightarrow> rc_handlers c' s = Some (SeqCallback ca)"
proof (induction ss arbitrary: c)
  case (Cons a ss)
  then obtain c1 where c1: "cleanup_seq a c = Ret c1" "cleanup_all ss c1 = Ret c'"
    by (auto simp: go_bind_eq_Ret)
  then have "rc_handlers c1 s = Some (SeqCallback ca)"
    using Cons.prems(2) by (auto simp: cleanup_seq_def go_bind_eq_Ret split: option.splits)
  with Cons.IH [OF c1(2)] show ?case by simp
qed simp

lemma close_callback:
  assumes "client_Close order c = Ret c'" and "rc_handlers c s = Some (SeqCallback ca)"
  shows "rc_handlers c' s = Some (SeqCallback ca)"
  using assms cleanup_callback [of "order (rc_dispatch c)" _ _ s ca]
  by (fastforce simp: client_Close_def deregisterAll_def go_bind_eq_Ret Let_def split: if_splits)

text \<open>A call to which the server sends one header, with what the client's call-back makes of it.\<close>

lemma exchange_turn:
  assumes env: "decodes_msgs env"
    and c: "ready c" "unat (rc_seq c) < 2 ^ 64 - 1"
    and hr: "handleRequest env (ic\<lparr>ic_in := (case rq_body rq of None \<Rightarrow> [] | Some m \<Rightarrow> [m])\<rparr>) i
        \<lparr>rh_Command = rq_Command rq, rh_Seq = rc_seq c + 1\<rparr> = Ret (None, ic', i', reqs)"
    and sent: "ic_out ic' = ic_out ic @ [(\<lparr>rsp_Seq = rc_seq c + 1, rsp_Error = err\<rparr>, sentObj)]"
    and drained: "\<And>c1. \<not> rc_blocked c1 \<Longrightarrow> rc_seq c + 1 \<in> rc_dispatch c1 \<Longrightarrow>
        rc_handlers c1 (rc_seq c + 1) = Some (fresh_call (rq_kind rq)) \<Longrightarrow>
        drain codec zero_response (c1\<lparr>rc_in := on_wire [(\<lparr>rsp_Seq = rc_seq c + 1, rsp_Error = err\<rparr>, sentObj)]\<rparr>) =
          Ret (\<lparr>rsp_Seq = rc_seq c + 1, rsp_Error = err\<rparr>, c1\<lparr>rc_in := [],
            rc_handlers := (rc_handlers c1)(rc_seq c + 1 \<mapsto> SeqCallback \<lparr>ca_kind = rq_kind rq, ca_errCh = [e], ca_resp = obj\<rparr>)\<rparr>)"
  shows "\<exists>c'. exchange env codec order rq c ic i = Ret (Some (e, obj), c', ic', i', reqs) \<and>
    ready c' \<and> rc_dispatch c' = rc_dispatch c \<and> rc_in c' = [] \<and> rc_seq c' = rc_seq c + 1"
proof -
  let ?seq = "rc_seq c + 1"
  let ?h = "\<lparr>rh_Command = rq_Command rq, rh_Seq = ?seq\<rparr>"
  let ?body = "case rq_body rq of None \<Rightarrow> [] | Some m \<Rightarrow> [m]"
  let ?c1 = "c\<lparr>rc_seq := ?seq, rc_handlers := (rc_handlers c)(?seq \<mapsto> fresh_call (rq_kind rq)),
    rc_dispatch := insert ?seq (rc_dispatch c), rc_sent := rc_sent c @ MHeader ?h # ?body\<rparr>"
  note start = start_call(1) [OF c, of rq] start_call(2,3) [OF c]
  have server: "server_turn env ic i (drop (length (rc_sent c)) (rc_sent ?c1)) = Ret (False, ic', i', reqs)"
    using env hr by (simp add: server_turn_def decodes_msgs_def)
  let ?msg = "(\<lparr>rsp_Seq = ?seq, rsp_Error = err\<rparr>, sentObj)"
  let ?c2 = "?c1\<lparr>rc_in := [], rc_handlers := (rc_handlers ?c1)(?seq \<mapsto>
      SeqCallback \<lparr>ca_kind = rq_kind rq, ca_errCh = [e], ca_resp = obj\<rparr>)\<rparr>"
  let ?c3 = "?c2\<lparr>rc_dispatch := rc_dispatch c\<rparr>"
  have turn: "client_turn codec order False (on_wire [?msg]) ?c1 = Ret ?c2"
    using drained [of ?c1] c by (simp add: client_turn_def ready_def)
  have wait: "\<exists>c3. genericRPC_wait False ?seq ?c2 = Ret (Some (e, obj), c3) \<and> c3 = ?c3"
    by (rule wait_call [OF start(2)]) simp_all
  have "client_inv ?c3"
  proof (rule client_invI)
    show "entry_ok (s \<in> rc_dispatch ?c3) (rc_handlers ?c3 s)" for s
      using start(2) client_inv_entry [of c s] c(1)
      by (cases "s = ?seq"; cases "s \<in> rc_dispatch c") (auto simp: ready_def entry_ok_def)
    show "unat s \<le> unat (rc_seq ?c3)" if "rc_handlers ?c3 s = Some hl" for s hl
      using that client_inv_bound [of c s] c(1) start(3) by (auto simp: ready_def split: if_splits)
  qed (use c(1) in \<open>simp_all add: ready_def client_inv_def\<close>)
  then have "ready ?c3"
    using c(1) by (simp add: ready_def)
  then show ?thesis
    using start(1) server turn wait sent by (simp add: exchange_def)
qed

text \<open>A call that the server answers.\<close>

lemma exchange_answered:
  assumes env: "decodes_msgs env" and codec: "codec_inverts codec"
    and c: "ready c" "unat (rc_seq c) < 2 ^ 64 - 1"
    and hr: "handleRequest env (ic\<lparr>ic_in := (case rq_body rq of None \<Rightarrow> [] | Some m \<Rightarrow> [m])\<rparr>) i
        \<lparr>rh_Command = rq_Command rq, rh_Seq = rc_seq c + 1\<rparr> = Ret (None, ic', i', reqs)"
    and sent: "ic_out ic' = ic_out ic @ [(\<lparr>rsp_Seq = rc_seq c + 1, rsp_Error = err\<rparr>, obj)]"
    and kd: "case rq_kind rq of None \<Rightarrow> obj = None | Some k \<Rightarrow> \<exists>r. obj = Some r \<and> kind_of r = k"
    and ne: "err \<noteq> cl_authRequired"
  shows "\<exists>c'. exchange env codec order rq c ic i = Ret (Some (strToError err, obj), c', ic', i', reqs) \<and>
    ready c' \<and> rc_dispatch c' = rc_dispatch c \<and> rc_in c' = [] \<and> rc_seq c' = rc_seq c + 1"
  by (rule exchange_turn [OF env c hr sent]) (rule drain_call [OF codec _ _ _ kd ne])

text \<open>A call on a connection that is not authenticated: the server refuses it.\<close>

lemma refused_request:
  fixes a :: api
  assumes "decodes_msgs env" and "unadmitted ic i"
  defines "rq \<equiv> request_of a"
  shows "handleRequest env (ic\<lparr>ic_in := (case rq_body rq of None \<Rightarrow> [] | Some m \<Rightarrow> [m])\<rparr>) i
      \<lparr>rh_Command = rq_Command rq, rh_Seq = seq\<rparr> =
    Ret (None, ic\<lparr>ic_in := (case rq_body rq of None \<Rightarrow> [] | Some m \<Rightarrow> [m]),
      ic_out := ic_out ic @ [(\<lparr>rsp_Seq = seq, rsp_Error = authRequired\<rparr>, None)]\<rparr>, i, [])"
  using assms
  by (cases a) (simp_all add: rq_def unadmitted_def handleRequest_def IPCClient_Send_def api_defs client_constants command_defs)

lemma exchange_refused:
  assumes env: "decodes_msgs env" and codec: "codec_inverts codec"
    and c: "ready c" "unat (rc_seq c) < 2 ^ 64 - 1" and un: "unadmitted ic i"
  shows "\<exists>c' ic'. exchange env codec order (request_of a) c ic i = Ret (Some (Some authRequired, None), c', ic', i, []) \<and> ready c'"
proof -
  have ne: "authRequired \<noteq> []" "cl_authRequired = authRequired"
    by (simp_all add: authRequired_def client_constants)
  have "\<exists>c'. exchange env codec order (request_of a) c ic i = Ret (Some (Some authRequired, None), c',
      ic\<lparr>ic_in := (case rq_body (request_of a) of None \<Rightarrow> [] | Some m \<Rightarrow> [m]),
        ic_out := ic_out ic @ [(\<lparr>rsp_Seq = rc_seq c + 1, rsp_Error = authRequired\<rparr>, None)]\<rparr>, i, []) \<and>
    ready c' \<and> rc_dispatch c' = rc_dispatch c \<and> rc_in c' = [] \<and> rc_seq c' = rc_seq c + 1"
  proof (rule exchange_turn [OF env c refused_request [OF env un]])
    fix c1 :: rpc_client
    assume "\<not> rc_blocked c1" "rc_seq c + 1 \<in> rc_dispatch c1"
      "rc_handlers c1 (rc_seq c + 1) = Some (fresh_call (rq_kind (request_of a)))"
    then show "drain codec zero_response (c1\<lparr>rc_in := on_wire [(\<lparr>rsp_Seq = rc_seq c + 1, rsp_Error = authRequired\<rparr>, None)]\<rparr>) =
        Ret (\<lparr>rsp_Seq = rc_seq c + 1, rsp_Error = authRequired\<rparr>, c1\<lparr>rc_in := [],
          rc_handlers := (rc_handlers c1)(rc_seq c + 1 \<mapsto>
            SeqCallback \<lparr>ca_kind = rq_kind (request_of a), ca_errCh = [Some authRequired], ca_resp = None\<rparr>)\<rparr>)"
      using codec ne
      by (simp add: drain.simps on_wire_def codec_inverts_def respondSeq_def handle_found_def fresh_call_def
          callback_Handle_def put_err_def strToError_def)
  qed simp
  then show ?thesis by blast
qed

text \<open>A call that gets no answer: the server ends the session, and the client closes.\<close>

lemma dropped_turn:
  assumes inv: "client_inv c" and c: "\<not> rc_shutdown c" "\<not> rc_blocked c" "rc_handlers c seq = Some (fresh_call k)"
    and order: "\<And>S. finite S \<Longrightarrow> distinct (order S) \<and> set (order S) = S"
  shows "\<exists>c2 c3. client_turn codec order True [] c = Ret c2 \<and>
    genericRPC_wait False seq c2 = Ret (Some (Some clientClosed, None), c3) \<and> IsClosed c3"
proof -
  have "client_inv (c\<lparr>rc_in := []\<rparr>)" using inv by simp
  from Close_ok [OF this order] obtain c2 where c2: "client_Close order (c\<lparr>rc_in := []\<rparr>) = Ret c2" "client_inv c2" "rc_shutdown c2"
    by blast
  then have sd: "rc_shutdownCh_closed c2" "rc_dispatch c2 = {}" by (simp_all add: client_inv_def)
  have "rc_handlers c2 seq = Some (fresh_call k)"
    using close_callback [OF c2(1)] c(3) by (simp add: fresh_call_def)
  then have "genericRPC_wait False seq c2 = Ret (Some (Some clientClosed, None), c2)"
    using sd by (simp add: genericRPC_wait_def fresh_call_def deregisterHandler_def)
  moreover have "client_turn codec order True [] c = Ret c2"
    using c(2) c2(1) by (simp add: client_turn_def drain.simps)
  ultimately show ?thesis using c2 by (auto simp: IsClosed_def)
qed

lemma exchange_dropped:
  assumes env: "decodes_msgs env" and c: "ready c" "unat (rc_seq c) < 2 ^ 64 - 1"
    and order: "\<And>S. finite S \<Longrightarrow> distinct (order S) \<and> set (order S) = S"
    and hr: "handleRequest env (ic\<lparr>ic_in := (case rq_body rq of None \<Rightarrow> [] | Some m \<Rightarrow> [m])\<rparr>) i
        \<lparr>rh_Command = rq_Command rq, rh_Seq = rc_seq c + 1\<rparr> = Ret (Some e, ic', i', reqs)"
    and sent: "ic_out ic' = ic_out ic"
  shows "\<exists>c'. exchange env codec order rq c ic i = Ret (Some (Some clientClosed, None), c', ic', i', reqs) \<and> IsClosed c'"
proof -
  let ?seq = "rc_seq c + 1"
  let ?c1 = "c\<lparr>rc_seq := ?seq, rc_handlers := (rc_handlers c)(?seq \<mapsto> fresh_call (rq_kind rq)),
    rc_dispatch := insert ?seq (rc_dispatch c), rc_sent := rc_sent c @ MHeader \<lparr>rh_Command = rq_Command rq, rh_Seq = ?seq\<rparr> #
      (case rq_body rq of None \<Rightarrow> [] | Some m \<Rightarrow> [m])\<rparr>"
  note start = start_call(1) [OF c, of rq]
  have server: "server_turn env ic i (drop (length (rc_sent c)) (rc_sent ?c1)) = Ret (True, ic', i', reqs)"
    using env hr by (simp add: server_turn_def decodes_msgs_def)
  have "client_inv ?c1"
    using start_ok [OF _ c(2), of True rq] start c(1) by (auto simp: ready_def)
  from dropped_turn [OF this _ _ _ order, of ?seq "rq_kind rq" codec] obtain c2 c3 where
    "client_turn codec order True [] ?c1 = Ret c2" "genericRPC_wait False ?seq c2 = Ret (Some (Some clientClosed, None), c3)"
    "IsClosed c3"
    using c by (auto simp: ready_def)
  then show ?thesis
    using start server sent by (simp add: exchange_def on_wire_def)
qed

section \<open>Connecting\<close>

text \<open>The configuration of a client, and connecting: \<open>dial\<close> is the network, giving the client's name on the
  server or an error.\<close>

record client_config =
  ccf_Addr :: string
  ccf_AuthKey :: string
  ccf_Timeout :: duration

definition DefaultTimeout :: duration where
  "DefaultTimeout = 10000000000"

definition ClientFromConfig ::
  "(string \<Rightarrow> duration \<Rightarrow> string + string) \<Rightarrow> msg env \<Rightarrow> client_codec \<Rightarrow> (uint64 set \<Rightarrow> uint64 list) \<Rightarrow> client_config \<Rightarrow> ipc \<Rightarrow>
   ((string + rpc_client) \<times> msg ipc_client option \<times> ipc \<times> serf_req list) go" where
  "ClientFromConfig dial env codec order conf i =
     (let timeout = (if ccf_Timeout conf = 0 then DefaultTimeout else ccf_Timeout conf) in
      case dial (ccf_Addr conf) timeout of
        Inl err \<Rightarrow> Ret (Inl err, None, i, [])
      | Inr name \<Rightarrow>
          go_bind (exchange env codec order RPC_handshake (dialed_client []) (new_client name []) i)
            (\<lambda>(r, c1, ic1, i1, reqs1).
               case r of
                 Some (Some err, _) \<Rightarrow> go_bind (client_Close order c1) (\<lambda>c. Ret (Inl err, Some ic1, i1, reqs1))
               | _ \<Rightarrow>
                   if ccf_AuthKey conf \<noteq> '''' then
                     go_bind (exchange env codec order (RPC_auth (ccf_AuthKey conf)) c1 ic1 i1)
                       (\<lambda>(r, c2, ic2, i2, reqs2).
                          case r of
                            Some (Some err, _) \<Rightarrow>
                              go_bind (client_Close order c2) (\<lambda>c. Ret (Inl err, Some ic2, i2, reqs1 @ reqs2))
                          | _ \<Rightarrow> Ret (Inr c2, Some ic2, i2, reqs1 @ reqs2))
                   else Ret (Inr c1, Some ic1, i1, reqs1)))"

definition NewRPCClient ::
  "(string \<Rightarrow> duration \<Rightarrow> string + string) \<Rightarrow> msg env \<Rightarrow> client_codec \<Rightarrow> (uint64 set \<Rightarrow> uint64 list) \<Rightarrow> string \<Rightarrow> ipc \<Rightarrow>
   ((string + rpc_client) \<times> msg ipc_client option \<times> ipc \<times> serf_req list) go" where
  "NewRPCClient dial env codec order addr =
     ClientFromConfig dial env codec order \<lparr>ccf_Addr = addr, ccf_AuthKey = '''', ccf_Timeout = 0\<rparr>"

lemma direct_authKey:
  assumes "direct env pending i a = Ret (Some (err, obj, i', reqs))"
  shows "ip_authKey i' = ip_authKey i"
  using assms
  by (cases a) (auto simp: key_call_def Let_def go_bind_eq_Ret split: prod.splits option.splits sum.splits if_splits)

text \<open>A call on an admitted connection, with what the next call needs.\<close>

lemma call_transparent:
  assumes env: "decodes_msgs env" and codec: "codec_inverts codec"
    and order: "\<And>S. finite S \<Longrightarrow> distinct (order S) \<and> set (order S) = S"
    and c: "ready c" "unat (rc_seq c) < 2 ^ 64 - 1" and ad: "admitted ic i"
    and out: "direct env (ic_pendingQueries ic) i a = Ret answer"
    and refusal: "\<And>e v i' reqs. answer = Some (Some e, v, i', reqs) \<Longrightarrow> e \<noteq> authRequired"
  shows "case answer of
      Some (err, obj, i', reqs) \<Rightarrow>
        \<exists>c' ic'. exchange env codec order (request_of a) c ic i = Ret (Some (strToError (errToString err), obj), c', ic', i', reqs) \<and>
          ready c' \<and> rc_dispatch c' = rc_dispatch c \<and> rc_in c' = [] \<and> rc_seq c' = rc_seq c + 1 \<and>
          ic_in ic' = [] \<and> ic_pendingQueries ic' = ic_pendingQueries ic \<and> admitted ic' i'
    | None \<Rightarrow>
        \<exists>c' ic'. exchange env codec order (request_of a) c ic i = Ret (Some (Some clientClosed, None), c', ic', i, []) \<and> IsClosed c'"
proof (cases answer)
  case None
  note req = admitted_request [OF env ad, where a = a and seq = "rc_seq c + 1", unfolded out None, simplified]
  then obtain e where "handleRequest env (ic\<lparr>ic_in := (case rq_body (request_of a) of None \<Rightarrow> [] | Some m \<Rightarrow> [m])\<rparr>) i
        \<lparr>rh_Command = rq_Command (request_of a), rh_Seq = rc_seq c + 1\<rparr> = Ret (Some e, ic\<lparr>ic_in := []\<rparr>, i, [])" ..
  from exchange_dropped [OF env c order this, where codec = codec] show ?thesis
    using None by auto
next
  case (Some r)
  obtain err obj i' reqs where r: "r = (err, obj, i', reqs)" by (cases r)
  note req = admitted_request [OF env ad, where a = a and seq = "rc_seq c + 1", unfolded out Some r, simplified]
  have ne: "errToString err \<noteq> cl_authRequired"
    using refusal Some r by (cases err) (auto simp: client_constants authRequired_def)
  have "ip_authKey i' = ip_authKey i"
    using direct_authKey out Some r by blast
  then have "admitted (ic\<lparr>ic_in := [], ic_out := ic_out ic @ [(\<lparr>rsp_Seq = rc_seq c + 1, rsp_Error = errToString err\<rparr>, obj)]\<rparr>) i'"
    using ad by (simp add: admitted_def)
  then show ?thesis
    using exchange_answered [OF env codec c conjunct1 [OF req] _ conjunct2 [OF req] ne, where order = order] Some r by auto
qed

section \<open>Properties\<close>

text \<open>C26. The client, the wire and the server are transparent: a call of the client on an admitted
  connection returns exactly the error and the value that the direct call of the agent returns, has
  exactly its effect on the agent and makes exactly its requests to serf; afterwards client and server
  are ready for the next call and no response is left over. A members filter that does not compile ends
  the connection instead, and the call returns \<^verbatim>\<open>client closed\<close>. (An error with an empty text counts as
  success, and an error of serf must not read like the server's refusal.)\<close>

theorem rpc_transparent:
  assumes env: "decodes_msgs env" and codec: "codec_inverts codec"
    and order: "\<And>S. finite S \<Longrightarrow> distinct (order S) \<and> set (order S) = S"
    and c: "ready c" "unat (rc_seq c) < 2 ^ 64 - 1" and ad: "admitted ic i"
    and out: "direct env (ic_pendingQueries ic) i a = Ret answer"
    and refusal: "\<And>e v i' reqs. answer = Some (Some e, v, i', reqs) \<Longrightarrow> e \<noteq> authRequired"
  shows "case answer of
      Some (err, obj, i', reqs) \<Rightarrow>
        \<exists>c' ic'. exchange env codec order (request_of a) c ic i = Ret (Some (strToError (errToString err), obj), c', ic', i', reqs) \<and>
          ready c' \<and> rc_dispatch c' = rc_dispatch c \<and> rc_in c' = [] \<and> ic_in ic' = [] \<and> ic_pendingQueries ic' = ic_pendingQueries ic
    | None \<Rightarrow>
        \<exists>c' ic'. exchange env codec order (request_of a) c ic i = Ret (Some (Some clientClosed, None), c', ic', i, []) \<and> IsClosed c'"
  using call_transparent [where order = order, OF env codec _ c ad out] order refusal
  by (cases answer) (auto split: prod.splits)

section \<open>A concrete wire\<close>

definition msg_env :: "msg env" where
  "msg_env =
     \<lparr>d_header = (\<lambda>w h. case w of MHeader h' \<Rightarrow> Inr h' | _ \<Rightarrow> Inl ''type''),
      d_handshake = (\<lambda>w. case w of MHandshake v \<Rightarrow> Inr v | _ \<Rightarrow> Inl ''type''),
      d_auth = (\<lambda>w. case w of MAuth s \<Rightarrow> Inr s | _ \<Rightarrow> Inl ''type''),
      d_event = (\<lambda>w. case w of MEvent r \<Rightarrow> Inr r | _ \<Rightarrow> Inl ''type''),
      d_forceLeave = (\<lambda>w. case w of MForceLeave s \<Rightarrow> Inr s | _ \<Rightarrow> Inl ''type''),
      d_join = (\<lambda>w. case w of MJoin r \<Rightarrow> Inr r | _ \<Rightarrow> Inl ''type''),
      d_membersFiltered = (\<lambda>w. case w of MMembersFiltered r \<Rightarrow> Inr r | _ \<Rightarrow> Inl ''type''),
      d_key = (\<lambda>w. case w of MKey s \<Rightarrow> Inr s | _ \<Rightarrow> Inl ''type''),
      d_stream = (\<lambda>w. case w of MStream s \<Rightarrow> Inr s | _ \<Rightarrow> Inl ''type''),
      d_monitor = (\<lambda>w. case w of MMonitor s \<Rightarrow> Inr s | _ \<Rightarrow> Inl ''type''),
      d_stop = (\<lambda>w. case w of MStop q \<Rightarrow> Inr q | _ \<Rightarrow> Inl ''type''),
      d_tags = (\<lambda>w. case w of MTags r \<Rightarrow> Inr r | _ \<Rightarrow> Inl ''type''),
      d_query = (\<lambda>w. case w of MQuery r \<Rightarrow> Inr r | _ \<Rightarrow> Inl ''type''),
      d_respond = (\<lambda>w. case w of MRespond r \<Rightarrow> Inr r | _ \<Rightarrow> Inl ''type''),
      d_routers = (\<lambda>w. case w of MRouters rs \<Rightarrow> Inr rs | _ \<Rightarrow> Inl ''type''),
      d_coordinate = (\<lambda>w. case w of MCoordinate s \<Rightarrow> Inr s | _ \<Rightarrow> Inl ''type''),
      s_UserEvent = (\<lambda>n p q. None), s_RemoveFailedNode = (\<lambda>n. None), s_Join = (\<lambda>a r. (int (length a), None)),
      s_Members = [demo_member ''n1''], s_status = (\<lambda>st. ''alive''), s_key = (\<lambda>r. (no_key, None)),
      s_Leave = None, s_Shutdown = None, s_SetTags = (\<lambda>t. None), s_internal = ''_serf_'',
      s_Query = (\<lambda>n p q. Inr 0), s_Respond = (\<lambda>q p. None), s_Stats = Map.empty, s_runtime = Map.empty,
      s_local = demo_member ''n1'', s_coordinate = (\<lambda>n. None), s_no_coordinate = undefined,
      s_compile = (\<lambda>p. Inr (\<lambda>s. True)), s_json = demo_json, s_conf_after = (\<lambda>t c. c),
      s_check = (\<lambda>level line. True), s_order = sorted_list_of_set, s_keys = sorted_list_of_set,
      s_seqs = sorted_list_of_set, s_counted = (\<lambda>d. d)\<rparr>"

definition down_codec :: client_codec where
  "down_codec =
     \<lparr>cc_header = (\<lambda>d h. case d of DHeader h' \<Rightarrow> Inr h' | DBody r \<Rightarrow> Inr h),
      cc_body = (\<lambda>k d. case d of DBody r \<Rightarrow> Inr r | DHeader h \<Rightarrow> Inl ''type'')\<rparr>"

lemma concrete_wire: "decodes_msgs msg_env" "codec_inverts down_codec"
  by (simp_all add: decodes_msgs_def msg_env_def codec_inverts_def down_codec_def)

lemma sorted_order: "finite S \<Longrightarrow> distinct (sorted_list_of_set S) \<and> set (sorted_list_of_set S) = (S :: uint64 set)"
  by simp

lemma ready_dialed: "ready (dialed_client input)"
  by (simp add: ready_def client_inv_def dialed_client_def entry_ok_def)

theorem rpc_transparent_witness:
  "\<exists>c' ic'. exchange msg_env down_codec sorted_list_of_set (request_of (AJoin [''10.0.0.1'', ''10.0.0.2''] True)) (dialed_client [])
      ((new_client ''c'' [])\<lparr>ic_version := 1\<rparr>) (demo_ipc '''') =
    Ret (Some (None, Some (RJoin 2)), c', ic', demo_ipc '''', [QJoin [''10.0.0.1'', ''10.0.0.2''] False]) \<and>
    ready c' \<and> rc_dispatch c' = {} \<and> rc_in c' = [] \<and> ic_in ic' = [] \<and> ic_pendingQueries ic' = Map.empty"
proof -
  let ?ic = "(new_client ''c'' [])\<lparr>ic_version := 1\<rparr> :: msg ipc_client"
  let ?a = "AJoin [''10.0.0.1'', ''10.0.0.2''] True"
  have "admitted ?ic (demo_ipc '''')"
    by (simp add: admitted_def new_client_def demo_ipc_def SetDiscoverd_def NewAgentIPC_def)
  moreover have "direct msg_env (ic_pendingQueries ?ic) (demo_ipc '''') ?a =
      Ret (Some (None, Some (RJoin 2), demo_ipc '''', [QJoin [''10.0.0.1'', ''10.0.0.2''] False]))"
    by (simp add: msg_env_def int32_def)
  ultimately show ?thesis
    using rpc_transparent [OF concrete_wire sorted_order ready_dialed, of "[]" ?ic "demo_ipc ''''" ?a]
    by (simp add: dialed_client_def new_client_def strToError_def)
qed

lemma handshake_request:
  assumes "decodes_msgs env"
  shows "handleRequest env ((new_client name [])\<lparr>ic_in := [MHandshake cl_maxIPCVersion]\<rparr>) i \<lparr>rh_Command = cl_handshakeCommand, rh_Seq = seq\<rparr> =
    Ret (None, (new_client name [])\<lparr>ic_version := 1, ic_out := [(\<lparr>rsp_Seq = seq, rsp_Error = ''''\<rparr>, None)]\<rparr>, i, [])"
  using assms
  by (simp add: handleRequest_def client_constants command_defs handleHandshake_def with_req_def respond_def IPCClient_Send_def
      decodes_msgs_def new_client_def MinIPCVersion_def MaxIPCVersion_def)

lemma auth_request:
  assumes "decodes_msgs env" and "ic_version ic \<noteq> 0" and "\<not> ic_broken ic" "\<not> ic_closed ic"
  shows "handleRequest env (ic\<lparr>ic_in := [MAuth key]\<rparr>) i \<lparr>rh_Command = cl_authCommand, rh_Seq = seq\<rparr> =
    (if key = ip_authKey i
     then Ret (None, ic\<lparr>ic_in := [], ic_didAuth := True, ic_out := ic_out ic @ [(\<lparr>rsp_Seq = seq, rsp_Error = ''''\<rparr>, None)]\<rparr>, i, [])
     else Ret (None, ic\<lparr>ic_in := [], ic_out := ic_out ic @ [(\<lparr>rsp_Seq = seq, rsp_Error = invalidAuthToken\<rparr>, None)]\<rparr>, i, []))"
  using assms
  by (simp add: handleRequest_def client_constants command_defs handleAuth_def with_req_def respond_def IPCClient_Send_def
      decodes_msgs_def)

lemma connecting:
  assumes env: "decodes_msgs env" and codec: "codec_inverts codec"
    and order: "\<And>S. finite S \<Longrightarrow> distinct (order S) \<and> set (order S) = S"
    and dial: "\<And>t. dial (ccf_Addr conf) t = Inr name"
  shows "\<exists>r ic. ClientFromConfig dial env codec order conf i = Ret (r, Some ic, i, []) \<and>
    (if ccf_AuthKey conf = ip_authKey i then \<exists>c. r = Inr c \<and> ready c \<and> admitted ic i \<and> unat (rc_seq c) \<le> 2 \<and> ic_pendingQueries ic = Map.empty
     else if ccf_AuthKey conf = '''' then \<exists>c. r = Inr c \<and> ready c \<and> unadmitted ic i \<and> unat (rc_seq c) \<le> 2
     else r = Inl invalidAuthToken)"
proof -
  let ?c0 = "dialed_client []" and ?ic0 = "new_client name [] :: msg ipc_client" and ?key = "ccf_AuthKey conf"
  let ?ic1 = "?ic0\<lparr>ic_version := 1, ic_out := [(\<lparr>rsp_Seq = rc_seq ?c0 + 1, rsp_Error = ''''\<rparr>, None)]\<rparr>"
  have "unat (rc_seq ?c0) < 2 ^ 64 - 1" by (simp add: dialed_client_def)
  from exchange_answered [OF env codec ready_dialed this, of RPC_handshake ?ic0 i ?ic1 i "[]" "''''" None order]
    handshake_request [OF env, of name i]
  obtain c1 where e1: "exchange env codec order RPC_handshake ?c0 ?ic0 i = Ret (Some (None, None), c1, ?ic1, i, [])"
      and c1: "ready c1" "rc_seq c1 = rc_seq ?c0 + 1"
    by (auto simp: RPC_handshake_def new_client_def strToError_def client_constants authRequired_def)
  show ?thesis
  proof (cases "?key = ''''")
    case True
    then show ?thesis
      using dial e1 c1 by (auto simp: ClientFromConfig_def admitted_def unadmitted_def new_client_def dialed_client_def)
  next
    case False
    have n: "unat (rc_seq c1) < 2 ^ 64 - 1" using c1(2) by (simp add: dialed_client_def)
    let ?err = "if ?key = ip_authKey i then '''' else invalidAuthToken"
    let ?ic2 = "?ic1\<lparr>ic_in := [], ic_didAuth := (?key = ip_authKey i),
      ic_out := ic_out ?ic1 @ [(\<lparr>rsp_Seq = rc_seq c1 + 1, rsp_Error = ?err\<rparr>, None)]\<rparr>"
    have "handleRequest env (?ic1\<lparr>ic_in := (case rq_body (RPC_auth ?key) of None \<Rightarrow> [] | Some m \<Rightarrow> [m])\<rparr>) i
        \<lparr>rh_Command = rq_Command (RPC_auth ?key), rh_Seq = rc_seq c1 + 1\<rparr> = Ret (None, ?ic2, i, [])"
      using auth_request [OF env, of ?ic1 ?key i "rc_seq c1 + 1"] by (simp add: RPC_auth_def new_client_def)
    moreover have "?err \<noteq> cl_authRequired"
      by (simp add: client_constants authRequired_def invalidAuthToken_def)
    moreover have "ic_out ?ic2 = ic_out ?ic1 @ [(\<lparr>rsp_Seq = rc_seq c1 + 1, rsp_Error = ?err\<rparr>, None)]"
      by simp
    moreover have "case rq_kind (RPC_auth ?key) of None \<Rightarrow> (None :: reply option) = None | Some k \<Rightarrow> \<exists>r. None = Some r \<and> kind_of r = k"
      by (simp add: RPC_auth_def)
    ultimately obtain c2 where
      e2: "exchange env codec order (RPC_auth ?key) c1 ?ic1 i = Ret (Some (strToError ?err, None), c2, ?ic2, i, [])"
        and c2: "ready c2" "rc_seq c2 = rc_seq c1 + 1"
      using exchange_answered [OF env codec c1(1) n] by blast
    obtain c3 where "client_Close order c2 = Ret c3"
      using Close_ok [OF _ order] c2 by (auto simp: ready_def)
    then show ?thesis
      using dial e1 e2 c2 c1(2) False
      by (auto simp: ClientFromConfig_def admitted_def new_client_def dialed_client_def strToError_def invalidAuthToken_def)
  qed
qed

text \<open>C27. Connecting: with the server's authentication key the client gets a connection on which calls are
  admitted; without a key, when the server has one, it gets a connection on which they are not; with
  any other key (also when the server has none) connecting fails with the server's error. The agent is
  left alone in every case.\<close>

theorem connecting_authenticates:
  assumes env: "decodes_msgs env" and codec: "codec_inverts codec"
    and order: "\<And>S. finite S \<Longrightarrow> distinct (order S) \<and> set (order S) = S"
    and dial: "\<And>t. dial (ccf_Addr conf) t = Inr name"
  shows "\<exists>r ic. ClientFromConfig dial env codec order conf i = Ret (r, Some ic, i, []) \<and>
    (if ccf_AuthKey conf = ip_authKey i then \<exists>c. r = Inr c \<and> ready c \<and> admitted ic i
     else if ccf_AuthKey conf = '''' then \<exists>c. r = Inr c \<and> ready c \<and> \<not> admitted ic i
     else r = Inl invalidAuthToken)"
  using connecting [OF env codec, where order = order and dial = dial and conf = conf and name = name and i = i] order dial
  by (auto simp: admitted_def unadmitted_def split: if_splits)

theorem connecting_authenticates_witness:
  "\<exists>r ic. ClientFromConfig (\<lambda>a t. Inr ''c1'') msg_env down_codec sorted_list_of_set
      \<lparr>ccf_Addr = ''127.0.0.1:7373'', ccf_AuthKey = ''secret'', ccf_Timeout = 0\<rparr> (demo_ipc ''secret'') = Ret (r, Some ic, demo_ipc ''secret'', []) \<and>
    (\<exists>c. r = Inr c \<and> ready c \<and> admitted ic (demo_ipc ''secret''))"
  using connecting_authenticates [OF concrete_wire sorted_order, where dial = "\<lambda>a t. Inr ''c1''" and name = "''c1''" and i = "demo_ipc ''secret''"
      and conf = "\<lparr>ccf_Addr = ''127.0.0.1:7373'', ccf_AuthKey = ''secret'', ccf_Timeout = 0\<rparr>"]
  by (simp add: demo_ipc_def SetDiscoverd_def NewAgentIPC_def)

end
