(* ===== verification/GoFlag.thy ===== *)
theory GoFlag
  imports GoStd
begin

text \<open>
  Go's \<^verbatim>\<open>flag\<close> package as the commands use it: a flag set maps names to setters of the variables
  bound to them, \<^verbatim>\<open>Parse\<close> consumes the arguments up to the first one that is not a flag. On a failure
  the package prints the error to standard error and calls the set's \<^verbatim>\<open>Usage\<close>; the commands see
  an error and give up. The number and boolean texts are those of \<^verbatim>\<open>strconv\<close>.
\<close>

section \<open>Texts of values\<close>

definition ParseBool :: "string \<Rightarrow> bool option" where
  "ParseBool s =
     (if s \<in> set [''1'', ''t'', ''T'', ''true'', ''TRUE'', ''True''] then Some True
      else if s \<in> set [''0'', ''f'', ''F'', ''false'', ''FALSE'', ''False''] then Some False
      else None)"

definition digit_value :: "char \<Rightarrow> nat option" where
  "digit_value c =
     (let n = of_char c :: nat in
      if 48 \<le> n \<and> n \<le> 57 then Some (n - 48)
      else if 97 \<le> n \<and> n \<le> 122 then Some (n - 87)
      else if 65 \<le> n \<and> n \<le> 90 then Some (n - 55)
      else None)"

fun digits_value :: "nat \<Rightarrow> nat \<Rightarrow> string \<Rightarrow> nat option" where
  "digits_value b acc [] = Some acc"
| "digits_value b acc (c # cs) =
     (case digit_value c of
        Some d \<Rightarrow> if d < b then digits_value b (acc * b + d) cs else None
      | None \<Rightarrow> None)"

text \<open>\<^verbatim>\<open>strconv.ParseUint (s, 0, 64)\<close> without its range check: the prefix decides the base.\<close>

definition unsigned_value :: "string \<Rightarrow> nat option" where
  "unsigned_value s =
     (case s of
        [] \<Rightarrow> None
      | c # r \<Rightarrow>
          if c = CHR ''0'' \<and> r \<noteq> [] \<and> hd r \<in> {CHR ''x'', CHR ''X''} then
            (if tl r = [] then None else digits_value 16 0 (tl r))
          else if c = CHR ''0'' then digits_value 8 0 s
          else digits_value 10 0 s)"

text \<open>\<^verbatim>\<open>strconv.ParseInt (s, 0, 64)\<close>; \<open>None\<close> is a syntax or range error.\<close>

definition ParseInt :: "string \<Rightarrow> int64 option" where
  "ParseInt s =
     (let (neg, r) =
        (case s of
           [] \<Rightarrow> (False, [])
         | c # t \<Rightarrow> if c = CHR ''-'' then (True, t) else if c = CHR ''+'' then (False, t) else (False, s))
      in case unsigned_value r of
           None \<Rightarrow> None
         | Some n \<Rightarrow>
             if neg then (if n \<le> 2 ^ 63 then Some (- word_of_nat n) else None)
             else (if n < 2 ^ 63 then Some (word_of_nat n) else None))"

section \<open>Flag sets\<close>

text \<open>The variables the flags are bound to are the fields of a record \<open>'a\<close>. A setter fails (\<open>None\<close>)
  on a text its value does not have.\<close>

record 'a flag =
  flag_isBool :: bool
  flag_set :: "string \<Rightarrow> 'a \<Rightarrow> 'a option"

type_synonym 'a flagset = "string \<rightharpoonup> 'a flag"

definition StringVar :: "(string \<Rightarrow> 'a \<Rightarrow> 'a) \<Rightarrow> 'a flag" where
  "StringVar upd = \<lparr>flag_isBool = False, flag_set = (\<lambda>v a. Some (upd v a))\<rparr>"

definition BoolVar :: "(bool \<Rightarrow> 'a \<Rightarrow> 'a) \<Rightarrow> 'a flag" where
  "BoolVar upd = \<lparr>flag_isBool = True, flag_set = (\<lambda>v a. map_option (\<lambda>b. upd b a) (ParseBool v))\<rparr>"

definition IntVar :: "(int64 \<Rightarrow> 'a \<Rightarrow> 'a) \<Rightarrow> 'a flag" where
  "IntVar upd = \<lparr>flag_isBool = False, flag_set = (\<lambda>v a. map_option (\<lambda>i. upd i a) (ParseInt v))\<rparr>"

text \<open>A setter that parses its text with a function of its own, e.g. a duration.\<close>

definition ParsedVar :: "(string \<Rightarrow> 'v option) \<Rightarrow> ('v \<Rightarrow> 'a \<Rightarrow> 'a) \<Rightarrow> 'a flag" where
  "ParsedVar parse upd = \<lparr>flag_isBool = False, flag_set = (\<lambda>v a. map_option (\<lambda>i. upd i a) (parse v))\<rparr>"

datatype flag_error =
    ErrHelp
  | BadFlagSyntax string
  | FlagNotDefined string
  | FlagNeedsArgument string
  | InvalidFlagValue string string

datatype 'a flag_turn =
    FlagsEnd "string list"
  | FlagsFail flag_error
  | FlagSet 'a "string list"

text \<open>The name and the value of an argument without its dashes; a leading equals sign is refused before.\<close>

definition split_flag :: "string \<Rightarrow> string \<times> string option" where
  "split_flag s =
     (case dropWhile (\<lambda>c. c \<noteq> CHR ''='') s of
        [] \<Rightarrow> (s, None)
      | _ # v \<Rightarrow> (takeWhile (\<lambda>c. c \<noteq> CHR ''='') s, Some v))"

definition set_flag :: "'a flag \<Rightarrow> string \<Rightarrow> string \<Rightarrow> string list \<Rightarrow> 'a \<Rightarrow> 'a flag_turn" where
  "set_flag fl name v rest a =
     (case flag_set fl v a of None \<Rightarrow> FlagsFail (InvalidFlagValue name v) | Some a' \<Rightarrow> FlagSet a' rest)"

text \<open>The rest of a turn once name and value are known: a boolean flag needs no value, any other takes
  the next argument if it has none of its own.\<close>

definition apply_flag :: "'a flagset \<Rightarrow> string \<Rightarrow> string option \<Rightarrow> string list \<Rightarrow> 'a \<Rightarrow> 'a flag_turn" where
  "apply_flag fs name value rest a =
     (case fs name of
        None \<Rightarrow> FlagsFail (if name \<in> {''help'', ''h''} then ErrHelp else FlagNotDefined name)
      | Some fl \<Rightarrow>
          if flag_isBool fl then
            set_flag fl name (case value of None \<Rightarrow> ''true'' | Some v \<Rightarrow> v) rest a
          else
            (case value of
               Some v \<Rightarrow> set_flag fl name v rest a
             | None \<Rightarrow>
                 (case rest of
                    [] \<Rightarrow> FlagsFail (FlagNeedsArgument name)
                  | v # rest' \<Rightarrow> set_flag fl name v rest' a)))"

text \<open>One turn of \<^verbatim>\<open>FlagSet.Parse\<close>.\<close>

definition flag_body :: "string \<Rightarrow> string" where
  "flag_body s = (if s ! 1 = CHR ''-'' then drop 2 s else drop 1 s)"

definition parse_one :: "'a flagset \<Rightarrow> string list \<Rightarrow> 'a \<Rightarrow> 'a flag_turn" where
  "parse_one fs args a =
     (case args of
        [] \<Rightarrow> FlagsEnd []
      | s # rest \<Rightarrow>
          if length s < 2 \<or> s ! 0 \<noteq> CHR ''-'' then FlagsEnd args
          else if s = ''--'' then FlagsEnd rest
          else if flag_body s = [] \<or> hd (flag_body s) \<in> {CHR ''-'', CHR ''=''} then FlagsFail (BadFlagSyntax s)
          else (let (name, value) = split_flag (flag_body s) in apply_flag fs name value rest a))"

lemma set_flag_rest: "set_flag fl n v rest a = FlagSet a' rest' \<Longrightarrow> rest' = rest \<and> flag_set fl v a = Some a'"
  by (auto simp: set_flag_def split: option.splits)

section \<open>Laws\<close>

text \<open>The flag an argument would set, were it read as a flag.\<close>

definition flag_name :: "string \<Rightarrow> string" where
  "flag_name s = fst (split_flag (flag_body s))"

lemma apply_flag_FlagSet:
  "apply_flag fs name value rest a = FlagSet a' args' \<Longrightarrow>
   \<exists>fl v. fs name = Some fl \<and> flag_set fl v a = Some a' \<and> set args' \<subseteq> set rest \<and> length args' \<le> length rest"
  unfolding apply_flag_def
  by (auto dest!: set_flag_rest split: option.splits if_splits list.splits)

lemma parse_one_FlagSet:
  assumes "parse_one fs args a = FlagSet a' args'"
  obtains s fl v where "s \<in> set args" "fs (flag_name s) = Some fl" "flag_set fl v a = Some a'"
    "set args' \<subseteq> set args" "length args' < length args"
proof -
  obtain s rest where args: "args = s # rest"
    using assms by (cases args) (auto simp: parse_one_def)
  then have "apply_flag fs (flag_name s) (snd (split_flag (flag_body s))) rest a = FlagSet a' args'"
    using assms by (auto simp: parse_one_def flag_name_def split: if_splits prod.splits)
  from apply_flag_FlagSet [OF this] obtain fl v where
    "fs (flag_name s) = Some fl" "flag_set fl v a = Some a'" "set args' \<subseteq> set rest" "length args' \<le> length rest"
    by blast
  then show thesis
    using that [of s fl v] args by auto
qed

lemma parse_one_shorter: "parse_one fs args a = FlagSet a' args' \<Longrightarrow> length args' < length args"
  by (erule parse_one_FlagSet)

text \<open>\<^verbatim>\<open>Parse\<close>: the variables after the flags, and the remaining arguments.\<close>

function parse_flags :: "'a flagset \<Rightarrow> string list \<Rightarrow> 'a \<Rightarrow> flag_error + 'a \<times> string list" where
  "parse_flags fs args a =
     (case parse_one fs args a of
        FlagsEnd rest \<Rightarrow> Inr (a, rest)
      | FlagsFail e \<Rightarrow> Inl e
      | FlagSet a' args' \<Rightarrow> parse_flags fs args' a')"
  by pat_completeness auto
termination
  by (relation "measure (\<lambda>(fs, args, a). length args)") (auto dest: parse_one_shorter)

declare parse_flags.simps [simp del]

text \<open>What the setters of the flags named in the arguments keep, parsing keeps.\<close>

lemma parse_flags_keeps:
  assumes "parse_flags fs args a = Inr (a', rest)" and "P a"
    and "\<And>s fl v b b'. s \<in> set args \<Longrightarrow> fs (flag_name s) = Some fl \<Longrightarrow> flag_set fl v b = Some b' \<Longrightarrow> P b \<Longrightarrow> P b'"
  shows "P a'"
  using assms
proof (induction fs args a rule: parse_flags.induct [case_names turn])
  case (turn fs args a)
  show ?case
  proof (cases "parse_one fs args a")
    case (FlagSet b args')
    with parse_one_FlagSet obtain s fl v where s: "s \<in> set args" "fs (flag_name s) = Some fl" "flag_set fl v a = Some b"
        and sub: "set args' \<subseteq> set args" by metis
    have "P b" by (rule turn.prems(3) [OF s turn.prems(2)])
    moreover have "parse_flags fs args' b = Inr (a', rest)"
      using turn.prems(1) FlagSet by (simp add: parse_flags.simps [of fs args])
    ultimately show ?thesis
      using turn.IH [OF FlagSet] turn.prems(3) sub by (meson subsetD)
  next
    case (FlagsEnd r)
    then show ?thesis using turn.prems(1,2) by (simp add: parse_flags.simps [of fs args])
  next
    case (FlagsFail e)
    then show ?thesis using turn.prems(1) by (simp add: parse_flags.simps [of fs args])
  qed
qed

text \<open>One flag in front of the other arguments, in its two forms.\<close>

definition plain_name :: "string \<Rightarrow> bool" where
  "plain_name n \<longleftrightarrow> n \<noteq> [] \<and> CHR ''='' \<notin> set n \<and> hd n \<noteq> CHR ''-''"

lemma split_flag_plain: "CHR ''='' \<notin> set n \<Longrightarrow> split_flag n = (n, None)"
proof -
  assume "CHR ''='' \<notin> set n"
  then have d: "dropWhile (\<lambda>c. c \<noteq> CHR ''='') n = []"
    by (induction n) auto
  show ?thesis
    unfolding split_flag_def d by simp
qed

lemma split_flag_value: "CHR ''='' \<notin> set n \<Longrightarrow> split_flag (n @ CHR ''='' # v) = (n, Some v)"
  by (simp add: split_flag_def dropWhile_append takeWhile_append)

lemma parse_flags_value:
  assumes "plain_name n" and "fs n = Some fl"
  shows "parse_flags fs ((CHR ''-'' # n @ CHR ''='' # v) # args) a =
    (case flag_set fl v a of None \<Rightarrow> Inl (InvalidFlagValue n v) | Some a' \<Rightarrow> parse_flags fs args a')"
proof -
  have "split_flag (n @ CHR ''='' # v) = (n, Some v)"
    using assms(1) by (simp add: plain_name_def split_flag_value)
  then have "parse_one fs ((CHR ''-'' # n @ CHR ''='' # v) # args) a = set_flag fl n v args a"
    using assms by (cases n) (auto simp: parse_one_def plain_name_def flag_body_def apply_flag_def)
  then show ?thesis
    by (simp add: parse_flags.simps [of fs "_ # _"] set_flag_def split: option.splits)
qed

lemma parse_flags_next:
  assumes "plain_name n" and "fs n = Some fl" and "\<not> flag_isBool fl"
  shows "parse_flags fs ((CHR ''-'' # n) # v # args) a =
    (case flag_set fl v a of None \<Rightarrow> Inl (InvalidFlagValue n v) | Some a' \<Rightarrow> parse_flags fs args a')"
proof -
  have "split_flag n = (n, None)"
    using assms(1) by (simp add: plain_name_def split_flag_plain)
  then have "parse_one fs ((CHR ''-'' # n) # v # args) a = set_flag fl n v args a"
    using assms by (cases n) (auto simp: parse_one_def plain_name_def flag_body_def apply_flag_def)
  then show ?thesis
    by (simp add: parse_flags.simps [of fs "_ # _"] set_flag_def split: option.splits)
qed

lemma parse_flags_rest:
  assumes "\<And>s. s \<in> set (take 1 args) \<Longrightarrow> length s < 2 \<or> hd s \<noteq> CHR ''-''"
  shows "parse_flags fs args a = Inr (a, args)"
proof (cases args)
  case (Cons s rest)
  then have "parse_one fs args a = FlagsEnd args"
    using assms [of s] by (cases s) (auto simp: parse_one_def)
  then show ?thesis by (simp add: parse_flags.simps [of fs args])
qed (simp add: parse_flags.simps parse_one_def)

end
