(* ===== verification/CommandConfig.thy ===== *)
theory CommandConfig
  imports GoFlag Agent
begin

text \<open>
  How the agent command finds its configuration: \<^verbatim>\<open>readConfig\<close> of
  \<^verbatim>\<open>command/agent/command.go\<close>. The command line is parsed by the model of Go's flag package; the
  file system, the decoder of configuration files, the host name, the look-up of network interfaces and
  the parser and printer of durations are an environment record. What the command shows the user
  is returned as a list of messages.
\<close>

section \<open>Messages to the user\<close>

datatype ui = UOutput string | UInfo string | UError string

definition quoted :: "string \<Rightarrow> string" where
  "quoted s = [CHR 0x27] @ s @ [CHR 0x27]"

section \<open>Environment and flags\<close>

record ('f, 'i) cmd_env =
  ce_open :: "string \<Rightarrow> 'f opened"
  ce_decode :: "'f \<Rightarrow> string + Config"
  ce_join :: "string \<Rightarrow> string \<Rightarrow> string"
  ce_hostname :: "string + string"
  ce_interface :: "string \<Rightarrow> string + 'i"
  ce_duration :: "string \<Rightarrow> string + duration"
  ce_show_duration :: "duration \<Rightarrow> string"
  ce_protocol_max :: int64
  ce_help :: string

definition minRetryInterval :: duration where
  "minRetryInterval = 1000000000"

text \<open>The variables of \<^verbatim>\<open>readConfig\<close> that flags are bound to, with the defaults the flag package
  stores in them.\<close>

record agent_flags =
  af_config :: Config
  af_configFiles :: "string list option"
  af_tags :: "string list option"
  af_retryInterval :: string

definition agent_flag_defaults :: agent_flags where
  "agent_flag_defaults =
     \<lparr>af_config = zero_Config\<lparr>cf_Protocol := - 1, cf_ServiceTTL := 60\<rparr>,
      af_configFiles = None, af_tags = None, af_retryInterval = ''''\<rparr>"

definition on_config :: "(Config \<Rightarrow> Config) \<Rightarrow> agent_flags \<Rightarrow> agent_flags" where
  "on_config f a = a\<lparr>af_config := f (af_config a)\<rparr>"

definition appended :: "string list \<Rightarrow> string \<Rightarrow> string list" where
  "appended xs v = (case AppendSlice_Set v (Some xs) of None \<Rightarrow> [] | Some ys \<Rightarrow> ys)"

definition agent_flagset :: "agent_flags flagset" where
  "agent_flagset =
     [''bind'' \<mapsto> StringVar (\<lambda>v. on_config (\<lambda>c. c\<lparr>cf_BindAddr := v\<rparr>)),
      ''advertise'' \<mapsto> StringVar (\<lambda>v. on_config (\<lambda>c. c\<lparr>cf_AdvertiseAddr := v\<rparr>)),
      ''config-file'' \<mapsto> StringVar (\<lambda>v a. a\<lparr>af_configFiles := AppendSlice_Set v (af_configFiles a)\<rparr>),
      ''config-dir'' \<mapsto> StringVar (\<lambda>v a. a\<lparr>af_configFiles := AppendSlice_Set v (af_configFiles a)\<rparr>),
      ''encrypt'' \<mapsto> StringVar (\<lambda>v. on_config (\<lambda>c. c\<lparr>cf_EncryptKey := v\<rparr>)),
      ''keyring-file'' \<mapsto> StringVar (\<lambda>v. on_config (\<lambda>c. c\<lparr>cf_KeyringFile := v\<rparr>)),
      ''event-handler'' \<mapsto> StringVar (\<lambda>v. on_config (\<lambda>c. c\<lparr>cf_EventHandlers := appended (cf_EventHandlers c) v\<rparr>)),
      ''join'' \<mapsto> StringVar (\<lambda>v. on_config (\<lambda>c. c\<lparr>cf_StartJoin := appended (cf_StartJoin c) v\<rparr>)),
      ''replay'' \<mapsto> BoolVar (\<lambda>v. on_config (\<lambda>c. c\<lparr>cf_ReplayOnJoin := v\<rparr>)),
      ''log-level'' \<mapsto> StringVar (\<lambda>v. on_config (\<lambda>c. c\<lparr>cf_LogLevel := v\<rparr>)),
      ''node'' \<mapsto> StringVar (\<lambda>v. on_config (\<lambda>c. c\<lparr>cf_NodeName := v\<rparr>)),
      ''protocol'' \<mapsto> IntVar (\<lambda>v. on_config (\<lambda>c. c\<lparr>cf_Protocol := v\<rparr>)),
      ''role'' \<mapsto> StringVar (\<lambda>v. on_config (\<lambda>c. c\<lparr>cf_Role := v\<rparr>)),
      ''rpc-addr'' \<mapsto> StringVar (\<lambda>v. on_config (\<lambda>c. c\<lparr>cf_RPCAddr := v\<rparr>)),
      ''rest-addr'' \<mapsto> StringVar (\<lambda>v. on_config (\<lambda>c. c\<lparr>cf_RestAddr := v\<rparr>)),
      ''service-ttl'' \<mapsto> IntVar (\<lambda>v. on_config (\<lambda>c. c\<lparr>cf_ServiceTTL := v\<rparr>)),
      ''profile'' \<mapsto> StringVar (\<lambda>v. on_config (\<lambda>c. c\<lparr>cf_Profile := v\<rparr>)),
      ''snapshot'' \<mapsto> StringVar (\<lambda>v. on_config (\<lambda>c. c\<lparr>cf_SnapshotPath := v\<rparr>)),
      ''tag'' \<mapsto> StringVar (\<lambda>v a. a\<lparr>af_tags := AppendSlice_Set v (af_tags a)\<rparr>),
      ''discover'' \<mapsto> StringVar (\<lambda>v. on_config (\<lambda>c. c\<lparr>cf_Discover := v\<rparr>)),
      ''iface'' \<mapsto> StringVar (\<lambda>v. on_config (\<lambda>c. c\<lparr>cf_Interface := v\<rparr>)),
      ''tags-file'' \<mapsto> StringVar (\<lambda>v. on_config (\<lambda>c. c\<lparr>cf_TagsFile := v\<rparr>)),
      ''syslog'' \<mapsto> BoolVar (\<lambda>v. on_config (\<lambda>c. c\<lparr>cf_EnableSyslog := v\<rparr>)),
      ''retry-join'' \<mapsto> StringVar (\<lambda>v. on_config (\<lambda>c. c\<lparr>cf_RetryJoin := appended (cf_RetryJoin c) v\<rparr>)),
      ''retry-max'' \<mapsto> IntVar (\<lambda>v. on_config (\<lambda>c. c\<lparr>cf_RetryMaxAttempts := v\<rparr>)),
      ''retry-interval'' \<mapsto> StringVar (\<lambda>v a. a\<lparr>af_retryInterval := v\<rparr>),
      ''rejoin'' \<mapsto> BoolVar (\<lambda>v. on_config (\<lambda>c. c\<lparr>cf_RejoinAfterLeave := v\<rparr>))]"

section \<open>Reading\<close>

definition slice :: "'a list option \<Rightarrow> 'a list" where
  "slice s = (case s of None \<Rightarrow> [] | Some xs \<Rightarrow> xs)"

text \<open>The command line: the configuration it spells out and the configuration files it names.\<close>

definition read_cmdline ::
  "('f, 'i) cmd_env \<Rightarrow> string list \<Rightarrow> ui list + Config \<times> string list" where
  "read_cmdline env args =
     (case parse_flags agent_flagset args agent_flag_defaults of
        Inl e \<Rightarrow> Inl [UOutput (ce_help env)]
      | Inr (fl, rest) \<Rightarrow>
          (case UnmarshalTags (slice (af_tags fl)) of
             Inl err \<Rightarrow> Inl [UError (''Error: '' @ err)]
           | Inr tagValues \<Rightarrow>
               (let cmdConfig = (af_config fl)\<lparr>cf_Tags := Some tagValues\<rparr> in
                if af_retryInterval fl \<noteq> '''' then
                  (case ce_duration env (af_retryInterval fl) of
                     Inl err \<Rightarrow> Inl [UError (''Error: '' @ err)]
                   | Inr dur \<Rightarrow> Inr (cmdConfig\<lparr>cf_RetryInterval := dur\<rparr>, slice (af_configFiles fl)))
                else Inr (cmdConfig, slice (af_configFiles fl)))))"

text \<open>Defaults, files and command line merged.\<close>

definition merged_config ::
  "('f, 'i) cmd_env \<Rightarrow> Config \<Rightarrow> string list \<Rightarrow> ui list + Config" where
  "merged_config env cmdConfig configFiles =
     (let config = DefaultConfig (ce_protocol_max env) in
      if configFiles \<noteq> [] then
        (case ReadConfigPaths (ce_open env) (ce_decode env) (ce_join env) configFiles of
           Inl err \<Rightarrow> Inl [UError err]
         | Inr fileConfig \<Rightarrow> Inr (MergeConfig (MergeConfig config fileConfig) cmdConfig))
      else Inr (MergeConfig config cmdConfig))"

definition find_invalid :: "EventScript list \<Rightarrow> EventScript option" where
  "find_invalid ss = List.find (\<lambda>s. \<not> EventFilter_Valid (es_EventFilter s)) ss"

text \<open>The checks that can refuse a configuration: a host name, valid scripts, a valid interface.\<close>

definition check_config :: "('f, 'i) cmd_env \<Rightarrow> Config \<Rightarrow> ui list + Config" where
  "check_config env config =
     (case (if cf_NodeName config = '''' then map_sum id (\<lambda>h. config\<lparr>cf_NodeName := h\<rparr>) (ce_hostname env)
            else Inr config) of
        Inl err \<Rightarrow> Inl [UError (''Error determining hostname: '' @ err)]
      | Inr config \<Rightarrow>
          (case find_invalid (EventScripts config) of
             Some script \<Rightarrow> Inl [UError (''Invalid event script: '' @ EventScript_String script)]
           | None \<Rightarrow>
               (case NetworkInterface (ce_interface env) config of
                  Inl err \<Rightarrow> Inl [UError (''Invalid network interface: '' @ err)]
                | Inr _ \<Rightarrow> Inr config)))"

text \<open>The repairs: the deprecated role becomes a tag (writing to a nil map would panic), and the retry
  interval is raised to its minimum.\<close>

definition role_tag :: "Config \<Rightarrow> (ui list \<times> Config) go" where
  "role_tag config =
     (if cf_Role config \<noteq> '''' then
        (case cf_Tags config of
           None \<Rightarrow> Panic
         | Some m \<Rightarrow>
             Ret ([UOutput (''Deprecation warning: '' @ quoted ''Role'' @ '' has been replaced with '' @ quoted ''Tags'')],
                  config\<lparr>cf_Tags := Some (m(''role'' \<mapsto> cf_Role config))\<rparr>))
      else Ret ([], config))"

definition raise_interval :: "('f, 'i) cmd_env \<Rightarrow> Config \<Rightarrow> ui list \<times> Config" where
  "raise_interval env config =
     (if sint (cf_RetryInterval config) < sint minRetryInterval then
        ([UOutput (''Warning: '' @ quoted ''RetryInterval'' @ '' is too low. Setting to '' @
            ce_show_duration env (cf_RetryInterval config))],
         config\<lparr>cf_RetryInterval := minRetryInterval\<rparr>)
      else ([], config))"

definition rejoin_warning :: "Config \<Rightarrow> ui list" where
  "rejoin_warning config =
     (if cf_RejoinAfterLeave config \<and> cf_SnapshotPath config = ''''
      then [UOutput (''Warning: '' @ quoted ''RejoinAfterLeave'' @ '' enabled without snapshot file'')] else [])"

definition readConfig :: "('f, 'i) cmd_env \<Rightarrow> string list \<Rightarrow> (ui list \<times> Config option) go" where
  "readConfig env args =
     (case read_cmdline env args of
        Inl msgs \<Rightarrow> Ret (msgs, None)
      | Inr (cmdConfig, configFiles) \<Rightarrow>
          (case merged_config env cmdConfig configFiles of
             Inl msgs \<Rightarrow> Ret (msgs, None)
           | Inr config \<Rightarrow>
               (case check_config env config of
                  Inl msgs \<Rightarrow> Ret (msgs, None)
                | Inr config1 \<Rightarrow>
                    go_bind (role_tag config1) (\<lambda>(m1, config2).
                      let (m2, config3) = raise_interval env config2
                      in Ret (m1 @ m2 @ rejoin_warning config3, Some config3)))))"

section \<open>What a configuration that was read satisfies\<close>

lemma cmdline_parts:
  assumes "read_cmdline env args = Inr (c, files)"
  obtains fl rest tags where "parse_flags agent_flagset args agent_flag_defaults = Inr (fl, rest)"
    "cf_Tags c = Some tags" "cf_ServiceTTL c = cf_ServiceTTL (af_config fl)" "cf_Role c = cf_Role (af_config fl)"
  using assms by (auto simp: read_cmdline_def Let_def split: sum.splits if_splits prod.splits)

lemma merged_parts:
  assumes "merged_config env cmd files = Inr c"
  obtains base where "c = MergeConfig base cmd"
  using assms by (auto simp: merged_config_def Let_def split: sum.splits if_splits)

lemma check_parts:
  assumes "check_config env config = Inr c"
  shows "\<exists>n. c = config\<lparr>cf_NodeName := n\<rparr> \<and> (n = '''' \<longrightarrow> ce_hostname env = Inr '''')"
    and "\<forall>s \<in> set (EventScripts c). EventFilter_Valid (es_EventFilter s)"
    and "\<exists>i. NetworkInterface (ce_interface env) c = Inr i"
proof -
  obtain c0 where c0: "(if cf_NodeName config = '''' then map_sum id (\<lambda>h. config\<lparr>cf_NodeName := h\<rparr>) (ce_hostname env)
      else Inr config) = Inr c0"
    using assms by (auto simp: check_config_def split: sum.splits)
  then have fin: "find_invalid (EventScripts c0) = None" and net: "\<exists>i. NetworkInterface (ce_interface env) c0 = Inr i"
      and eq: "c = c0"
    using assms by (auto simp: check_config_def split: sum.splits option.splits)
  have "c0 = config\<lparr>cf_NodeName := cf_NodeName c0\<rparr> \<and> (cf_NodeName c0 = '''' \<longrightarrow> ce_hostname env = Inr '''')"
    using c0 by (cases "ce_hostname env") (auto split: if_splits)
  then show "\<exists>n. c = config\<lparr>cf_NodeName := n\<rparr> \<and> (n = '''' \<longrightarrow> ce_hostname env = Inr '''')"
    unfolding eq by blast
  show "\<forall>s \<in> set (EventScripts c). EventFilter_Valid (es_EventFilter s)"
    using fin unfolding find_invalid_def find_None_iff eq by auto
  show "\<exists>i. NetworkInterface (ce_interface env) c = Inr i"
    using net unfolding eq .
qed

lemma NetworkInterface_cong:
  "cf_Interface a = cf_Interface b \<Longrightarrow> NetworkInterface f a = NetworkInterface f b"
  by (simp add: NetworkInterface_def)

lemma EventScripts_cong: "cf_EventHandlers a = cf_EventHandlers b \<Longrightarrow> EventScripts a = EventScripts b"
  by (simp add: EventScripts_def)

text \<open>Every way through \<^verbatim>\<open>readConfig\<close>.\<close>

lemma readConfig_cases:
  obtains (refused) msgs where "readConfig env args = Ret (msgs, None)" "msgs \<noteq> []"
  | (read) cmd files base c1 m1 c2 m2 c3 where
      "read_cmdline env args = Inr (cmd, files)" "check_config env (MergeConfig base cmd) = Inr c1"
      "cf_Tags c1 \<noteq> None"
      "role_tag c1 = Ret (m1, c2)" "raise_interval env c2 = (m2, c3)"
      "readConfig env args = Ret (m1 @ m2 @ rejoin_warning c3, Some c3)"
proof (cases "read_cmdline env args")
  case (Inl msgs)
  then show thesis
    using refused [of msgs]
    by (auto simp: readConfig_def read_cmdline_def Let_def split: sum.splits if_splits prod.splits)
next
  case (Inr p)
  obtain cmd files where p: "p = (cmd, files)" by (cases p)
  show thesis
  proof (cases "merged_config env cmd files")
    case (Inl msgs)
    then have "msgs \<noteq> []" by (auto simp: merged_config_def Let_def split: sum.splits if_splits)
    then show thesis using refused [of msgs] Inr p Inl by (simp add: readConfig_def)
  next
    case m: (Inr config)
    then obtain base where base: "config = MergeConfig base cmd" by (rule merged_parts)
    show thesis
    proof (cases "check_config env config")
      case (Inl msgs)
      then have "msgs \<noteq> []"
        by (auto simp: check_config_def split: sum.splits if_splits option.splits)
      then show thesis using refused [of msgs] Inr p m Inl by (simp add: readConfig_def)
    next
      case c: (Inr c1)
      obtain tags where "cf_Tags cmd = Some tags"
        using cmdline_parts Inr p by metis
      then have "cf_Tags config \<noteq> None"
        by (simp add: base MergeConfig_fields merge_tags_def split: option.splits)
      then have t: "cf_Tags c1 \<noteq> None"
        using check_parts(1) [OF c] by auto
      then obtain m1 c2 where r: "role_tag c1 = Ret (m1, c2)"
        by (cases "cf_Role c1 = ''''") (auto simp: role_tag_def)
      obtain m2 c3 where i: "raise_interval env c2 = (m2, c3)" by (cases "raise_interval env c2")
      show thesis
        using read [of cmd files base c1 m1 c2 m2 c3] Inr p m c r i t base by (simp add: readConfig_def)
    qed
  qed
qed

definition well_formed_config :: "('f, 'i) cmd_env \<Rightarrow> Config \<Rightarrow> bool" where
  "well_formed_config env c \<longleftrightarrow>
     (cf_NodeName c = '''' \<longrightarrow> ce_hostname env = Inr '''') \<and>
     (\<exists>tags. cf_Tags c = Some tags \<and> (cf_Role c \<noteq> '''' \<longrightarrow> tags ''role'' = Some (cf_Role c))) \<and>
     1000000000 \<le> sint (cf_RetryInterval c) \<and>
     (\<forall>s \<in> set (EventScripts c). EventFilter_Valid (es_EventFilter s)) \<and>
     (\<exists>i. NetworkInterface (ce_interface env) c = Inr i)"

text \<open>C28. Reading the configuration never panics. A configuration that is accepted is well formed: it has
  a node name (unless the host itself has none), a tag map that holds the deprecated role, a retry
  interval of at least one second as a signed number, only event scripts with a known event, and an interface that
  exists; one that is refused comes with a message.\<close>

theorem read_config_well_formed:
  "\<exists>msgs r. readConfig env args = Ret (msgs, r) \<and>
    (case r of None \<Rightarrow> msgs \<noteq> [] | Some c \<Rightarrow> well_formed_config env c)"
proof (cases rule: readConfig_cases [of env args])
  case (refused msgs)
  then show ?thesis by simp
next
  case (read cmd files base c1 m1 c2 m2 c3)
  note ch = check_parts [OF read(2)]
  have c2: "cf_NodeName c2 = cf_NodeName c1" "cf_EventHandlers c2 = cf_EventHandlers c1" "cf_Interface c2 = cf_Interface c1"
    and role: "\<exists>tags. cf_Tags c2 = Some tags \<and> (cf_Role c2 \<noteq> '''' \<longrightarrow> tags ''role'' = Some (cf_Role c2))"
    using read(3,4) by (auto simp: role_tag_def split: if_splits option.splits)
  have c3: "c3 = c2\<lparr>cf_RetryInterval := cf_RetryInterval c3\<rparr>" and d: "1000000000 \<le> sint (cf_RetryInterval c3)"
    using read(5) by (auto simp: raise_interval_def minRetryInterval_def split: if_splits)
  have f: "cf_NodeName c3 = cf_NodeName c2" "cf_EventHandlers c3 = cf_EventHandlers c2" "cf_Interface c3 = cf_Interface c2"
    "cf_Tags c3 = cf_Tags c2" "cf_Role c3 = cf_Role c2"
    by (subst c3, simp)+
  have "EventScripts c3 = EventScripts c1" "NetworkInterface (ce_interface env) c3 = NetworkInterface (ce_interface env) c1"
    using f c2 by (auto intro: EventScripts_cong NetworkInterface_cong)
  then have "well_formed_config env c3"
    using ch role d f c2 by (auto simp: well_formed_config_def)
  then show ?thesis using read(6) by simp
qed

text \<open>The command line decides the lease of applications by itself: when no argument names the flag
  service-ttl, the configuration that is accepted has the flag's default of 60 seconds, whatever the
  configuration files set.\<close>

lemma service_ttl_ignores_files:
  assumes "\<And>s. s \<in> set args \<Longrightarrow> flag_name s \<noteq> ''service-ttl''"
    and "readConfig env args = Ret (msgs, Some c)"
  shows "cf_ServiceTTL c = 60"
proof (cases rule: readConfig_cases [of env args])
  case (read cmd files base c1 m1 c2 m2 c3)
  obtain fl rest where fl: "parse_flags agent_flagset args agent_flag_defaults = Inr (fl, rest)"
      and ttl: "cf_ServiceTTL cmd = cf_ServiceTTL (af_config fl)"
    using cmdline_parts [OF read(1)] by metis
  have "cf_ServiceTTL (af_config fl) = 60"
  proof (rule parse_flags_keeps [OF fl, where P = "\<lambda>a. cf_ServiceTTL (af_config a) = 60"])
    show "cf_ServiceTTL (af_config agent_flag_defaults) = 60"
      by (simp add: agent_flag_defaults_def)
    fix s f v b b'
    assume "s \<in> set args" "agent_flagset (flag_name s) = Some f" "flag_set f v b = Some b'"
      "cf_ServiceTTL (af_config b) = 60"
    moreover from this(1) have "flag_name s \<noteq> ''service-ttl''" by (rule assms(1))
    ultimately show "cf_ServiceTTL (af_config b') = 60"
      by (auto simp: agent_flagset_def StringVar_def BoolVar_def IntVar_def on_config_def split: if_splits)
  qed
  then have "cf_ServiceTTL (MergeConfig base cmd) = 60"
    using ttl by (simp add: MergeConfig_fields)
  then have "cf_ServiceTTL c1 = 60"
    using check_parts(1) [OF read(2)] by auto
  then have "cf_ServiceTTL c3 = 60"
    using read(4,5) by (auto simp: role_tag_def raise_interval_def split: if_splits option.splits)
  then show ?thesis using read(6) assms(2) by simp
qed (use assms(2) in simp)

definition demo_cmd_env :: "(Config, nat) cmd_env" where
  "demo_cmd_env =
     \<lparr>ce_open = (\<lambda>p. OpenFile (zero_Config\<lparr>cf_ServiceTTL := 5, cf_LogLevel := ''DEBUG''\<rparr>)), ce_decode = Inr,
      ce_join = (\<lambda>p n. p @ ''/'' @ n), ce_hostname = Inr ''host'', ce_interface = (\<lambda>n. Inl ''no such interface''),
      ce_duration = (\<lambda>s. Inl ''invalid duration''), ce_show_duration = (\<lambda>d. show_int (sint d)),
      ce_protocol_max = 4, ce_help = ''usage''\<rparr>"

definition demo_args :: "string list" where
  "demo_args = [''-config-file=a.json'', ''-node=n1'']"

lemma demo_cmdline:
  "read_cmdline demo_cmd_env demo_args =
     Inr (zero_Config\<lparr>cf_Protocol := - 1, cf_ServiceTTL := 60, cf_NodeName := ''n1'', cf_Tags := Some Map.empty\<rparr>, [''a.json''])"
  by (simp add: read_cmdline_def demo_args_def parse_flags.simps parse_one_def flag_body_def split_flag_def
      apply_flag_def agent_flagset_def set_flag_def StringVar_def agent_flag_defaults_def on_config_def
      AppendSlice_Set_def slice_def UnmarshalTags_def Let_def)

lemma demo_merged:
  "merged_config demo_cmd_env cmd [''a.json''] =
     Inr (MergeConfig (MergeConfig (DefaultConfig 4)
       (MergeConfig zero_Config (zero_Config\<lparr>cf_ServiceTTL := 5, cf_LogLevel := ''DEBUG''\<rparr>))) cmd)"
  by (simp add: merged_config_def ReadConfigPaths_def demo_cmd_env_def)

lemma demo_read:
  "\<exists>msgs c. readConfig demo_cmd_env demo_args = Ret (msgs, Some c) \<and> cf_LogLevel c = ''DEBUG''"
  by (simp add: readConfig_def demo_cmdline demo_merged check_config_def find_invalid_def EventScripts_def
      NetworkInterface_def role_tag_def raise_interval_def minRetryInterval_def MergeConfig_fields
      zero_Config_def DefaultConfig_def)

end
