(* ===== verification/Command.thy ===== *)
theory Command
  imports CommandConfig IpcSession
begin

text \<open>
  The agent command after its configuration is read (\<^verbatim>\<open>command/agent/command.go\<close>): choosing the
  addresses and building serf's configuration (\<^verbatim>\<open>setupAgent\<close>), the loggers, starting the agent with
  its IPC server and discovery daemon, joining at start-up with or without retries, and waiting for
  signals, among them the reload. What the operating system, the network and serf answer is an environment
  record. An operation that may not return (\<open>AddrParts\<close>) yields \<open>None\<close> then.
\<close>

section \<open>Environment\<close>

text \<open>The text of an interface's address and whether it is link-local.\<close>

datatype if_addr = IPNet string bool | IPAddr string bool | OtherAddr

datatype profile = ProfileLAN | ProfileWAN | ProfileLocal

text \<open>The fields of serf's configuration and of its memberlist configuration that are set; an option is
  \<open>None\<close> where the library's default stays.\<close>

record serf_setup = serf_config +
  su_profile :: profile
  su_BindAddr :: string
  su_BindPort :: int
  su_AdvertiseAddr :: string
  su_AdvertisePort :: int
  su_SecretKey :: string
  su_NodeName :: string
  su_SnapshotPath :: string
  su_ProtocolVersion :: byte
  su_CoalescePeriod :: duration
  su_QuiescentPeriod :: duration
  su_UserCoalescePeriod :: duration
  su_UserQuiescentPeriod :: duration
  su_ReconnectInterval :: "duration option"
  su_ReconnectTimeout :: "duration option"
  su_TombstoneTimeout :: "duration option"
  su_EnableNameConflictResolution :: bool
  su_KeyringFile :: "string option"
  su_RejoinAfterLeave :: bool

record 'i sys_env =
  se_windows :: bool
  se_interface :: "string \<Rightarrow> string + 'i"
  se_addrs :: "'i \<Rightarrow> string + if_addr list"
  se_resolve :: "string \<Rightarrow> addr_error + string \<times> int"
  se_addr_error :: "addr_error \<Rightarrow> string"
  se_tcp_string :: "string \<Rightarrow> int \<Rightarrow> string"
  se_json :: json
  se_keyring :: "string list \<Rightarrow> string \<Rightarrow> string + string list"
  se_files :: files
  se_syslog :: "string \<Rightarrow> string option"
  se_create :: "string option"
  se_local :: Member
  se_mdns :: "string option"
  se_listen :: "string \<Rightarrow> string option"
  se_encrypted :: bool
  se_join :: "string list \<Rightarrow> bool \<Rightarrow> int \<times> string option"
  se_statsite :: "string \<Rightarrow> string option"
  se_statsd :: "string \<Rightarrow> string option"

section \<open>Choosing the bind address\<close>

fun pick_address :: "bool \<Rightarrow> if_addr list \<Rightarrow> string option" where
  "pick_address windows [] = None"
| "pick_address windows (a # as) =
     (case (if windows then (case a of IPAddr ip ll \<Rightarrow> Some (ip, ll) | _ \<Rightarrow> None)
            else (case a of IPNet ip ll \<Rightarrow> Some (ip, ll) | _ \<Rightarrow> None)) of
        None \<Rightarrow> pick_address windows as
      | Some (ip, linkLocal) \<Rightarrow> if linkLocal then pick_address windows as else Some ip)"

definition has_address :: "string \<Rightarrow> if_addr list \<Rightarrow> bool" where
  "has_address ip addrs = list_ex (\<lambda>a. case a of IPNet s ll \<Rightarrow> s = ip | _ \<Rightarrow> False) addrs"

text \<open>With an interface configured the bind IP is one of its addresses: picked when the address is
  the wildcard (the configuration is updated then), checked otherwise.\<close>

definition bind_to_interface ::
  "'i sys_env \<Rightarrow> Config \<Rightarrow> string \<Rightarrow> int \<Rightarrow> ui list \<times> (string \<times> Config) option" where
  "bind_to_interface env config bindIP bindPort =
     (case NetworkInterface (se_interface env) config of
        Inl _ \<Rightarrow> ([], Some (bindIP, config))
      | Inr None \<Rightarrow> ([], Some (bindIP, config))
      | Inr (Some iface) \<Rightarrow>
          (case se_addrs env iface of
             Inl err \<Rightarrow> ([UError (''Failed to get interface addresses: '' @ err)], None)
           | Inr addrs \<Rightarrow>
               if addrs = [] then ([UError (''Interface '' @ quoted (cf_Interface config) @ '' has no addresses'')], None)
               else if bindIP = ''0.0.0.0'' then
                 (case pick_address (se_windows env) addrs of
                    Some ip \<Rightarrow>
                      ([UOutput (''Using interface '' @ quoted (cf_Interface config) @ '' address '' @ quoted ip)],
                       Some (ip, config\<lparr>cf_BindAddr := se_tcp_string env ip bindPort\<rparr>))
                  | None \<Rightarrow>
                      ([UError (''Failed to find usable address for interface '' @ quoted (cf_Interface config))], None))
               else if has_address bindIP addrs then ([], Some (bindIP, config))
               else ([UError (''Interface '' @ quoted (cf_Interface config) @ '' has no '' @ quoted bindIP @ '' address'')], None)))"

section \<open>Setting the agent up\<close>

definition profile_of :: "string \<Rightarrow> profile option" where
  "profile_of p =
     (if p = ''lan'' then Some ProfileLAN
      else if p = ''wan'' then Some ProfileWAN
      else if p = ''local'' then Some ProfileLocal
      else None)"

definition nonzero :: "duration \<Rightarrow> duration option" where
  "nonzero d = (if d \<noteq> 0 then Some d else None)"

definition serf_setup_of :: "profile \<Rightarrow> string \<Rightarrow> int \<Rightarrow> string \<Rightarrow> int \<Rightarrow> string \<Rightarrow> Config \<Rightarrow> serf_setup" where
  "serf_setup_of p bindIP bindPort advertiseIP advertisePort encryptKey config =
     \<lparr>sc_Tags = cf_Tags config, sc_Keyring = None,
      su_profile = p,
      su_BindAddr = bindIP,
      su_BindPort = bindPort,
      su_AdvertiseAddr = advertiseIP,
      su_AdvertisePort = advertisePort,
      su_SecretKey = encryptKey,
      su_NodeName = cf_NodeName config,
      su_SnapshotPath = cf_SnapshotPath config,
      su_ProtocolVersion = ucast (cf_Protocol config),
      su_CoalescePeriod = 3000000000,
      su_QuiescentPeriod = 1000000000,
      su_UserCoalescePeriod = 3000000000,
      su_UserQuiescentPeriod = 1000000000,
      su_ReconnectInterval = nonzero (cf_ReconnectInterval config),
      su_ReconnectTimeout = nonzero (cf_ReconnectTimeout config),
      su_TombstoneTimeout = nonzero (cf_TombstoneTimeout config),
      su_EnableNameConflictResolution = (\<not> cf_DisableNameResolution config),
      su_KeyringFile = (if cf_KeyringFile config \<noteq> '''' then Some (cf_KeyringFile config) else None),
      su_RejoinAfterLeave = cf_RejoinAfterLeave config\<rparr>"

text \<open>Everything after the bind address: the result is the messages and the agent with serf's
  configuration.\<close>

definition build_agent ::
  "'i sys_env \<Rightarrow> Config \<Rightarrow> string \<Rightarrow> int \<Rightarrow> string \<times> int \<Rightarrow> ui list \<times> (serf_setup \<times> nat agent) option" where
  "build_agent env config bindIP bindPort adv =
     (case EncryptBytes config of
        None \<Rightarrow> ([UError ''Invalid encryption key: illegal base64 data''], None)
      | Some encryptKey \<Rightarrow>
          (case profile_of (cf_Profile config) of
             None \<Rightarrow> ([UError (''Unknown profile: '' @ cf_Profile config)], None)
           | Some p \<Rightarrow>
               (let setup = serf_setup_of p bindIP bindPort (fst adv) (snd adv) encryptKey config in
                case Agent_Create (se_json env) (se_keyring env) (se_files env) config (serf_config.truncate setup) of
                  Inl err \<Rightarrow> ([UOutput ''Starting Serf agent...'', UError (''Failed to start the Serf agent: '' @ err)], None)
                | Inr agent \<Rightarrow> ([UOutput ''Starting Serf agent...''], Some (setup, agent)))))"

definition prepend :: "ui list \<Rightarrow> ui list \<times> 'a \<Rightarrow> ui list \<times> 'a" where
  "prepend ms r = (ms @ fst r, snd r)"

text \<open>\<open>None\<close> when \<^verbatim>\<open>AddrParts\<close> does not return; the configuration returned carries the new bind
  address.\<close>

definition setupAgent ::
  "'i sys_env \<Rightarrow> Config \<Rightarrow> (ui list \<times> (Config \<times> serf_setup \<times> nat agent) option) option" where
  "setupAgent env config =
     Option.bind (AddrParts (se_resolve env) (cf_BindAddr config)) (\<lambda>r. case r of
       Inl err \<Rightarrow> Some ([UError (''Invalid bind address: '' @ se_addr_error env err)], None)
     | Inr (bindIP0, bindPort) \<Rightarrow>
         (case bind_to_interface env config bindIP0 bindPort of
            (msgs, None) \<Rightarrow> Some (msgs, None)
          | (msgs, Some (bindIP, config')) \<Rightarrow>
              Option.bind
                (if cf_AdvertiseAddr config' \<noteq> '''' then AddrParts (se_resolve env) (cf_AdvertiseAddr config')
                 else Some (Inr ('''', 0)))
                (\<lambda>a. case a of
                   Inl err \<Rightarrow> Some (msgs @ [UError (''Invalid advertise address: '' @ se_addr_error env err)], None)
                 | Inr adv \<Rightarrow>
                     Some (prepend msgs
                       (case build_agent env config' bindIP bindPort adv of
                          (ms, None) \<Rightarrow> (ms, None)
                        | (ms, Some (setup, agent)) \<Rightarrow> (ms, Some (config', setup, agent)))))))"

section \<open>Loggers\<close>

definition level_error :: "string \<Rightarrow> level_filter \<Rightarrow> ui" where
  "level_error level f =
     UError (''Invalid log level: '' @ level @ ''. Valid log levels are: ['' @ Join (lf_Levels f) '' '' @ '']'')"

text \<open>The gated writer, the ring of recent lines and whether log lines also go to syslog; the filter is
  kept in any case.\<close>

definition setupLoggers ::
  "'i sys_env \<Rightarrow> Config \<Rightarrow> ui list \<times> level_filter \<times> (gated \<times> nat log_writer \<times> bool) option" where
  "setupLoggers env config =
     (let logGate = \<lparr>gw_buf = [], gw_flush = False, gw_out = []\<rparr>;
          logFilter = LevelFilter\<lparr>lf_MinLevel := ToUpper (cf_LogLevel config)\<rparr>
      in if \<not> ValidateLevelFilter (lf_MinLevel logFilter) logFilter
         then ([level_error (lf_MinLevel logFilter) logFilter], logFilter, None)
         else if cf_EnableSyslog config then
           (case se_syslog env (cf_SyslogFacility config) of
              Some err \<Rightarrow> ([UError (''Syslog setup failed: '' @ err)], logFilter, None)
            | None \<Rightarrow> ([], logFilter, Some (logGate, NewLogWriter 512, True)))
         else ([], logFilter, Some (logGate, NewLogWriter 512, False)))"

section \<open>Starting\<close>

text \<open>The command's own two handlers among the identities of the agent's handlers.\<close>

definition scriptHandler_id :: nat where "scriptHandler_id = 0"
definition discoverdHandler_id :: nat where "discoverdHandler_id = 1"

text \<open>What the command owns once the agent runs: the script handler, and the configuration the discovery
  handler answers queries from.\<close>

record started =
  st_scripts :: script_handler
  st_discoverdConfig :: Config
  st_ipc :: ipc

definition show_bool :: "bool \<Rightarrow> string" where
  "show_bool b = (if b then ''true'' else ''false'')"

text \<open>The lines that describe the running agent; an advertise address that does not parse prints as the
  zero address.\<close>

definition running_info :: "'i sys_env \<Rightarrow> Config \<Rightarrow> string \<Rightarrow> (string \<times> int) option \<Rightarrow> ui list" where
  "running_info env config bindAddr advertise =
     [UOutput ''Serf agent running!'',
      UInfo (''     Node name: '' @ quoted (cf_NodeName config)),
      UInfo (''     Bind addr: '' @ quoted bindAddr)] @
     (case advertise of
        None \<Rightarrow> []
      | Some (ip, port) \<Rightarrow> [UInfo (''Advertise addr: '' @ quoted (se_tcp_string env ip port))]) @
     [UInfo (''      RPC addr: '' @ quoted (cf_RPCAddr config)),
      UInfo (''     Rest addr: '' @ quoted (cf_RestAddr config)),
      UInfo (''     Encrypted: '' @ show_bool (se_encrypted env)),
      UInfo (''      Snapshot: '' @ show_bool (cf_SnapshotPath config \<noteq> '''')),
      UInfo (''       Profile: '' @ cf_Profile config)] @
     (if cf_Discover config \<noteq> '''' then [UInfo (''  mDNS cluster: '' @ cf_Discover config)] else [])"

definition parts_or_zero :: "addr_error + string \<times> int \<Rightarrow> string \<times> int" where
  "parts_or_zero r = (case r of Inl _ \<Rightarrow> ('''', 0) | Inr p \<Rightarrow> p)"

text \<open>The IPC server and the discovery daemon over a started agent; the discovery handler is registered
  last. \<open>order\<close> is how the agent lists its handlers.\<close>

definition start_services ::
  "(nat set \<Rightarrow> nat list) \<Rightarrow> 'i sys_env \<Rightarrow> Config \<Rightarrow> nat agent \<Rightarrow> nat log_writer \<Rightarrow> ipc" where
  "start_services order env config agent logWriter =
     (let ipc = NewAgentIPC agent (se_files env) (cf_RPCAuthKey config) logWriter;
          ipc1 = SetDiscoverd (Discoverd_Create (cf_ServiceTTL config) (se_local env)) ipc
      in ipc1\<lparr>ip_agent := Agent_RegisterEventHandler order discoverdHandler_id (ip_agent ipc1)\<rparr>)"

text \<open>The agent is returned in every case, as its caller still shuts it down.\<close>

definition startAgent ::
  "(nat set \<Rightarrow> nat list) \<Rightarrow> 'i sys_env \<Rightarrow> Config \<Rightarrow> nat agent \<Rightarrow> nat log_writer \<Rightarrow>
   (ui list \<times> nat agent \<times> started option) option" where
  "startAgent order env config agent logWriter =
     (let scriptHandler = \<lparr>sh_Scripts = EventScripts config, sh_newScripts = None\<rparr>;
          agent1 = Agent_RegisterEventHandler order scriptHandler_id agent
      in case Agent_Start (se_create env) agent1 of
           (Some err, agent2) \<Rightarrow> Some ([UError (''Failed to start the Serf agent: '' @ err)], agent2, None)
         | (None, agent2) \<Rightarrow>
             Option.bind (AddrParts (se_resolve env) (cf_BindAddr config)) (\<lambda>b.
               let (bindIP, bindPort) = parts_or_zero b; bindAddr = se_tcp_string env bindIP bindPort in
               if cf_Discover config \<noteq> '''' \<and> se_mdns env \<noteq> None then
                 Some ([UError (''Error starting mDNS listener: '' @ the (se_mdns env))], agent2, None)
               else
                 (case se_listen env (cf_RPCAddr config) of
                    Some err \<Rightarrow> Some ([UError (''Error starting RPC listener: '' @ err)], agent2, None)
                  | None \<Rightarrow>
                      (let ipc = start_services order env config agent2 logWriter;
                           msgs = [UOutput ''Starting Serf agent RPC...'', UOutput ''Starting Serf agent Discoverd...'']
                       in Option.bind
                            (if cf_AdvertiseAddr config \<noteq> '''' then
                               map_option (\<lambda>r. Some (parts_or_zero r)) (AddrParts (se_resolve env) (cf_AdvertiseAddr config))
                             else Some None)
                            (\<lambda>advertise.
                               Some (msgs @ running_info env config bindAddr advertise, ip_agent ipc,
                                     Some \<lparr>st_scripts = scriptHandler, st_discoverdConfig = config, st_ipc = ipc\<rparr>))))))"

section \<open>Joining\<close>

definition startupJoin :: "'i sys_env \<Rightarrow> Config \<Rightarrow> ui list \<times> string option" where
  "startupJoin env config =
     (if cf_StartJoin config = [] then ([], None)
      else
        (let msg = UOutput (''Joining cluster...(replay: '' @ show_bool (cf_ReplayOnJoin config) @ '')'');
             (n, err) = Agent_Join (se_join env) (cf_StartJoin config) (cf_ReplayOnJoin config)
         in case err of
              Some e \<Rightarrow> ([msg], Some e)
            | None \<Rightarrow> ([msg, UInfo (''Join completed. Synced with '' @ show_int n @ '' initial agents'')], None)))"

text \<open>The loop of \<^verbatim>\<open>retryJoin\<close>: the n-th attempt is answered by \<open>joins n\<close>. It may go on for ever;
  the result is the attempts' lines in the log and whether the error channel was closed.\<close>

partial_function (option) retry_loop ::
  "Config \<Rightarrow> (duration \<Rightarrow> string) \<Rightarrow> (nat \<Rightarrow> string list \<Rightarrow> bool \<Rightarrow> int \<times> string option) \<Rightarrow> nat \<Rightarrow> (string list \<times> bool) option" where
  "retry_loop config show_duration joins attempt =
     (case Agent_Join (joins attempt) (cf_RetryJoin config) (cf_ReplayOnJoin config) of
        (n, None) \<Rightarrow>
          Some ([''[INFO] agent: Joining cluster...(replay: '' @ show_bool (cf_ReplayOnJoin config) @ '')'',
                 ''[INFO] agent: Join completed. Synced with '' @ show_int n @ '' initial agents''], False)
      | (n, Some err) \<Rightarrow>
          (if 0 < sint (cf_RetryMaxAttempts config) \<and> sint (cf_RetryMaxAttempts config) < int (attempt + 1) then
             Some ([''[INFO] agent: Joining cluster...(replay: '' @ show_bool (cf_ReplayOnJoin config) @ '')'',
                    ''[ERR] agent: maximum retry join attempts made, exiting''], True)
           else
             Option.bind (retry_loop config show_duration joins (attempt + 1)) (\<lambda>(logs, closed).
               Some ([''[INFO] agent: Joining cluster...(replay: '' @ show_bool (cf_ReplayOnJoin config) @ '')'',
                      ''[WARN] agent: Join failed: '' @ err @ '', retrying in '' @ show_duration (cf_RetryInterval config)] @ logs,
                     closed))))"

definition retryJoin ::
  "Config \<Rightarrow> (duration \<Rightarrow> string) \<Rightarrow> (nat \<Rightarrow> string list \<Rightarrow> bool \<Rightarrow> int \<times> string option) \<Rightarrow> (string list \<times> bool) option" where
  "retryJoin config show_duration joins =
     (if cf_RetryJoin config = [] then Some ([], False) else retry_loop config show_duration joins 0)"

section \<open>Reloading\<close>

text \<open>The state a reload works on; \<open>cs_tags\<close> are the tags serf has.\<close>

record cmd_state =
  cs_config :: Config
  cs_filter :: level_filter
  cs_scripts :: script_handler
  cs_agent :: "nat agent"
  cs_files :: files
  cs_tags :: "string \<rightharpoonup> string"

text \<open>A level that is not valid is not set and the old text is kept in the new configuration.\<close>

definition reload_level :: "Config \<Rightarrow> cmd_state \<Rightarrow> ui list \<times> Config \<times> level_filter" where
  "reload_level newConf st =
     (let minLevel = ToUpper (cf_LogLevel newConf) in
      if ValidateLevelFilter minLevel (cs_filter st) then ([], newConf, (cs_filter st)\<lparr>lf_MinLevel := minLevel\<rparr>)
      else ([level_error minLevel (cs_filter st)], newConf\<lparr>cf_LogLevel := cf_LogLevel (cs_config st)\<rparr>, cs_filter st))"

definition tags_of :: "Config \<Rightarrow> (string \<rightharpoonup> string)" where
  "tags_of c = (case cf_Tags c of None \<Rightarrow> Map.empty | Some m \<Rightarrow> m)"

definition handleReload ::
  "json \<Rightarrow> ((string \<rightharpoonup> string) \<Rightarrow> string option) \<Rightarrow> ('f, 'i) cmd_env \<Rightarrow> string list \<Rightarrow> cmd_state \<Rightarrow> (ui list \<times> cmd_state) go" where
  "handleReload js serf_SetTags env args st =
     go_bind (readConfig env args) (\<lambda>(msgs, r).
       case r of
         None \<Rightarrow> Ret (UOutput ''Reloading configuration...'' # msgs @ [UError ''Failed to reload configs''], st)
       | Some newConf \<Rightarrow>
           (let (ms, newConf1, filt) = reload_level newConf st;
                scripts = sh_UpdateScripts (Some (EventScripts newConf1)) (cs_scripts st);
                (err, fl, called) = Agent_SetTags js serf_SetTags (tags_of newConf1) (cs_agent st) (cs_files st)
            in Ret (UOutput ''Reloading configuration...'' # msgs @ ms @
                      (case err of None \<Rightarrow> [] | Some e \<Rightarrow> [UError (''Failed to update tags: '' @ e)]),
                    st\<lparr>cs_config := newConf1, cs_filter := filt, cs_scripts := scripts, cs_files := fl,
                       cs_tags := (if called \<and> err = None then tags_of newConf1 else cs_tags st)\<rparr>)))"

section \<open>Signals\<close>

text \<open>What wakes the command up, in the order its select takes them; a hang-up signal finds the world
  (files, host) in the state of its environment.\<close>

datatype ('f, 'i) wake =
    WInterrupt
  | WTerm
  | WHup "('f, 'i) cmd_env"
  | WShutdownCh
  | WDiscoverdDown
  | WRetryFailed
  | WAgentDown

datatype leave_wake = LSignal | LTimeout | LLeft "string option"

text \<open>Waiting for a graceful leave: \<open>LLeft\<close> is the end of the leaving goroutine with serf's error. No
  exit code means that the command still waits.\<close>

fun await_leave :: "nat agent \<Rightarrow> leave_wake list \<Rightarrow> ui list \<times> int option" where
  "await_leave a [] = ([], None)"
| "await_leave a (LSignal # ls) = ([], Some 1)"
| "await_leave a (LTimeout # ls) = ([], Some 1)"
| "await_leave a (LLeft e # ls) =
     (case Agent_Leave e a of
        None \<Rightarrow> ([], Some 0)
      | Some err \<Rightarrow> prepend [UError (''Error: '' @ err)] (await_leave a ls))"

definition exit_on :: "string \<Rightarrow> bool \<Rightarrow> nat agent \<Rightarrow> leave_wake list \<Rightarrow> ui list \<times> int option" where
  "exit_on sig graceful a ls =
     prepend [UOutput (''Caught signal: '' @ sig)]
       (if \<not> graceful then ([], Some 1)
        else prepend [UOutput ''Gracefully shutting down agent...''] (await_leave a ls))"

fun handleSignals ::
  "json \<Rightarrow> ((string \<rightharpoonup> string) \<Rightarrow> string option) \<Rightarrow> string list \<Rightarrow> ('f, 'i) wake list \<Rightarrow> leave_wake list \<Rightarrow>
   cmd_state \<Rightarrow> ((ui list \<times> int option) \<times> cmd_state) go" where
  "handleSignals js setTags args [] ls st = Ret (([], None), st)"
| "handleSignals js setTags args (WDiscoverdDown # ws) ls st = Ret (([], Some 1), st)"
| "handleSignals js setTags args (WRetryFailed # ws) ls st = Ret (([], Some 1), st)"
| "handleSignals js setTags args (WAgentDown # ws) ls st = Ret (([], Some 0), st)"
| "handleSignals js setTags args (WInterrupt # ws) ls st =
     Ret (exit_on ''interrupt'' (\<not> cf_SkipLeaveOnInt (cs_config st)) (cs_agent st) ls, st)"
| "handleSignals js setTags args (WShutdownCh # ws) ls st =
     Ret (exit_on ''interrupt'' (\<not> cf_SkipLeaveOnInt (cs_config st)) (cs_agent st) ls, st)"
| "handleSignals js setTags args (WTerm # ws) ls st =
     Ret (exit_on ''terminated'' (cf_LeaveOnTerm (cs_config st)) (cs_agent st) ls, st)"
| "handleSignals js setTags args (WHup env # ws) ls st =
     go_bind (handleReload js setTags env args st) (\<lambda>(msgs, st1).
     go_bind (handleSignals js setTags args ws ls st1) (\<lambda>(r, st2).
       Ret (prepend (UOutput ''Caught signal: hangup'' # msgs) r, st2)))"

section \<open>The whole command\<close>

text \<open>How a run ends: the exit code (\<open>None\<close> while the command still waits), whether the log gate was
  opened, the clients and REST server closed by the deferred shutdown of the IPC server, and the agent
  after its own.\<close>

record run_end =
  re_code :: "int option"
  re_flushed :: bool
  re_ipc :: "(string set \<times> bool) option"
  re_agent :: "nat agent option"

definition ended :: "int \<Rightarrow> run_end" where
  "ended code = \<lparr>re_code = Some code, re_flushed = False, re_ipc = None, re_agent = None\<rparr>"

definition metric_sinks :: "'i sys_env \<Rightarrow> Config \<Rightarrow> ui list" where
  "metric_sinks env config =
     (if cf_StatsiteAddr config \<noteq> '''' \<and> se_statsite env (cf_StatsiteAddr config) \<noteq> None
      then [UError (''Failed to start statsite sink. Got: '' @ the (se_statsite env (cf_StatsiteAddr config)))]
      else if cf_StatsdAddr config \<noteq> '''' \<and> se_statsd env (cf_StatsdAddr config) \<noteq> None
      then [UError (''Failed to start statsd sink. Got: '' @ the (se_statsd env (cf_StatsdAddr config)))]
      else [])"

text \<open>The deferred calls: the IPC server first, if it was started, then the agent. They run when the
  command returns.\<close>

definition run_deferred :: "string option \<Rightarrow> int option \<Rightarrow> bool \<Rightarrow> ipc option \<Rightarrow> nat agent \<Rightarrow> run_end go" where
  "run_deferred shutdown_error code flushed ipc agent =
     (case code of
        None \<Rightarrow> Ret \<lparr>re_code = None, re_flushed = flushed, re_ipc = None, re_agent = Some agent\<rparr>
      | Some _ \<Rightarrow>
          go_bind (Agent_Shutdown shutdown_error agent) (\<lambda>(err, agent').
            Ret \<lparr>re_code = code, re_flushed = flushed, re_ipc = map_option (\<lambda>i. fst (AgentIPC_Shutdown i)) ipc,
                 re_agent = Some agent'\<rparr>))"

definition serf_tags :: "nat agent \<Rightarrow> (string \<rightharpoonup> string)" where
  "serf_tags a = (case sc_Tags (ag_conf a) of None \<Rightarrow> Map.empty | Some m \<Rightarrow> m)"

text \<open>From the started agent to the end; the agent of the IPC server is the running one.\<close>

definition run_started ::
  "'i sys_env \<Rightarrow> ((string \<rightharpoonup> string) \<Rightarrow> string option) \<Rightarrow> string option \<Rightarrow> string list \<Rightarrow> Config \<Rightarrow> level_filter \<Rightarrow>
   started \<Rightarrow> ('f, 'i) wake list \<Rightarrow> leave_wake list \<Rightarrow> (ui list \<times> run_end) go" where
  "run_started env setTags shutdown_error args config filt st wakes leaves =
     (case startupJoin env config of
        (msgs, Some err) \<Rightarrow>
          go_bind (run_deferred shutdown_error (Some 1) False (Some (st_ipc st)) (ip_agent (st_ipc st)))
            (\<lambda>r. Ret (msgs @ [UError err], r))
      | (msgs, None) \<Rightarrow>
          go_bind (handleSignals (se_json env) setTags args wakes leaves
              \<lparr>cs_config = config, cs_filter = filt, cs_scripts = st_scripts st, cs_agent = ip_agent (st_ipc st),
               cs_files = se_files env, cs_tags = serf_tags (ip_agent (st_ipc st))\<rparr>) (\<lambda>((ms, code), cs).
            go_bind (run_deferred shutdown_error code True (Some (st_ipc st)) (cs_agent cs))
              (\<lambda>r. Ret (msgs @ [UInfo '''', UOutput (''Log data will now stream in as it occurs:'' @ [CHR 0x0A])] @ ms, r))))"

definition run_configured ::
  "'i sys_env \<Rightarrow> (nat set \<Rightarrow> nat list) \<Rightarrow> ((string \<rightharpoonup> string) \<Rightarrow> string option) \<Rightarrow> string option \<Rightarrow> string list \<Rightarrow>
   Config \<Rightarrow> ('f, 'i) wake list \<Rightarrow> leave_wake list \<Rightarrow> (ui list \<times> run_end) go option" where
  "run_configured env order setTags shutdown_error args config wakes leaves =
     (case setupLoggers env config of
        (ms1, filt, None) \<Rightarrow> Some (Ret (ms1, ended 1))
      | (ms1, filt, Some (logGate, logWriter, syslog)) \<Rightarrow>
          if metric_sinks env config \<noteq> [] then Some (Ret (ms1 @ metric_sinks env config, ended 1))
          else
            Option.bind (setupAgent env config) (\<lambda>s. case s of
                (ms2, None) \<Rightarrow> Some (Ret (ms1 @ ms2, ended 1))
              | (ms2, Some (config', setup, agent)) \<Rightarrow>
                  Option.bind (startAgent order env config' agent logWriter) (\<lambda>b. case b of
                      (ms3, agent', None) \<Rightarrow>
                        Some (go_bind (run_deferred shutdown_error (Some 1) False None agent')
                               (\<lambda>r. Ret (ms1 @ ms2 @ ms3, r)))
                    | (ms3, agent', Some st) \<Rightarrow>
                        Some (go_bind (run_started env setTags shutdown_error args config' filt st wakes leaves)
                               (\<lambda>r. Ret (prepend (ms1 @ ms2 @ ms3) r))))))"

text \<open>\<^verbatim>\<open>Run\<close>; \<open>None\<close> when it does not get to its wait because an address is not parsed.\<close>

definition Command_Run ::
  "'i sys_env \<Rightarrow> ('f, 'i) cmd_env \<Rightarrow> (nat set \<Rightarrow> nat list) \<Rightarrow> ((string \<rightharpoonup> string) \<Rightarrow> string option) \<Rightarrow> string option \<Rightarrow>
   string list \<Rightarrow> ('f, 'i) wake list \<Rightarrow> leave_wake list \<Rightarrow> (ui list \<times> run_end) go option" where
  "Command_Run env cenv order setTags shutdown_error args wakes leaves =
     (case readConfig cenv args of
        Panic \<Rightarrow> Some Panic
      | Ret (ms, None) \<Rightarrow> Some (Ret (ms, ended 1))
      | Ret (ms, Some config) \<Rightarrow>
          map_option (\<lambda>r. go_bind r (\<lambda>out. Ret (prepend ms out)))
            (run_configured env order setTags shutdown_error args config wakes leaves))"

section \<open>Joining with retries ends when it should\<close>

definition join_fails :: "Config \<Rightarrow> (nat \<Rightarrow> string list \<Rightarrow> bool \<Rightarrow> int \<times> string option) \<Rightarrow> nat \<Rightarrow> bool" where
  "join_fails config joins j \<longleftrightarrow> snd (joins j (cf_RetryJoin config) (\<not> cf_ReplayOnJoin config)) \<noteq> None"

definition gives_up :: "Config \<Rightarrow> nat \<Rightarrow> bool" where
  "gives_up config attempt \<longleftrightarrow>
     0 < sint (cf_RetryMaxAttempts config) \<and> sint (cf_RetryMaxAttempts config) < int (attempt + 1)"

lemma retry_success:
  "\<not> join_fails config joins a \<Longrightarrow> \<exists>logs. retry_loop config sd joins a = Some (logs, False) \<and> length logs = 2"
  by (auto simp: retry_loop.simps [of _ _ _ a] join_fails_def Agent_Join_def split: prod.splits)

lemma retry_give_up:
  "join_fails config joins a \<Longrightarrow> gives_up config a \<Longrightarrow>
   \<exists>logs. retry_loop config sd joins a = Some (logs, True) \<and> length logs = 2"
  by (auto simp: retry_loop.simps [of _ _ _ a] join_fails_def Agent_Join_def gives_up_def split: prod.splits option.splits)

lemma retry_again:
  assumes "join_fails config joins a" and "\<not> gives_up config a"
    and "\<exists>logs. retry_loop config sd joins (Suc a) = Some (logs, b) \<and> length logs = n"
  shows "\<exists>logs. retry_loop config sd joins a = Some (logs, b) \<and> length logs = n + 2"
  using assms
  by (auto simp: retry_loop.simps [of _ _ _ a] join_fails_def Agent_Join_def gives_up_def split: prod.splits option.splits)

lemma retry_steps:
  assumes "\<And>j. a \<le> j \<Longrightarrow> j < a + d \<Longrightarrow> join_fails config joins j \<and> \<not> gives_up config j"
    and "\<exists>logs. retry_loop config sd joins (a + d) = Some (logs, b) \<and> length logs = 2"
  shows "\<exists>logs. retry_loop config sd joins a = Some (logs, b) \<and> length logs = 2 * (d + 1)"
  using assms
proof (induction d arbitrary: a)
  case (Suc d)
  have "\<exists>logs. retry_loop config sd joins (Suc a) = Some (logs, b) \<and> length logs = 2 * (d + 1)"
    using Suc.prems by (intro Suc.IH) auto
  from retry_again [OF _ _ this] show ?case
    using Suc.prems(1) [of a] by simp
qed simp

lemma retry_returns:
  assumes "retry_loop config sd joins a = Some r"
  shows "\<exists>j \<ge> a. \<not> join_fails config joins j \<or> gives_up config j"
proof (rule retry_loop.raw_induct [where P = "\<lambda>config sd joins a r. \<exists>j \<ge> a. \<not> join_fails config joins j \<or> gives_up config j",
      OF _ assms], goal_cases turn)
  case (turn rec config sd joins a r)
  show ?case
  proof (cases "join_fails config joins a \<and> \<not> gives_up config a")
    case True
    obtain n e where j: "joins a (cf_RetryJoin config) (\<not> cf_ReplayOnJoin config) = (n, e)" by fastforce
    with True obtain err where e: "e = Some err" by (auto simp: join_fails_def)
    have "\<not> (0 < sint (cf_RetryMaxAttempts config) \<and> sint (cf_RetryMaxAttempts config) < int (a + 1))"
      using True by (simp add: gives_up_def)
    then have "rec config sd joins (a + 1) \<noteq> None"
      using turn(2) unfolding Agent_Join_def Let_def j e prod.case option.case by (metis Option.bind.bind_lzero option.distinct(1))
    then obtain r' where "rec config sd joins (a + 1) = Some r'" by blast
    note ih = turn(1) [OF this]
    then obtain j where "a + 1 \<le> j" "\<not> join_fails config joins j \<or> gives_up config j" by (elim exE conjE)
    then show ?thesis by (intro exI [of _ j]) auto
  qed auto
qed

lemma retry_from_start:
  assumes "\<And>j. j < d \<Longrightarrow> join_fails config joins j \<and> \<not> gives_up config j"
    and "\<exists>logs. retry_loop config sd joins d = Some (logs, b) \<and> length logs = 2"
  shows "\<exists>logs. retry_loop config sd joins 0 = Some (logs, b) \<and> length logs = 2 * (d + 1)"
  using retry_steps [of 0 d] assms by simp

lemma retry_first_success:
  assumes "\<not> join_fails config joins k" and "\<forall>j < k. join_fails config joins j"
    and "0 < sint (cf_RetryMaxAttempts config) \<longrightarrow> int k \<le> sint (cf_RetryMaxAttempts config)"
  shows "\<exists>logs. retry_loop config sd joins 0 = Some (logs, False) \<and> length logs = 2 * (k + 1)"
  using assms by (intro retry_from_start retry_success) (auto simp: gives_up_def)

lemma retry_limit:
  assumes "0 < n" and "sint (cf_RetryMaxAttempts config) = int n" and "\<forall>j \<le> n. join_fails config joins j"
  shows "\<exists>logs. retry_loop config sd joins 0 = Some (logs, True) \<and> length logs = 2 * (n + 1)"
  using assms by (intro retry_from_start retry_give_up) (auto simp: gives_up_def)

lemma first_success:
  assumes "\<not> join_fails config joins k"
  obtains m where "m \<le> k" "\<not> join_fails config joins m" "\<forall>j < m. join_fails config joins j"
  using assms exists_least_iff [of "\<lambda>m. \<not> join_fails config joins m"] by (metis leI)

lemma retry_forever:
  "retry_loop config sd joins 0 = None \<longleftrightarrow>
     sint (cf_RetryMaxAttempts config) \<le> 0 \<and> (\<forall>j. join_fails config joins j)"
proof
  assume none: "retry_loop config sd joins 0 = None"
  have limited: False if "sint (cf_RetryMaxAttempts config) = int n" "0 < n" for n
  proof (cases "\<forall>j \<le> n. join_fails config joins j")
    case True
    then show False using retry_limit [OF that(2,1), of joins sd] none by auto
  next
    case False
    then obtain k where k: "k \<le> n" "\<not> join_fails config joins k" by blast
    obtain m where "m \<le> k" "\<not> join_fails config joins m" "\<forall>j < m. join_fails config joins j"
      using first_success [OF k(2)] .
    then show False using retry_first_success [of config joins m sd] that k(1) none by auto
  qed
  then have "sint (cf_RetryMaxAttempts config) \<le> 0"
    by (metis not_le of_nat_0_less_iff pos_int_cases)
  moreover have "join_fails config joins k" for k
  proof (rule ccontr)
    assume k: "\<not> join_fails config joins k"
    obtain m where "\<not> join_fails config joins m" "\<forall>j < m. join_fails config joins j"
      using first_success [OF k] .
    then show False using retry_first_success [of config joins m sd] calculation none by auto
  qed
  ultimately show "sint (cf_RetryMaxAttempts config) \<le> 0 \<and> (\<forall>j. join_fails config joins j)" by blast
next
  assume "sint (cf_RetryMaxAttempts config) \<le> 0 \<and> (\<forall>j. join_fails config joins j)"
  then have "\<not> (\<exists>r. retry_loop config sd joins 0 = Some r)"
    using retry_returns by (fastforce simp: gives_up_def)
  then show "retry_loop config sd joins 0 = None" by (cases "retry_loop config sd joins 0") (simp, blast)
qed

text \<open>C29. Joining with retries makes exactly the attempts it should (two log lines each): it stops at the
  first join that succeeds, and if the maximum is positive it closes the error channel after one attempt
  more than the maximum when all of these fail. It runs for ever exactly when no maximum is set and no
  join succeeds.\<close>

theorem retry_join_attempts:
  assumes "cf_RetryJoin config \<noteq> []"
  shows "(\<forall>k. \<not> join_fails config joins k \<and> (\<forall>j < k. join_fails config joins j) \<and>
        (0 < sint (cf_RetryMaxAttempts config) \<longrightarrow> int k \<le> sint (cf_RetryMaxAttempts config)) \<longrightarrow>
      (\<exists>logs. retryJoin config sd joins = Some (logs, False) \<and> length logs = 2 * (k + 1))) \<and>
    (\<forall>n > 0. sint (cf_RetryMaxAttempts config) = int n \<and> (\<forall>j \<le> n. join_fails config joins j) \<longrightarrow>
      (\<exists>logs. retryJoin config sd joins = Some (logs, True) \<and> length logs = 2 * (n + 1))) \<and>
    (retryJoin config sd joins = None \<longleftrightarrow>
      sint (cf_RetryMaxAttempts config) \<le> 0 \<and> (\<forall>j. join_fails config joins j))"
proof -
  have loop: "retryJoin config sd joins = retry_loop config sd joins 0"
    using assms by (simp add: retryJoin_def)
  show ?thesis
    unfolding loop by (intro conjI allI impI retry_first_success retry_limit retry_forever) auto
qed

theorem retry_join_attempts_witness:
  "\<exists>logs. retryJoin (zero_Config\<lparr>cf_RetryJoin := [''a:7946''], cf_RetryMaxAttempts := 2\<rparr>)
     (\<lambda>d. '''') (\<lambda>n addrs replay. (0, Some ''refused'')) = Some (logs, True) \<and> length logs = 6"
proof -
  let ?c = "zero_Config\<lparr>cf_RetryJoin := [''a:7946''], cf_RetryMaxAttempts := 2\<rparr>"
  have "cf_RetryJoin ?c \<noteq> []" by simp
  from retry_join_attempts [OF this, of "\<lambda>n addrs replay. (0, Some ''refused'')" "\<lambda>d. ''''"]
  have "\<forall>n > 0. sint (cf_RetryMaxAttempts ?c) = int n \<and> (\<forall>j \<le> n. join_fails ?c (\<lambda>n addrs replay. (0, Some ''refused'')) j) \<longrightarrow>
      (\<exists>logs. retryJoin ?c (\<lambda>d. '''') (\<lambda>n addrs replay. (0, Some ''refused'')) = Some (logs, True) \<and> length logs = 2 * (n + 1))"
    by (elim conjE)
  from spec [OF this, of 2] show ?thesis by (simp add: join_fails_def)
qed

section \<open>Reloading and signals\<close>

text \<open>The state after a reload that read a configuration.\<close>

definition apply_config ::
  "json \<Rightarrow> ((string \<rightharpoonup> string) \<Rightarrow> string option) \<Rightarrow> Config \<Rightarrow> cmd_state \<Rightarrow> cmd_state" where
  "apply_config js setTags newConf st =
     (let (ms, newConf1, filt) = reload_level newConf st;
          (err, fl, called) = Agent_SetTags js setTags (tags_of newConf1) (cs_agent st) (cs_files st)
      in st\<lparr>cs_config := newConf1, cs_filter := filt,
            cs_scripts := sh_UpdateScripts (Some (EventScripts newConf1)) (cs_scripts st), cs_files := fl,
            cs_tags := (if called \<and> err = None then tags_of newConf1 else cs_tags st)\<rparr>)"

lemma handleReload_cases:
  obtains (failed) ms msgs where "readConfig env args = Ret (ms, None)" "handleReload js setTags env args st = Ret (msgs, st)"
  | (read) ms newConf msgs where "readConfig env args = Ret (ms, Some newConf)"
      "handleReload js setTags env args st = Ret (msgs, apply_config js setTags newConf st)"
proof (cases rule: readConfig_cases [of env args])
  case (refused ms)
  then show thesis using failed [of ms] by (simp add: handleReload_def)
next
  case (read cmd files base c1 m1 c2 m2 c3)
  obtain ms newConf1 filt where l: "reload_level c3 st = (ms, newConf1, filt)" by (metis prod.collapse)
  obtain err fl called where t: "Agent_SetTags js setTags (tags_of newConf1) (cs_agent st) (cs_files st) = (err, fl, called)"
    by (metis prod.collapse)
  from read(6) have "\<exists>msgs. handleReload js setTags env args st = Ret (msgs, apply_config js setTags c3 st)"
    by (simp add: handleReload_def apply_config_def l t)
  then show thesis using that(2) read(6) by blast
qed

lemma handleReload_returns: "\<exists>msgs st'. handleReload js setTags env args st = Ret (msgs, st')"
  by (cases rule: handleReload_cases [of env args js setTags st]) auto

text \<open>The configuration in force after a reload: the one read, with the old level text if its own is
  not valid; the old one if reading fails.\<close>

definition reloaded :: "('f, 'i) cmd_env \<Rightarrow> string list \<Rightarrow> level_filter \<Rightarrow> Config \<Rightarrow> Config" where
  "reloaded env args f config =
     (case readConfig env args of
        Ret (msgs, Some newConf) \<Rightarrow>
          if ValidateLevelFilter (ToUpper (cf_LogLevel newConf)) f then newConf
          else newConf\<lparr>cf_LogLevel := cf_LogLevel config\<rparr>
      | _ \<Rightarrow> config)"

lemma apply_config_parts:
  "cs_config (apply_config js setTags c st) =
     (if ValidateLevelFilter (ToUpper (cf_LogLevel c)) (cs_filter st) then c
      else c\<lparr>cf_LogLevel := cf_LogLevel (cs_config st)\<rparr>)"
  "cs_agent (apply_config js setTags c st) = cs_agent st"
  "lf_Levels (cs_filter (apply_config js setTags c st)) = lf_Levels (cs_filter st)"
  by (simp_all add: apply_config_def reload_level_def Let_def split: prod.splits)

lemma handleReload_config:
  assumes "handleReload js setTags env args st = Ret (msgs, st')"
  shows "cs_config st' = reloaded env args (cs_filter st) (cs_config st) \<and> cs_agent st' = cs_agent st \<and>
    lf_Levels (cs_filter st') = lf_Levels (cs_filter st)"
  using assms
  by (cases rule: handleReload_cases [of env args js setTags st]) (auto simp: reloaded_def apply_config_parts)

text \<open>The leave ends well before a signal or the time limit; or nothing has ended the wait yet.\<close>

fun left_in_time :: "nat agent \<Rightarrow> leave_wake list \<Rightarrow> bool" where
  "left_in_time a (LLeft e # ls) = (Agent_Leave e a = None \<or> left_in_time a ls)"
| "left_in_time a ls = False"

definition still_leaving :: "nat agent \<Rightarrow> leave_wake list \<Rightarrow> bool" where
  "still_leaving a ls \<longleftrightarrow> list_all (\<lambda>l. case l of LLeft e \<Rightarrow> Agent_Leave e a \<noteq> None | _ \<Rightarrow> False) ls"

lemma await_leave_code:
  "snd (await_leave a ls) = (if left_in_time a ls then Some 0 else if still_leaving a ls then None else Some 1)"
  by (induction a ls rule: await_leave.induct)
    (auto simp: still_leaving_def prepend_def split: option.splits)

definition leave_code :: "nat agent \<Rightarrow> leave_wake list \<Rightarrow> int option" where
  "leave_code a ls = (if left_in_time a ls then Some 0 else if still_leaving a ls then None else Some 1)"

definition in_force :: "string list \<Rightarrow> level_filter \<Rightarrow> ('f, 'i) cmd_env list \<Rightarrow> Config \<Rightarrow> Config" where
  "in_force args f envs config = fold (\<lambda>env. reloaded env args f) envs config"

fun wake_code :: "('f, 'i) wake \<Rightarrow> Config \<Rightarrow> nat agent \<Rightarrow> leave_wake list \<Rightarrow> int option" where
  "wake_code WInterrupt c a ls = (if cf_SkipLeaveOnInt c then Some 1 else leave_code a ls)"
| "wake_code WShutdownCh c a ls = (if cf_SkipLeaveOnInt c then Some 1 else leave_code a ls)"
| "wake_code WTerm c a ls = (if cf_LeaveOnTerm c then leave_code a ls else Some 1)"
| "wake_code WAgentDown c a ls = Some 0"
| "wake_code w c a ls = Some 1"

lemma reloaded_levels: "lf_Levels f = lf_Levels g \<Longrightarrow> reloaded env args f c = reloaded env args g c"
  by (simp add: reloaded_def ValidateLevelFilter_def split: go.splits prod.splits option.splits)

lemma in_force_levels: "lf_Levels f = lf_Levels g \<Longrightarrow> in_force args f envs c = in_force args g envs c"
  by (induction envs arbitrary: c) (simp_all add: in_force_def reloaded_levels [of f g])

lemma exit_on_code: "snd (exit_on sig graceful a ls) = (if graceful then leave_code a ls else Some 1)"
  by (simp add: exit_on_def prepend_def await_leave_code leave_code_def)

lemma snd_prepend [simp]: "snd (prepend ms r) = snd r"
  by (simp add: prepend_def)

text \<open>Waiting for signals never panics. After any number of reloads the first other event decides the
  exit code, under the configuration then in force: 1 when the discovery daemon or the retried join failed, 0
  when the agent is already down, and for an interrupt, a shutdown message or a termination signal that
  asks for a graceful leave 0 exactly if a leave succeeds before a signal or the time limit, 1 if not;
  without a graceful leave it is 1 at once.\<close>

lemma exit_codes:
  assumes "\<forall>env. w \<noteq> WHup env"
  shows "\<exists>r st'. handleSignals js setTags args (map WHup envs @ w # ws) ls st = Ret (r, st') \<and>
    snd r = wake_code w (in_force args (cs_filter st) envs (cs_config st)) (cs_agent st) ls"
proof (induction envs arbitrary: st)
  case Nil
  then show ?case
    using assms by (cases w) (simp_all add: in_force_def exit_on_code)
next
  case (Cons env envs)
  obtain msgs st1 where h: "handleReload js setTags env args st = Ret (msgs, st1)"
    using handleReload_returns by metis
  note p = handleReload_config [OF h]
  from Cons [of st1] obtain r st' where
    "handleSignals js setTags args (map WHup envs @ w # ws) ls st1 = Ret (r, st')"
    "snd r = wake_code w (in_force args (cs_filter st1) envs (cs_config st1)) (cs_agent st1) ls" by blast
  moreover have "in_force args (cs_filter st1) envs c = in_force args (cs_filter st) envs c" for c
    using p by (intro in_force_levels) simp
  ultimately show ?case
    using h p by (simp add: in_force_def)
qed

text \<open>C30. A reload that cannot read a configuration changes nothing. One that can hands the new scripts to
  the script handler for its next event, sets the log level exactly if it is valid, and makes the
  configuration's tags the tags of the node: unless a write fails, they replace the tags serf
  has and, when the agent keeps a tags file, the contents of that file, whatever had been set at run
  time.\<close>

theorem reload_effect:
  assumes "handleReload js setTags env args st = Ret (msgs, st')"
  shows "(\<forall>ms. readConfig env args = Ret (ms, None) \<longrightarrow> st' = st) \<and>
    (\<forall>ms c. readConfig env args = Ret (ms, Some c) \<longrightarrow>
      cs_scripts st' = (cs_scripts st)\<lparr>sh_newScripts := Some (EventScripts c)\<rparr> \<and>
      cs_filter st' =
        (if ToUpper (cf_LogLevel c) \<in> set (lf_Levels (cs_filter st))
         then (cs_filter st)\<lparr>lf_MinLevel := ToUpper (cf_LogLevel c)\<rparr> else cs_filter st) \<and>
      (let path = cf_TagsFile (ag_agentConf (cs_agent st)) in
       setTags (tags_of c) = None \<longrightarrow>
        (path = '''' \<longrightarrow> cs_tags st' = tags_of c \<and> cs_files st' = cs_files st) \<and>
        (\<forall>d. path \<noteq> '''' \<and> js_tags_enc js (tags_of c) = Inr d \<and> fl_write_error (cs_files st) path = None \<longrightarrow>
          cs_tags st' = tags_of c \<and> fl_data (cs_files st') path = Some d)))"
proof (cases rule: handleReload_cases [of env args js setTags st])
  case (failed ms)
  then show ?thesis using assms by simp
next
  case (read ms c)
  have st': "st' = apply_config js setTags c st" using read assms by simp
  have valid: "ValidateLevelFilter l (cs_filter st) \<longleftrightarrow> l \<in> set (lf_Levels (cs_filter st))" for l
    by (auto simp: ValidateLevelFilter_def list_ex_iff)
  have same: "tags_of (c\<lparr>cf_LogLevel := l\<rparr>) = tags_of c" "EventScripts (c\<lparr>cf_LogLevel := l\<rparr>) = EventScripts c" for l
    by (simp_all add: tags_of_def EventScripts_def)
  have "cs_scripts st' = (cs_scripts st)\<lparr>sh_newScripts := Some (EventScripts c)\<rparr>"
    and "cs_filter st' =
        (if ToUpper (cf_LogLevel c) \<in> set (lf_Levels (cs_filter st))
         then (cs_filter st)\<lparr>lf_MinLevel := ToUpper (cf_LogLevel c)\<rparr> else cs_filter st)"
    by (simp_all add: st' apply_config_def reload_level_def Let_def valid same sh_UpdateScripts_def split: prod.splits)
  moreover have "cs_tags st' = tags_of c" "cs_files st' = cs_files st"
    if "setTags (tags_of c) = None" "cf_TagsFile (ag_agentConf (cs_agent st)) = ''''"
    using that by (simp_all add: st' apply_config_def reload_level_def Let_def same Agent_SetTags_def)
  moreover have "cs_tags st' = tags_of c" "fl_data (cs_files st') (cf_TagsFile (ag_agentConf (cs_agent st))) = Some d"
    if "setTags (tags_of c) = None" "cf_TagsFile (ag_agentConf (cs_agent st)) \<noteq> ''''"
      "js_tags_enc js (tags_of c) = Inr d" "fl_write_error (cs_files st) (cf_TagsFile (ag_agentConf (cs_agent st))) = None" for d
    using that by (simp_all add: st' apply_config_def reload_level_def Let_def same Agent_SetTags_def writeTagsFile_def)
  ultimately show ?thesis
    using read by (auto simp: Let_def)
qed

text \<open>A concrete agent with a tags file whose tags were set at run time.\<close>

definition demo_cmd_json :: json where
  "demo_cmd_json = \<lparr>js_tags_dec = (\<lambda>d t. Inr t), js_tags_enc = (\<lambda>m. Inr (if m = Map.empty then ''{}'' else ''{...}'')),
     js_keys_dec = (\<lambda>d. Inr [])\<rparr>"

definition demo_cmd_state :: cmd_state where
  "demo_cmd_state =
     \<lparr>cs_config = zero_Config\<lparr>cf_TagsFile := ''tags.json''\<rparr>, cs_filter = LevelFilter,
      cs_scripts = \<lparr>sh_Scripts = [], sh_newScripts = None\<rparr>,
      cs_agent = new_agent (zero_Config\<lparr>cf_TagsFile := ''tags.json''\<rparr>) \<lparr>sc_Tags = None, sc_Keyring = None\<rparr>,
      cs_files = \<lparr>fl_data = [''tags.json'' \<mapsto> ''{...}''], fl_read_error = Map.empty, fl_write_error = Map.empty\<rparr>,
      cs_tags = [''role'' \<mapsto> ''web'']\<rparr>"

lemma demo_read_tags:
  "\<exists>msgs c. readConfig demo_cmd_env demo_args = Ret (msgs, Some c) \<and> tags_of c = Map.empty \<and> \<not> cf_SkipLeaveOnInt c"
  by (simp add: readConfig_def demo_cmdline demo_merged check_config_def find_invalid_def EventScripts_def
      NetworkInterface_def role_tag_def raise_interval_def minRetryInterval_def MergeConfig_fields
      zero_Config_def DefaultConfig_def tags_of_def merge_tags_def)

theorem reload_effect_witness:
  "\<exists>msgs st'. handleReload demo_cmd_json (\<lambda>m. None) demo_cmd_env demo_args demo_cmd_state = Ret (msgs, st') \<and>
     cs_tags demo_cmd_state ''role'' = Some ''web'' \<and> cs_tags st' = Map.empty \<and>
     fl_data (cs_files st') ''tags.json'' = Some ''{}''"
proof -
  obtain ms c where c: "readConfig demo_cmd_env demo_args = Ret (ms, Some c)" "tags_of c = Map.empty"
    using demo_read_tags by blast
  obtain msgs st' where r: "handleReload demo_cmd_json (\<lambda>m. None) demo_cmd_env demo_args demo_cmd_state = Ret (msgs, st')"
    using handleReload_returns by metis
  from reload_effect [OF r] c
  have "cs_tags st' = Map.empty \<and> fl_data (cs_files st') ''tags.json'' = Some ''{}''"
    by (simp add: Let_def demo_cmd_state_def demo_cmd_json_def new_agent_def)
  with r show ?thesis by (simp add: demo_cmd_state_def)
qed

section \<open>A run cleans up\<close>

lemma created_running:
  assumes "Agent_Create js kr fl conf sc = Inr a"
  shows "\<not> ag_shutdown a \<and> \<not> ag_shutdownCh_closed a"
  using assms
  by (auto simp: Agent_Create_def Let_def loadTagsFile_def loadKeyringFile_def new_agent_def
      split: if_splits prod.splits option.splits sum.splits)

definition shutdown_safe :: "'h agent \<Rightarrow> bool" where
  "shutdown_safe a \<longleftrightarrow> \<not> ag_shutdown a \<and> \<not> ag_shutdownCh_closed a"

lemma shutdown_safe_ops [wf_intros]:
  "shutdown_safe a \<Longrightarrow> shutdown_safe (Agent_RegisterEventHandler order h a)"
  "shutdown_safe a \<Longrightarrow> shutdown_safe (snd (Agent_Start e a))"
  by (auto simp: shutdown_safe_def Agent_RegisterEventHandler_def Agent_Start_def Let_def split: option.splits)

lemma run_deferred_safe:
  assumes "shutdown_safe a"
  shows "\<exists>r. run_deferred e code fl i a = Ret r \<and> re_code r = code \<and> re_flushed r = fl \<and>
    (\<exists>a'. re_agent r = Some a' \<and> (code \<noteq> None \<and> e = None \<longrightarrow> ag_shutdown a')) \<and>
    (code \<noteq> None \<longrightarrow> re_ipc r = map_option (\<lambda>i. fst (AgentIPC_Shutdown i)) i)"
  using assms by (cases code) (auto simp: run_deferred_def shutdown_safe_def Agent_Shutdown_def)

definition tells_error :: "ui list \<Rightarrow> bool" where
  "tells_error msgs \<longleftrightarrow> (\<exists>ms e. msgs = ms @ [UError e])"

lemma tells_error_simps [simp]:
  "tells_error (ms @ [UError e])" "tells_error [UError e]" "tells_error [m, UError e]" "\<not> tells_error []"
  by (auto simp: tells_error_def)

lemma setupLoggers_None: "setupLoggers env config = (ms, filt, None) \<Longrightarrow> tells_error ms"
proof -
  have "tells_error [level_error l f]" for l f
    unfolding level_error_def by (rule tells_error_simps)
  then show "setupLoggers env config = (ms, filt, None) \<Longrightarrow> tells_error ms"
    by (auto simp: setupLoggers_def Let_def split: if_splits option.splits)
qed

lemma tells_error_prefix: "tells_error msgs \<Longrightarrow> tells_error (ms @ msgs)"
  unfolding tells_error_def by (metis append_assoc)

lemma bind_to_interface_None: "bind_to_interface env config ip port = (ms, None) \<Longrightarrow> tells_error ms"
  by (auto simp: bind_to_interface_def split: sum.splits option.splits if_splits)

lemma build_agent_parts:
  "build_agent env config ip port adv = (ms, None) \<Longrightarrow> tells_error ms"
  "build_agent env config ip port adv = (ms, Some (setup, agent)) \<Longrightarrow> shutdown_safe agent"
  by (auto simp: build_agent_def Let_def shutdown_safe_def dest: created_running split: option.splits sum.splits)

lemma setupAgent_parts:
  assumes "setupAgent env config = Some (ms, r)"
  shows "(r = None \<longrightarrow> tells_error ms) \<and> (\<forall>config' setup agent. r = Some (config', setup, agent) \<longrightarrow> shutdown_safe agent)"
proof -
  obtain b where b: "AddrParts (se_resolve env) (cf_BindAddr config) = Some b"
    using assms by (cases "AddrParts (se_resolve env) (cf_BindAddr config)") (simp_all add: setupAgent_def)
  show ?thesis
  proof (cases b)
    case (Inl err)
    then show ?thesis using assms b by (auto simp: setupAgent_def)
  next
    case (Inr p)
    obtain ip port where p: "p = (ip, port)" by (cases p)
    obtain m s where bi: "bind_to_interface env config ip port = (m, s)" by (cases "bind_to_interface env config ip port")
    show ?thesis
    proof (cases s)
      case None
      then show ?thesis
        using assms b Inr p bi bind_to_interface_None [of env config ip port m] by (auto simp: setupAgent_def)
    next
      case (Some t)
      obtain ip' config' where t: "t = (ip', config')" by (cases t)
      obtain adv where adv: "(if cf_AdvertiseAddr config' \<noteq> '''' then AddrParts (se_resolve env) (cf_AdvertiseAddr config')
          else Some (Inr ('''', 0))) = Some adv"
        using assms b Inr p bi Some t by (auto simp: setupAgent_def bind_eq_Some_conv)
      show ?thesis
      proof (cases adv)
        case (Inl err)
        then show ?thesis using assms b Inr p bi Some t adv by (auto simp: setupAgent_def)
      next
        case a: (Inr ap)
        obtain m2 g where g: "build_agent env config' ip' port ap = (m2, g)" by (cases "build_agent env config' ip' port ap")
        have "Some (prepend m (case g of None \<Rightarrow> (m2, None) | Some (setup, agent) \<Rightarrow> (m2, Some (config', setup, agent)))) = Some (ms, r)"
          using assms b Inr p bi Some t adv a g by (simp add: setupAgent_def)
        then show ?thesis
          using build_agent_parts [of env config' ip' port ap m2] g
          by (cases g) (auto simp: prepend_def intro: tells_error_prefix)
      qed
    qed
  qed
qed

lemma start_services_fresh:
  "ip_clients (start_services order env config a lw) = {} \<and> ip_discoverd (start_services order env config a lw) \<noteq> None \<and>
   \<not> ip_stop (start_services order env config a lw)"
  by (simp add: start_services_def Let_def NewAgentIPC_def SetDiscoverd_def)

lemma startAgent_parts:
  assumes "startAgent order env config agent lw = Some (ms, agent', r)" and "shutdown_safe agent"
  shows "shutdown_safe agent' \<and> (r = None \<longrightarrow> tells_error ms) \<and>
    (\<forall>st. r = Some st \<longrightarrow> ip_agent (st_ipc st) = agent' \<and> AgentIPC_Shutdown (st_ipc st) = (({}, True), (st_ipc st)\<lparr>ip_stop := True\<rparr>))"
proof -
  let ?a1 = "Agent_RegisterEventHandler order scriptHandler_id agent"
  have a1: "shutdown_safe ?a1" using assms(2) by (rule wf_intros)
  obtain e a2 where st: "Agent_Start (se_create env) ?a1 = (e, a2)" by (cases "Agent_Start (se_create env) ?a1")
  have a2: "shutdown_safe a2" using shutdown_safe_ops(2) [OF a1, of "se_create env"] st by simp
  have svc: "shutdown_safe (ip_agent (start_services order env config a2 lw))"
    using a2 by (auto simp: start_services_def Let_def NewAgentIPC_def SetDiscoverd_def intro: wf_intros)
  show ?thesis
  proof (cases e)
    case (Some err)
    then show ?thesis using assms(1) st a2 by (auto simp: startAgent_def)
  next
    case None
    obtain b where b: "AddrParts (se_resolve env) (cf_BindAddr config) = Some b"
      using assms(1) st None by (cases "AddrParts (se_resolve env) (cf_BindAddr config)") (simp_all add: startAgent_def Let_def)
    obtain ip port where ip: "parts_or_zero b = (ip, port)" by (cases "parts_or_zero b")
    show ?thesis
    proof (cases "cf_Discover config \<noteq> '''' \<and> se_mdns env \<noteq> None")
      case True
      then show ?thesis using assms(1) st None b ip a2 by (auto simp: startAgent_def Let_def)
    next
      case mdns: False
      show ?thesis
      proof (cases "se_listen env (cf_RPCAddr config)")
        case (Some err)
        then show ?thesis using assms(1) st None b ip a2 mdns by (auto simp: startAgent_def Let_def)
      next
        case listen: None
        define adv where "adv = (if cf_AdvertiseAddr config \<noteq> '''' then
          map_option (\<lambda>r. Some (parts_or_zero r)) (AddrParts (se_resolve env) (cf_AdvertiseAddr config)) else Some None)"
        obtain v where v: "adv = Some v"
          using assms(1) st None b ip mdns listen
          by (cases adv) (auto simp: startAgent_def Let_def simp flip: adv_def split: if_splits)
        then show ?thesis
          using assms(1) st None b ip mdns listen svc start_services_fresh [of order env config a2 lw]
          by (auto simp: startAgent_def AgentIPC_Shutdown_def Let_def simp flip: adv_def split: if_splits)
      qed
    qed
  qed
qed

lemma handleSignals_agent:
  "\<exists>ms code st'. handleSignals js setTags args ws ls st = Ret ((ms, code), st') \<and> cs_agent st' = cs_agent st \<and>
     (code = None \<or> code = Some 0 \<or> code = Some 1)"
proof (induction js setTags args ws ls st rule: handleSignals.induct)
  case (8 js setTags args env ws ls st)
  obtain msgs st1 where h: "handleReload js setTags env args st = Ret (msgs, st1)"
    using handleReload_returns by metis
  from 8 [OF h refl] obtain ms code st' where
    "handleSignals js setTags args ws ls st1 = Ret ((ms, code), st')" "cs_agent st' = cs_agent st1"
    "code = None \<or> code = Some 0 \<or> code = Some 1" by auto
  then show ?case
    using h handleReload_config [OF h] by (auto simp: prepend_def)
qed (auto simp: exit_on_def prepend_def await_leave_code split: prod.splits)

text \<open>How far a run gets: the agent that is set up, with its configuration and the log writer, and the IPC server that is
  started with it.\<close>

definition agent_set_up :: "'i sys_env \<Rightarrow> Config \<Rightarrow> (Config \<times> nat agent \<times> nat log_writer) option" where
  "agent_set_up env config =
     (case setupLoggers env config of
        (_, _, Some (logGate, logWriter, syslog)) \<Rightarrow>
          (if metric_sinks env config \<noteq> [] then None
           else case setupAgent env config of
             Some (_, Some (config', setup, agent)) \<Rightarrow> Some (config', agent, logWriter)
           | _ \<Rightarrow> None)
      | _ \<Rightarrow> None)"

definition ipc_started :: "(nat set \<Rightarrow> nat list) \<Rightarrow> 'i sys_env \<Rightarrow> Config \<Rightarrow> nat agent \<Rightarrow> nat log_writer \<Rightarrow> bool" where
  "ipc_started order env config agent logWriter \<longleftrightarrow>
     (\<exists>ms agent' st. startAgent order env config agent logWriter = Some (ms, agent', Some st))"

text \<open>How a run must end, by how far it got. \<open>agent_down\<close>: when the command has returned, the agent has been shut down (unless serf
  failed to).\<close>

definition agent_down :: "string option \<Rightarrow> run_end \<Rightarrow> bool" where
  "agent_down shutdown_error r \<longleftrightarrow>
     (re_code r \<noteq> None \<longrightarrow> (\<exists>a. re_agent r = Some a \<and> (shutdown_error = None \<longrightarrow> ag_shutdown a)))"

definition clean_end :: "'i sys_env \<Rightarrow> (nat set \<Rightarrow> nat list) \<Rightarrow> Config \<Rightarrow> string option \<Rightarrow> ui list \<Rightarrow> run_end \<Rightarrow> bool" where
  "clean_end env order config shutdown_error msgs r \<longleftrightarrow>
     (case agent_set_up env config of
        None \<Rightarrow> r = ended 1 \<and> tells_error msgs
      | Some (config', agent, logWriter) \<Rightarrow>
          agent_down shutdown_error r \<and>
          (if \<not> ipc_started order env config' agent logWriter
           then re_code r = Some 1 \<and> re_ipc r = None \<and> \<not> re_flushed r \<and> tells_error msgs
           else re_code r \<in> {None, Some 0, Some 1} \<and> (re_code r \<noteq> None \<longrightarrow> re_ipc r = Some ({}, True)) \<and>
             (case snd (startupJoin env config') of
                Some err \<Rightarrow> re_code r = Some 1 \<and> \<not> re_flushed r \<and> last msgs = UError err
              | None \<Rightarrow> re_flushed r)))"

lemma clean_end_prefix: "clean_end env order config e msgs r \<Longrightarrow> msgs \<noteq> [] \<or> re_flushed r \<Longrightarrow> clean_end env order config e (ms @ msgs) r"
  by (cases "re_ipc r") (auto simp: clean_end_def tells_error_prefix split: option.splits if_splits)

text \<open>A run that is not refused its configuration always has something to say.\<close>

lemma run_started_clean:
  assumes safe: "shutdown_safe (ip_agent (st_ipc st))" and ipc: "fst (AgentIPC_Shutdown (st_ipc st)) = ({}, True)"
  shows "\<exists>msgs r. run_started env setTags e args config filt st wakes leaves = Ret (msgs, r) \<and> msgs \<noteq> [] \<and>
    agent_down e r \<and> re_code r \<in> {None, Some 0, Some 1} \<and> (re_code r \<noteq> None \<longrightarrow> re_ipc r = Some ({}, True)) \<and>
    (case snd (startupJoin env config) of
       Some err \<Rightarrow> re_code r = Some 1 \<and> \<not> re_flushed r \<and> last msgs = UError err
     | None \<Rightarrow> re_flushed r)"
proof -
  let ?a = "ip_agent (st_ipc st)" and ?ipc = "Some (st_ipc st)"
  obtain ms err where j: "startupJoin env config = (ms, err)" by (cases "startupJoin env config")
  show ?thesis
  proof (cases err)
    case (Some er)
    from run_deferred_safe [OF safe, of e "Some 1" False ?ipc] obtain r a' where
      "run_deferred e (Some 1) False ?ipc ?a = Ret r" "re_code r = Some 1" "\<not> re_flushed r" "re_agent r = Some a'"
      "e = None \<longrightarrow> ag_shutdown a'" "re_ipc r = Some ({}, True)"
      using ipc by auto
    then show ?thesis
      using j Some by (auto simp: run_started_def agent_down_def)
  next
    case None
    define cs where "cs = \<lparr>cs_config = config, cs_filter = filt, cs_scripts = st_scripts st, cs_agent = ?a,
      cs_files = se_files env, cs_tags = serf_tags ?a\<rparr>"
    from handleSignals_agent [of "se_json env" setTags args wakes leaves cs] obtain ms2 code cs' where
      h: "handleSignals (se_json env) setTags args wakes leaves cs = Ret ((ms2, code), cs')"
        "cs_agent cs' = ?a" and code: "code = None \<or> code = Some 0 \<or> code = Some 1"
      by (auto simp: cs_def)
    from run_deferred_safe [OF safe, of e code True ?ipc] obtain r where
      r: "run_deferred e code True ?ipc ?a = Ret r" "re_code r = code" "re_flushed r"
        "\<exists>a'. re_agent r = Some a' \<and> (code \<noteq> None \<and> e = None \<longrightarrow> ag_shutdown a')"
        "code \<noteq> None \<longrightarrow> re_ipc r = Some ({}, True)"
      using ipc by auto
    then show ?thesis
      using j None h code by (auto simp: run_started_def agent_down_def simp flip: cs_def)
  qed
qed

lemma run_configured_clean:
  assumes "run_configured env order setTags e args config wakes leaves = Some out"
  shows "\<exists>msgs r. out = Ret (msgs, r) \<and> clean_end env order config e msgs r \<and> msgs \<noteq> []"
proof -
  obtain ms1 filt lo where l: "setupLoggers env config = (ms1, filt, lo)" by (cases "setupLoggers env config")
  show ?thesis
  proof (cases lo)
    case None
    then have te: "tells_error ms1" using l setupLoggers_None by simp
    then have "ms1 \<noteq> []" by auto
    with te show ?thesis using assms l None by (auto simp: run_configured_def clean_end_def agent_set_up_def)
  next
    case (Some lg)
    obtain gate lw sy where lg: "lg = (gate, lw, sy)" by (cases lg)
    have le: "setupLoggers env config = (ms1, filt, Some (gate, lw, sy))" using l Some lg by simp
    show ?thesis
    proof (cases "metric_sinks env config = []")
      case False
      then have "tells_error (metric_sinks env config)"
        by (auto simp: metric_sinks_def split: if_splits)
      moreover have "agent_set_up env config = None" using le False by (simp add: agent_set_up_def)
      moreover have "out = Ret (ms1 @ metric_sinks env config, ended 1)"
        using assms le False by (simp add: run_configured_def)
      ultimately show ?thesis using False by (simp add: clean_end_def tells_error_prefix)
    next
      case sinks: True
      obtain ms2 s where s: "setupAgent env config = Some (ms2, s)"
        using assms le sinks by (cases "setupAgent env config") (auto simp: run_configured_def)
      note sp = setupAgent_parts [OF s]
      show ?thesis
      proof (cases s)
        case None
        then have te: "tells_error ms2" using sp by blast
        then have "ms2 \<noteq> []" by auto
        moreover have "agent_set_up env config = None" using le sinks s None by (simp add: agent_set_up_def)
        moreover have "out = Ret (ms1 @ ms2, ended 1)" using assms le sinks s None by (simp add: run_configured_def)
        ultimately show ?thesis using te by (simp add: clean_end_def tells_error_prefix)
      next
        case t: (Some t)
        obtain config' su agent where t': "t = (config', su, agent)" by (cases t)
        have safe: "shutdown_safe agent" using sp t t' by blast
        have up: "agent_set_up env config = Some (config', agent, lw)"
          using le sinks s t t' by (simp add: agent_set_up_def)
        obtain ms3 agent' b where b: "startAgent order env config' agent lw = Some (ms3, agent', b)"
          using assms le sinks s t t'
          by (cases "startAgent order env config' agent lw") (auto simp: run_configured_def)
        note bp = startAgent_parts [OF b safe]
        show ?thesis
        proof (cases b)
          case None
          have safe': "shutdown_safe agent'" and te: "tells_error ms3" using bp None by blast+
          have "out = go_bind (run_deferred e (Some 1) False None agent') (\<lambda>r. Ret (ms1 @ ms2 @ ms3, r))"
            using assms le sinks s t t' b None by (simp add: run_configured_def)
          moreover have "tells_error (ms1 @ ms2 @ ms3)" using te by (intro tells_error_prefix)
          moreover have "\<not> ipc_started order env config' agent lw" using b None by (simp add: ipc_started_def)
          ultimately show ?thesis
            using run_deferred_safe [OF safe', of e "Some 1" False None] te
            by (auto simp: clean_end_def up agent_down_def)
        next
          case st: (Some st)
          have "shutdown_safe (ip_agent (st_ipc st))" "fst (AgentIPC_Shutdown (st_ipc st)) = ({}, True)"
            using bp st by simp_all
          from run_started_clean [OF this, of env setTags e args config' filt wakes leaves] obtain msgs r where
            r: "run_started env setTags e args config' filt st wakes leaves = Ret (msgs, r)" "msgs \<noteq> []" "agent_down e r"
              "re_code r \<in> {None, Some 0, Some 1}" "re_code r \<noteq> None \<longrightarrow> re_ipc r = Some ({}, True)"
              "case snd (startupJoin env config') of
                 Some err \<Rightarrow> re_code r = Some 1 \<and> \<not> re_flushed r \<and> last msgs = UError err | None \<Rightarrow> re_flushed r" by blast
          have "ipc_started order env config' agent lw" using b st by (simp add: ipc_started_def)
          with r have "clean_end env order config e (ms1 @ ms2 @ ms3 @ msgs) r"
            by (auto simp: clean_end_def up split: option.splits)
          then show ?thesis
            using assms le sinks s t t' b st r(1,2) by (auto simp: run_configured_def prepend_def)
        qed
      qed
    qed
  qed
qed

text \<open>C31. A run of the agent command that gets past parsing its addresses never panics and cleans up
  after itself, however far it gets. If the configuration is refused it exits with 1 and has printed the messages of that refusal, of which there is at least
  one. If no agent can be set up it exits with 1 and its last message is the error. Once there is an agent, it has been shut down (serf's
  own shutdown succeeding) whenever the command returns: also when starting it, or the services around it, fails, which ends with code 1 and
  the error as the last message; and when the first join fails, which ends with code 1 and the join's error as the last message. From the moment the
  IPC server is started, it too, with the REST server, has been shut down whenever the command returns. Otherwise the log gate is opened and the command exits with 0 or 1 or is
  still waiting.\<close>

theorem run_cleans_up:
  assumes "Command_Run env cenv order setTags shutdown_error args wakes leaves = Some out"
  shows "\<exists>msgs r ms accepted. out = Ret (msgs, r) \<and> readConfig cenv args = Ret (ms, accepted) \<and>
    (case accepted of
       None \<Rightarrow> msgs = ms \<and> ms \<noteq> [] \<and> r = ended 1
     | Some config \<Rightarrow> clean_end env order config shutdown_error msgs r)"
proof (cases rule: readConfig_cases [of cenv args])
  case (refused ms)
  then show ?thesis using assms by (auto simp: Command_Run_def)
next
  case (read cmd files base c1 m1 c2 m2 c3)
  then obtain out' where o: "run_configured env order setTags shutdown_error args c3 wakes leaves = Some out'"
      "out = go_bind out' (\<lambda>out. Ret (prepend (m1 @ m2 @ rejoin_warning c3) out))"
    using assms by (auto simp: Command_Run_def)
  from run_configured_clean [OF o(1)] obtain msgs r where
    r: "out' = Ret (msgs, r)" "clean_end env order c3 shutdown_error msgs r" "msgs \<noteq> []" by blast
  then have "clean_end env order c3 shutdown_error ((m1 @ m2 @ rejoin_warning c3) @ msgs) r"
    by (intro clean_end_prefix) simp_all
  then show ?thesis
    using o(2) r(1) read(6) by (auto simp: prepend_def)
qed

text \<open>A start on a single host that is interrupted and leaves in time.\<close>

definition demo_sys_env :: "nat sys_env" where
  "demo_sys_env =
     \<lparr>se_windows = False, se_interface = (\<lambda>n. Inl ''no such interface''), se_addrs = (\<lambda>i. Inr []),
      se_resolve = (\<lambda>a. Inr (''0.0.0.0'', 7946)), se_addr_error = (\<lambda>e. ''bad address''),
      se_tcp_string = (\<lambda>ip port. ip @ '':'' @ show_int port), se_json = demo_cmd_json,
      se_keyring = (\<lambda>ks k. Inr ks), se_files = no_files, se_syslog = Map.empty, se_create = None,
      se_local = demo_member ''n1'', se_mdns = None, se_listen = Map.empty, se_encrypted = False,
      se_join = (\<lambda>addrs replay. (0, None)), se_statsite = Map.empty, se_statsd = Map.empty\<rparr>"

lemma demo_addr: "AddrParts (se_resolve demo_sys_env) ''0.0.0.0'' = Some (Inr (''0.0.0.0'', 7946))"
proof -
  have "\<not> junk_after_bracket ''0.0.0.0''" by (simp add: junk_after_bracket_def)
  moreover have "SplitHostPort ''0.0.0.0'' = Inl MissingPort" "\<exists>p. SplitHostPort (''0.0.0.0'' @ port_suffix) = Inr p"
    unfolding port_suffix_eq by (simp_all add: SplitHostPort_def check_brackets_def Let_def)
  ultimately show ?thesis
    by (auto simp: AddrParts_def addr_loop_returns demo_sys_env_def)
qed

lemma demo_config:
  "\<exists>msgs c. readConfig demo_cmd_env demo_args = Ret (msgs, Some c) \<and> cf_LogLevel c = ''DEBUG'' \<and>
     \<not> cf_EnableSyslog c \<and> cf_StatsiteAddr c = '''' \<and> cf_StatsdAddr c = '''' \<and> cf_BindAddr c = ''0.0.0.0'' \<and>
     cf_Interface c = '''' \<and> cf_AdvertiseAddr c = '''' \<and> cf_EncryptKey c = '''' \<and> cf_Profile c = ''lan'' \<and>
     cf_TagsFile c = '''' \<and> cf_KeyringFile c = '''' \<and> cf_Discover c = '''' \<and> cf_StartJoin c = [] \<and> \<not> cf_SkipLeaveOnInt c"
  by (simp add: readConfig_def demo_cmdline demo_merged check_config_def find_invalid_def EventScripts_def
      NetworkInterface_def role_tag_def raise_interval_def minRetryInterval_def MergeConfig_fields
      zero_Config_def DefaultConfig_def)

lemma demo_run:
  "\<exists>msgs r. Command_Run demo_sys_env demo_cmd_env nat_order (\<lambda>m. None) None demo_args [WInterrupt] [LLeft None] = Some (Ret (msgs, r)) \<and>
     re_code r = Some 0"
proof -
  obtain ms c where c: "readConfig demo_cmd_env demo_args = Ret (ms, Some c)" "cf_LogLevel c = ''DEBUG''"
     "\<not> cf_EnableSyslog c" "cf_StatsiteAddr c = ''''" "cf_StatsdAddr c = ''''" "cf_BindAddr c = ''0.0.0.0''"
     "cf_Interface c = ''''" "cf_AdvertiseAddr c = ''''" "cf_EncryptKey c = ''''" "cf_Profile c = ''lan''"
     "cf_TagsFile c = ''''" "cf_KeyringFile c = ''''" "cf_Discover c = ''''" "cf_StartJoin c = []" "\<not> cf_SkipLeaveOnInt c"
    using demo_config by blast
  have logs: "\<exists>f lw. setupLoggers demo_sys_env c = ([], f, Some (\<lparr>gw_buf = [], gw_flush = False, gw_out = []\<rparr>, lw, False))"
    using c by (simp add: setupLoggers_def ValidateLevelFilter_def LevelFilter_def filter_levels_def ToUpper_def upper_char_def)
  have agent: "\<exists>ms su a. setupAgent demo_sys_env c = Some (ms, Some (c, su, a))"
    using c demo_addr
    by (simp add: setupAgent_def bind_to_interface_def NetworkInterface_def build_agent_def EncryptBytes_def
        b64_DecodeString_def profile_of_def Agent_Create_def prepend_def Let_def)
  have start: "\<exists>ms a' st. startAgent nat_order demo_sys_env c a lw = Some (ms, a', Some st)" for a lw
    using c demo_addr
    by (simp add: startAgent_def Agent_Start_def Let_def parts_or_zero_def demo_sys_env_def)
  obtain f lw where logs: "setupLoggers demo_sys_env c = ([], f, Some (\<lparr>gw_buf = [], gw_flush = False, gw_out = []\<rparr>, lw, False))"
    using logs by blast
  obtain ms2 su a where agent: "setupAgent demo_sys_env c = Some (ms2, Some (c, su, a))"
    using agent by blast
  obtain ms3 a' st where start: "startAgent nat_order demo_sys_env c a lw = Some (ms3, a', Some st)"
    using start by blast
  have safe: "shutdown_safe (ip_agent (st_ipc st))"
    using setupAgent_parts [OF agent] startAgent_parts [OF start] by simp
  define cs where "cs = \<lparr>cs_config = c, cs_filter = f, cs_scripts = st_scripts st, cs_agent = ip_agent (st_ipc st),
      cs_files = se_files demo_sys_env, cs_tags = serf_tags (ip_agent (st_ipc st))\<rparr>"
  have "\<exists>m. handleSignals (se_json demo_sys_env) (\<lambda>m. None) demo_args [WInterrupt :: (Config, nat) wake] [LLeft None] cs = Ret ((m, Some 0), cs)"
    using c(15) by (simp add: cs_def exit_on_def prepend_def Agent_Leave_def)
  with run_deferred_safe [OF safe, of None "Some 0" True "Some (st_ipc st)"]
  have "\<exists>msgs r. run_started demo_sys_env (\<lambda>m. None) None demo_args c f st [WInterrupt :: (Config, nat) wake] [LLeft None] = Ret (msgs, r) \<and>
      re_code r = Some 0"
    using c(14) by (auto simp: run_started_def startupJoin_def cs_def)
  then show ?thesis
    using c(1,4,5) logs agent start
    by (auto simp: Command_Run_def run_configured_def metric_sinks_def prepend_def)
qed

theorem run_cleans_up_witness:
  "\<exists>msgs r config. Command_Run demo_sys_env demo_cmd_env nat_order (\<lambda>m. None) None demo_args [WInterrupt] [LLeft None] = Some (Ret (msgs, r)) \<and>
     re_code r = Some 0 \<and> clean_end demo_sys_env nat_order config None msgs r"
proof -
  obtain msgs r where r: "Command_Run demo_sys_env demo_cmd_env nat_order (\<lambda>m. None) None demo_args [WInterrupt] [LLeft None] = Some (Ret (msgs, r))"
      "re_code r = Some 0"
    using demo_run by blast
  obtain ms c where "readConfig demo_cmd_env demo_args = Ret (ms, Some c)"
    using demo_config by blast
  with run_cleans_up [OF r(1)] r show ?thesis by (auto split: option.splits)
qed

end
