(* ===== verification/Mdns.thy ===== *)
theory Mdns
  imports Agent
begin

text \<open>
  Finding other agents by multicast DNS: \<^verbatim>\<open>command/agent/mdns.go\<close>. The loop receives host
  addresses, collects those it has not handled before, and joins them once no new one came for a quiet
  interval; polls repeat for ever. The mdns library and the timers are the environment: a step is one turn
  of the select, and the result of a join comes with the step that makes it.
\<close>

section \<open>The model\<close>

definition mdnsPollInterval :: duration where "mdnsPollInterval = 60000000000"
definition mdnsQuietInterval :: duration where "mdnsQuietInterval = 100000000"

definition mdnsName :: "string \<Rightarrow> string" where
  "mdnsName discover = ''_serf_'' @ discover @ ''._tcp''"

text \<open>\<open>md_quiet\<close> says whether the quiet timer is pending: a timer that fired does not fire again.\<close>

record mdns =
  md_discover :: string
  md_replay :: bool
  md_seen :: "string set"
  md_join :: "string list"
  md_quiet :: bool

text \<open>\<open>service\<close> and \<open>server\<close> are the errors of the library's two constructors.\<close>

definition NewAgentMDNS :: "string option \<Rightarrow> string option \<Rightarrow> bool \<Rightarrow> string \<Rightarrow> string + mdns" where
  "NewAgentMDNS service server replay discover =
     (case service of
        Some err \<Rightarrow> Inl err
      | None \<Rightarrow>
          (case server of
             Some err \<Rightarrow> Inl err
           | None \<Rightarrow> Inr \<lparr>md_discover = discover, md_replay = replay, md_seen = {}, md_join = [], md_quiet = False\<rparr>))"

datatype mdns_act = MHost string | MQuiet "int \<times> string option" | MPoll

text \<open>What a step does to the world: a call of the agent's join (addresses, replay), lines in the log, a
  poll for the service name.\<close>

record mdns_out =
  mo_join :: "(string list \<times> bool) option"
  mo_log :: "string list"
  mo_poll :: "string option"

definition quiet_out :: mdns_out where
  "quiet_out = \<lparr>mo_join = None, mo_log = [], mo_poll = None\<rparr>"

text \<open>A step that cannot be taken is \<open>None\<close>.\<close>

fun mdns_step :: "mdns_act \<Rightarrow> mdns \<Rightarrow> (mdns_out \<times> mdns) option" where
  "mdns_step (MHost addrS) m =
     (if addrS \<in> md_seen m then Some (quiet_out, m)
      else Some (quiet_out, m\<lparr>md_join := md_join m @ [addrS], md_quiet := True\<rparr>))"
| "mdns_step (MQuiet result) m =
     (if \<not> md_quiet m then None
      else
        (let (n, err) = Agent_Join (\<lambda>addrs replay. result) (md_join m) (md_replay m);
             logs = (case err of None \<Rightarrow> [] | Some e \<Rightarrow> [''[ERR] agent.mdns: Failed to join: '' @ e]) @
               (if 0 < n then [''[INFO] agent.mdns: Joined '' @ show_int n @ '' hosts''] else [])
         in Some (quiet_out\<lparr>mo_join := Some (md_join m, md_replay m), mo_log := logs\<rparr>,
                  m\<lparr>md_seen := md_seen m \<union> set (md_join m), md_join := [], md_quiet := False\<rparr>)))"
| "mdns_step MPoll m = Some (quiet_out\<lparr>mo_poll := Some (mdnsName (md_discover m))\<rparr>, m)"

fun mdns_run :: "mdns_act list \<Rightarrow> mdns \<Rightarrow> (mdns_out list \<times> mdns) option" where
  "mdns_run [] m = Some ([], m)"
| "mdns_run (a # as) m =
     Option.bind (mdns_step a m) (\<lambda>(o1, m1). Option.bind (mdns_run as m1) (\<lambda>(os, m2). Some (o1 # os, m2)))"

section \<open>Every host is joined in one batch\<close>

definition join_batches :: "mdns_out list \<Rightarrow> string list list" where
  "join_batches outs = concat (map (\<lambda>r. case mo_join r of None \<Rightarrow> [] | Some (addrs, replay) \<Rightarrow> [addrs]) outs)"

definition hosts_of :: "mdns_act list \<Rightarrow> string set" where
  "hosts_of as = {h. MHost h \<in> set as}"

lemma join_batches_simps [simp]:
  "join_batches [] = []"
  "mo_join r = None \<Longrightarrow> join_batches (r # rs) = join_batches rs"
  "mo_join r = Some (addrs, replay) \<Longrightarrow> join_batches (r # rs) = addrs # join_batches rs"
  by (simp_all add: join_batches_def)

lemma hosts_of_simps [simp]:
  "hosts_of [] = {}" "hosts_of (MHost h # as) = insert h (hosts_of as)"
  "hosts_of (MQuiet r # as) = hosts_of as" "hosts_of (MPoll # as) = hosts_of as"
  by (auto simp: hosts_of_def)

definition mdns_inv :: "mdns \<Rightarrow> bool" where
  "mdns_inv m \<longleftrightarrow> md_seen m \<inter> set (md_join m) = {} \<and> (md_quiet m \<longleftrightarrow> md_join m \<noteq> [])"

definition disjoint_batches :: "string set \<Rightarrow> string list list \<Rightarrow> bool" where
  "disjoint_batches seen bs \<longleftrightarrow>
     (\<forall>b \<in> set bs. b \<noteq> [] \<and> set b \<inter> seen = {}) \<and>
     (\<forall>i j. i < j \<and> j < length bs \<longrightarrow> set (bs ! i) \<inter> set (bs ! j) = {})"

lemma disjoint_batches_Cons:
  "b \<noteq> [] \<Longrightarrow> set b \<inter> seen = {} \<Longrightarrow> disjoint_batches (seen \<union> set b) bs \<Longrightarrow> disjoint_batches seen (b # bs)"
  unfolding disjoint_batches_def
  by (auto simp: nth_Cons' disjoint_iff split: if_splits) (metis Suc_pred less_Suc_eq_0_disj nth_mem not_less_eq)+

lemma mdns_run_batches:
  assumes "mdns_run as m = Some (outs, m')" and "mdns_inv m"
  shows "mdns_inv m' \<and> md_discover m' = md_discover m \<and>
    disjoint_batches (md_seen m) (join_batches outs) \<and>
    md_seen m' = md_seen m \<union> (\<Union>b \<in> set (join_batches outs). set b) \<and>
    md_seen m' \<union> set (md_join m') = md_seen m \<union> set (md_join m) \<union> hosts_of as"
  using assms
proof (induction as arbitrary: m outs)
  case Nil
  then show ?case by (auto simp: disjoint_batches_def)
next
  case (Cons a as)
  obtain o1 m1 os where st: "mdns_step a m = Some (o1, m1)" and run: "mdns_run as m1 = Some (os, m')" and outs: "outs = o1 # os"
    using Cons.prems(1) by (auto simp: bind_eq_Some_conv)
  show ?case
  proof (cases a)
    case (MHost h)
    then have "mdns_inv m1" and q: "mo_join o1 = None" "md_discover m1 = md_discover m" "md_seen m1 = md_seen m"
        "md_seen m1 \<union> set (md_join m1) = md_seen m \<union> set (md_join m) \<union> {h}"
      using st Cons.prems(2) by (auto simp: mdns_inv_def quiet_out_def split: if_splits)
    from Cons.IH [OF run this(1)] q show ?thesis
      unfolding outs MHost by (elim conjE) (intro conjI; simp)
  next
    case MPoll
    then have m1: "m1 = m" and q: "mo_join o1 = None" using st by (auto simp: quiet_out_def)
    with Cons.prems(2) have "mdns_inv m1" by simp
    from Cons.IH [OF run this] q m1 show ?thesis
      unfolding outs MPoll by (elim conjE) (intro conjI; simp)
  next
    case (MQuiet r)
    have q: "md_quiet m" "mo_join o1 = Some (md_join m, md_replay m)"
      "m1 = m\<lparr>md_seen := md_seen m \<union> set (md_join m), md_join := [], md_quiet := False\<rparr>"
      using st MQuiet by (auto simp: Let_def split: if_splits prod.splits)
    then have "mdns_inv m1" by (simp add: mdns_inv_def)
    note ih = Cons.IH [OF run this]
    have ne: "md_join m \<noteq> []" "set (md_join m) \<inter> md_seen m = {}"
      using Cons.prems(2) q(1) by (auto simp: mdns_inv_def)
    have batches: "join_batches outs = md_join m # join_batches os"
      using q(2) by (simp add: outs)
    have "disjoint_batches (md_seen m) (join_batches outs)"
      unfolding batches using ne ih q(3) by (intro disjoint_batches_Cons) auto
    then show ?thesis
      using ih q unfolding batches MQuiet by auto
  qed
qed

text \<open>C32. Multicast discovery joins every host in one batch only: in any run of the loop the batches it joins
  are not empty and share no address, so a host whose join failed is not tried again, however often it
  is reported. No reported host is lost: each has been in a batch or waits for the next one, and one waits
  exactly while the quiet timer runs.\<close>

theorem mdns_joins_once:
  assumes "NewAgentMDNS service server replay discover = Inr m" and "mdns_run as m = Some (outs, m')"
  shows "(\<forall>b \<in> set (join_batches outs). b \<noteq> []) \<and>
    (\<forall>i j. i < j \<and> j < length (join_batches outs) \<longrightarrow> set (join_batches outs ! i) \<inter> set (join_batches outs ! j) = {}) \<and>
    hosts_of as = (\<Union>b \<in> set (join_batches outs). set b) \<union> set (md_join m') \<and>
    (md_quiet m' \<longleftrightarrow> md_join m' \<noteq> [])"
proof -
  have m: "mdns_inv m" "md_seen m = {}" "md_join m = []"
    using assms(1) by (auto simp: NewAgentMDNS_def mdns_inv_def split: option.splits)
  from mdns_run_batches [OF assms(2) m(1)] m(2,3) show ?thesis
    by (auto simp: disjoint_batches_def mdns_inv_def)
qed

theorem mdns_joins_once_witness:
  "\<exists>m outs m'. NewAgentMDNS None None False ''c'' = Inr m \<and>
     mdns_run [MPoll, MHost ''a'', MHost ''a'', MQuiet (0, Some ''refused''), MHost ''a'', MHost ''b''] m = Some (outs, m') \<and>
     join_batches outs = [[''a'', ''a'']] \<and> md_join m' = [''b''] \<and> md_quiet m'"
proof -
  let ?as = "[MPoll, MHost ''a'', MHost ''a'', MQuiet (0, Some ''refused''), MHost ''a'', MHost ''b'']"
  define m where "m = \<lparr>md_discover = ''c'', md_replay = False, md_seen = {}, md_join = [], md_quiet = False\<rparr>"
  have new: "NewAgentMDNS None None False ''c'' = Inr m" by (simp add: NewAgentMDNS_def m_def)
  obtain outs m' where run: "mdns_run ?as m = Some (outs, m')" and b: "join_batches outs = [[''a'', ''a'']]" "md_join m' = [''b'']"
    by (simp add: m_def quiet_out_def join_batches_def Agent_Join_def)
  from mdns_joins_once [OF new run] b(2) have "md_quiet m'" by simp
  with new run b show ?thesis by blast
qed

end
