(* ===== verification/Cli.thy ===== *)
theory Cli
  imports CommandConfig Rpc
begin

text \<open>
  The commands that talk to a running agent (\<^verbatim>\<open>command/*.go\<close>): each parses its flags, checks its
  arguments, connects, makes its calls and reports. What connects and calls is a record of
  functions over a state (\<open>link\<close>), so the same command runs over the wire and directly on an agent. The
  environment variables, the help texts, the JSON encoder and the column formatter are an environment
  record. The result of a command is what it tells the user and its exit code.
\<close>

section \<open>Actions\<close>

text \<open>State passing with panics.\<close>

type_synonym ('r, 's) act = "'s \<Rightarrow> ('r \<times> 's) go"
type_synonym 's cmd = "(ui list \<times> int, 's) act"

definition act_ret :: "'r \<Rightarrow> ('r, 's) act" where
  "act_ret r s = Ret (r, s)"

definition act_bind :: "('a, 's) act \<Rightarrow> ('a \<Rightarrow> ('b, 's) act) \<Rightarrow> ('b, 's) act" where
  "act_bind m f s = go_bind (m s) (\<lambda>(r, s'). f r s')"

definition saying :: "ui list \<Rightarrow> 's cmd \<Rightarrow> 's cmd" where
  "saying ms m = act_bind m (\<lambda>(ms', code). act_ret (ms @ ms', code))"

section \<open>Environment, flags and connecting\<close>

record cli_member =
  cm_detail :: bool
  cm_Name :: string
  cm_Addr :: string
  cm_Port :: "16 word"
  cm_Tags :: "string \<rightharpoonup> string"
  cm_Status :: string
  cm_Proto :: "string \<rightharpoonup> byte"

record cli_env =
  cx_rpc_addr :: string
  cx_rpc_auth :: string
  cx_help :: "string \<Rightarrow> string"
  cx_columnize :: "string list \<Rightarrow> string"
  cx_order :: "string set \<Rightarrow> string list"
  cx_quote :: "string \<Rightarrow> string"
  cx_sprintf :: "string \<Rightarrow> string"
  cx_rtt :: "coordinate \<Rightarrow> coordinate \<Rightarrow> string"
  cx_duration :: "string \<Rightarrow> duration option"
  cx_json_members :: "cli_member list \<Rightarrow> string + string"
  cx_json_stats :: "(string \<rightharpoonup> (string \<rightharpoonup> string)) \<Rightarrow> string + string"
  cx_json_apps :: "MicroApp list \<Rightarrow> string + string"
  cx_json_routers :: "Router list \<Rightarrow> string + string"
  cx_json_query :: "string list \<Rightarrow> (string \<rightharpoonup> string) \<Rightarrow> string + string"

text \<open>The two flags that every command has; the commands extend the record by their own.\<close>

record rpc_opts =
  ro_addr :: string
  ro_auth :: string

definition RPCAddrFlag :: "cli_env \<Rightarrow> string" where
  "RPCAddrFlag env = (if cx_rpc_addr env = '''' then ''127.0.0.1:7373'' else cx_rpc_addr env)"

definition RPCAuthFlag :: "cli_env \<Rightarrow> string" where
  "RPCAuthFlag env = cx_rpc_auth env"

definition rpc_flagset :: "'a rpc_opts_scheme flagset" where
  "rpc_flagset = [''rpc-addr'' \<mapsto> StringVar (\<lambda>v p. p\<lparr>ro_addr := v\<rparr>), ''rpc-auth'' \<mapsto> StringVar (\<lambda>v p. p\<lparr>ro_auth := v\<rparr>)]"

definition rpc_defaults :: "cli_env \<Rightarrow> rpc_opts" where
  "rpc_defaults env = \<lparr>ro_addr = RPCAddrFlag env, ro_auth = RPCAuthFlag env\<rparr>"

record 's link =
  lk_connect :: "string \<Rightarrow> string \<Rightarrow> (string option, 's) act"
  lk_call :: "api \<Rightarrow> (string option \<times> reply option, 's) act"
  lk_close :: "(unit, 's) act"

definition with_flags ::
  "cli_env \<Rightarrow> string \<Rightarrow> 'o flagset \<Rightarrow> 'o \<Rightarrow> string list \<Rightarrow> ('o \<Rightarrow> string list \<Rightarrow> 's cmd) \<Rightarrow> 's cmd" where
  "with_flags env name fs defaults args body =
     (case parse_flags fs args defaults of
        Inl e \<Rightarrow> act_ret ([UOutput (cx_help env name)], 1)
      | Inr (opts, rest) \<Rightarrow> body opts rest)"

text \<open>Connecting, the body, and the deferred close.\<close>

definition with_client :: "'s link \<Rightarrow> 'o rpc_opts_scheme \<Rightarrow> 's cmd \<Rightarrow> 's cmd" where
  "with_client lk opts body =
     act_bind (lk_connect lk (ro_addr opts) (ro_auth opts)) (\<lambda>r. case r of
         Some err \<Rightarrow> act_ret ([UError (''Error connecting to Serf agent: '' @ err)], 1)
       | None \<Rightarrow> act_bind body (\<lambda>out. act_bind (lk_close lk) (\<lambda>_. act_ret out)))"

definition usage_error :: "cli_env \<Rightarrow> string \<Rightarrow> string \<Rightarrow> ui list \<times> int" where
  "usage_error env name msg = ([UError msg, UError '''', UError (cx_help env name)], 1)"

text \<open>One call: its error is reported behind a prefix, otherwise the rest runs on its result.\<close>

definition calling :: "'s link \<Rightarrow> api \<Rightarrow> string \<Rightarrow> (reply option \<Rightarrow> 's cmd) \<Rightarrow> 's cmd" where
  "calling lk a msg body =
     act_bind (lk_call lk a) (\<lambda>(err, r). case err of
         Some e \<Rightarrow> act_ret ([UError (msg @ e)], 1)
       | None \<Rightarrow> body r)"

fun result_Stats :: "reply option \<Rightarrow> (string \<rightharpoonup> (string \<rightharpoonup> string))" where
  "result_Stats (Some (RStats m)) = m"
| "result_Stats _ = Map.empty"

fun result_ListMicroApps :: "reply option \<Rightarrow> MicroApp list" where
  "result_ListMicroApps (Some (RMicroApps ms)) = ms"
| "result_ListMicroApps _ = []"

fun result_ListRouters :: "reply option \<Rightarrow> Router list" where
  "result_ListRouters (Some (RRouters rs)) = rs"
| "result_ListRouters _ = []"

section \<open>Output\<close>

definition prepareOutput :: "string \<Rightarrow> string" where
  "prepareOutput s = TrimSpace s"

text \<open>\<open>json\<close> is the encoder's result on the data and \<open>text\<close> its own text.\<close>

definition formatOutput :: "string + string \<Rightarrow> string \<Rightarrow> string \<Rightarrow> string + string" where
  "formatOutput json text format =
     (if format = ''json'' then map_sum id prepareOutput json
      else if format = ''text'' then Inr (prepareOutput text)
      else Inl (''Invalid output format '' @ [CHR 0x22] @ format @ [CHR 0x22]))"

definition show_output :: "string + string \<Rightarrow> ui list \<times> int" where
  "show_output r =
     (case r of Inl err \<Rightarrow> ([UError (''Encoding error: '' @ err)], 1) | Inr out \<Rightarrow> ([UOutput out], 0))"

section \<open>Membership commands\<close>

definition ForceLeave_Run :: "cli_env \<Rightarrow> 's link \<Rightarrow> string list \<Rightarrow> 's cmd" where
  "ForceLeave_Run env lk args =
     with_flags env ''force-leave'' rpc_flagset (rpc_defaults env) args (\<lambda>opts nodes.
       if length nodes \<noteq> 1 then act_ret (usage_error env ''force-leave'' ''A node name must be specified to force leave.'')
       else with_client lk opts
         (calling lk (AForceLeave (nodes ! 0)) ''Error force leaving: '' (\<lambda>_. act_ret ([], 0))))"

record join_opts = rpc_opts +
  jo_replay :: bool

definition Join_Run :: "cli_env \<Rightarrow> 's link \<Rightarrow> string list \<Rightarrow> 's cmd" where
  "Join_Run env lk args =
     with_flags env ''join'' (rpc_flagset(''replay'' \<mapsto> BoolVar (\<lambda>v p. p\<lparr>jo_replay := v\<rparr>)))
       (rpc_opts.extend (rpc_defaults env) (join_opts.fields False)) args (\<lambda>opts addrs.
       if addrs = [] then act_ret (usage_error env ''join'' ''At least one address to join must be specified.'')
       else with_client lk opts
         (calling lk (AJoin addrs (jo_replay opts)) ''Error joining the cluster: '' (\<lambda>r.
            act_ret ([UOutput (''Successfully joined cluster by contacting '' @ show_int (result_Join r) @ '' nodes.'')], 0))))"

definition Leave_Run :: "cli_env \<Rightarrow> 's link \<Rightarrow> string list \<Rightarrow> 's cmd" where
  "Leave_Run env lk args =
     with_flags env ''leave'' rpc_flagset (rpc_defaults env) args (\<lambda>opts rest.
       with_client lk opts
         (calling lk ALeave ''Error leaving: '' (\<lambda>_. act_ret ([UOutput ''Graceful leave complete''], 0))))"

record tags_opts = rpc_opts +
  to_set :: "string list option"
  to_delete :: "string list option"

definition Tags_Run :: "cli_env \<Rightarrow> 's link \<Rightarrow> string list \<Rightarrow> 's cmd" where
  "Tags_Run env lk args =
     with_flags env ''tags''
       (rpc_flagset(''set'' \<mapsto> StringVar (\<lambda>v p. p\<lparr>to_set := AppendSlice_Set v (to_set p)\<rparr>),
                    ''delete'' \<mapsto> StringVar (\<lambda>v p. p\<lparr>to_delete := AppendSlice_Set v (to_delete p)\<rparr>)))
       (rpc_opts.extend (rpc_defaults env) (tags_opts.fields None None)) args (\<lambda>opts rest.
       if slice (to_set opts) = [] \<and> slice (to_delete opts) = [] then act_ret ([UOutput (cx_help env ''tags'')], 1)
       else with_client lk opts
         (case UnmarshalTags (slice (to_set opts)) of
            Inl err \<Rightarrow> act_ret ([UError (''Error: '' @ err)], 1)
          | Inr tags \<Rightarrow>
              calling lk (AUpdateTags tags (slice (to_delete opts))) ''Error setting tags: ''
                (\<lambda>_. act_ret ([UOutput ''Successfully updated agent tags''], 0))))"

record members_opts = rpc_opts +
  mo_detailed :: bool
  mo_role :: string
  mo_status :: string
  mo_format :: string
  mo_tags :: "string list option"
  mo_name :: string

definition TCPAddr_String :: "string \<Rightarrow> nat \<Rightarrow> string" where
  "TCPAddr_String ip port =
     (let host = (if ip = '''' then '''' else ip_String ip)
      in (if CHR '':'' \<in> set host then ''['' @ host @ '']'' else host) @ '':'' @ show_nat port)"

definition to_cli_member :: "bool \<Rightarrow> IpcMember \<Rightarrow> cli_member" where
  "to_cli_member detailed m =
     \<lparr>cm_detail = detailed, cm_Name = im_Name m, cm_Addr = TCPAddr_String (im_Addr m) (unat (im_Port m)),
      cm_Port = im_Port m, cm_Tags = im_Tags m, cm_Status = im_Status m,
      cm_Proto = [''min'' \<mapsto> im_DelegateMin m, ''max'' \<mapsto> im_DelegateMax m, ''version'' \<mapsto> im_DelegateCur m]\<rparr>"

definition proto_number :: "cli_member \<Rightarrow> string \<Rightarrow> string" where
  "proto_number m k = show_nat (case cm_Proto m k of None \<Rightarrow> 0 | Some b \<Rightarrow> unat b)"

definition member_row :: "cli_env \<Rightarrow> cli_member \<Rightarrow> string" where
  "member_row env m =
     (let tags = Join (MarshalTags (cm_Tags m) (cx_order env (dom (cm_Tags m)))) '','';
          line = cm_Name m @ ''|'' @ cm_Addr m @ ''|'' @ cm_Status m @ ''|'' @ tags
      in if cm_detail m
         then line @ ''|Protocol Version: '' @ proto_number m ''version'' @ ''|Available Protocol Range: ['' @
                proto_number m ''min'' @ '', '' @ proto_number m ''max'' @ '']''
         else line)"

definition MemberContainer_String :: "cli_env \<Rightarrow> cli_member list \<Rightarrow> string" where
  "MemberContainer_String env ms = cx_columnize env (map (member_row env) ms)"

definition role_filter :: "members_opts \<Rightarrow> ui list \<times> string list" where
  "role_filter opts =
     (if mo_role opts \<noteq> ''''
      then ([UOutput (''Deprecation warning: '' @ quoted ''Role'' @ '' has been replaced with '' @ quoted ''Tags'')],
            slice (mo_tags opts) @ [''role='' @ mo_role opts])
      else ([], slice (mo_tags opts)))"

definition members_flagset :: "members_opts flagset" where
  "members_flagset =
     rpc_flagset(''detailed'' \<mapsto> BoolVar (\<lambda>v p. p\<lparr>mo_detailed := v\<rparr>), ''role'' \<mapsto> StringVar (\<lambda>v p. p\<lparr>mo_role := v\<rparr>),
       ''status'' \<mapsto> StringVar (\<lambda>v p. p\<lparr>mo_status := v\<rparr>), ''format'' \<mapsto> StringVar (\<lambda>v p. p\<lparr>mo_format := v\<rparr>),
       ''tag'' \<mapsto> StringVar (\<lambda>v p. p\<lparr>mo_tags := AppendSlice_Set v (mo_tags p)\<rparr>),
       ''name'' \<mapsto> StringVar (\<lambda>v p. p\<lparr>mo_name := v\<rparr>))"

definition Members_Run :: "cli_env \<Rightarrow> 's link \<Rightarrow> string list \<Rightarrow> 's cmd" where
  "Members_Run env lk args =
     with_flags env ''members'' members_flagset
       (rpc_opts.extend (rpc_defaults env) (members_opts.fields False '''' '''' ''text'' None '''')) args (\<lambda>opts rest.
       saying (fst (role_filter opts))
         (case UnmarshalTags (snd (role_filter opts)) of
            Inl err \<Rightarrow> act_ret ([UError (''Error: '' @ err)], 1)
          | Inr reqtags \<Rightarrow>
              with_client lk opts
                (calling lk (AMembersFiltered reqtags (mo_status opts) (mo_name opts)) ''Error retrieving members: '' (\<lambda>r.
                   let result = map (to_cli_member (mo_detailed opts)) (result_Members r)
                   in act_ret (show_output (formatOutput (cx_json_members env result) (MemberContainer_String env result)
                        (mo_format opts)))))))"

section \<open>Events, information, routing tables\<close>

record event_opts = rpc_opts +
  eo_coalesce :: bool

text \<open>A missing payload is the empty one.\<close>

definition Event_Run :: "cli_env \<Rightarrow> 's link \<Rightarrow> string list \<Rightarrow> 's cmd" where
  "Event_Run env lk args =
     with_flags env ''event'' (rpc_flagset(''coalesce'' \<mapsto> BoolVar (\<lambda>v p. p\<lparr>eo_coalesce := v\<rparr>)))
       (rpc_opts.extend (rpc_defaults env) (event_opts.fields True)) args (\<lambda>opts rest.
       if length rest < 1 then act_ret (usage_error env ''event'' ''An event name must be specified.'')
       else if 2 < length rest then
         act_ret (usage_error env ''event'' ''Too many command line arguments. Only a name and payload must be specified.'')
       else
         (let event = rest ! 0; payload = (if length rest = 2 then rest ! 1 else '''') in
          with_client lk opts
            (calling lk (AUserEvent event payload (eo_coalesce opts)) ''Error sending event: '' (\<lambda>_.
               act_ret ([UOutput (''Event '' @ quoted event @ '' dispatched! Coalescing enabled: '' @
                          (if eo_coalesce opts then ''true'' else ''false''))], 0)))))"

record info_opts = rpc_opts +
  io_format :: string

text \<open>Both levels in sorted order.\<close>

definition StatsContainer_String :: "cli_env \<Rightarrow> (string \<rightharpoonup> (string \<rightharpoonup> string)) \<Rightarrow> string" where
  "StatsContainer_String env s =
     concat (map (\<lambda>key.
       cx_sprintf env (key @ '':'' @ [CHR 0x0A]) @
       (case s key of
          None \<Rightarrow> []
        | Some subvals \<Rightarrow>
            concat (map (\<lambda>subkey. [CHR 0x09] @ subkey @ '' = '' @ (case subvals subkey of None \<Rightarrow> '''' | Some v \<Rightarrow> v) @ [CHR 0x0A])
              (sort (cx_order env (dom subvals))))))
       (sort (cx_order env (dom s))))"

definition Info_Run :: "cli_env \<Rightarrow> 's link \<Rightarrow> string list \<Rightarrow> 's cmd" where
  "Info_Run env lk args =
     with_flags env ''info'' (rpc_flagset(''format'' \<mapsto> StringVar (\<lambda>v p. p\<lparr>io_format := v\<rparr>)))
       (rpc_opts.extend (rpc_defaults env) (info_opts.fields ''text'')) args (\<lambda>opts rest.
       with_client lk opts
         (calling lk AStats ''Error querying agent: '' (\<lambda>r.
            let stats = result_Stats r
            in act_ret (show_output (formatOutput (cx_json_stats env stats) (StatsContainer_String env stats) (io_format opts))))))"

definition Apps_Run :: "cli_env \<Rightarrow> 's link \<Rightarrow> string list \<Rightarrow> 's cmd" where
  "Apps_Run env lk args =
     with_flags env ''apps'' rpc_flagset (rpc_defaults env) args (\<lambda>opts rest.
       with_client lk opts
         (calling lk AListMicroApps ''Error querying agent: '' (\<lambda>r.
            act_ret (show_output (formatOutput (cx_json_apps env (result_ListMicroApps r)) '''' ''json'')))))"

definition Routers_Run :: "cli_env \<Rightarrow> 's link \<Rightarrow> string list \<Rightarrow> 's cmd" where
  "Routers_Run env lk args =
     with_flags env ''routers'' rpc_flagset (rpc_defaults env) args (\<lambda>opts rest.
       with_client lk opts
         (calling lk AListRouters ''Error querying agent: '' (\<lambda>r.
            act_ret (show_output (formatOutput (cx_json_routers env (result_ListRouters r)) '''' ''json'')))))"

text \<open>The node whose name is missing is the agent's own.\<close>

definition stat_of :: "(string \<rightharpoonup> (string \<rightharpoonup> string)) \<Rightarrow> string \<Rightarrow> string \<Rightarrow> string" where
  "stat_of stats k sub =
     (case stats k of None \<Rightarrow> '''' | Some m \<Rightarrow> (case m sub of None \<Rightarrow> '''' | Some v \<Rightarrow> v))"

definition get_coordinate :: "cli_env \<Rightarrow> 's link \<Rightarrow> string \<Rightarrow> (coordinate \<Rightarrow> 's cmd) \<Rightarrow> 's cmd" where
  "get_coordinate env lk node body =
     act_bind (lk_call lk (AGetCoordinate node)) (\<lambda>r. case result_GetCoordinate r of
         Inl err \<Rightarrow> act_ret ([UError (''Error getting coordinates: '' @ err)], 1)
       | Inr None \<Rightarrow> act_ret ([UError (''Could not find a coordinate for node '' @ cx_quote env node)], 1)
       | Inr (Some co) \<Rightarrow> body co)"

definition rtt_report :: "cli_env \<Rightarrow> 's link \<Rightarrow> string \<Rightarrow> string \<Rightarrow> 's cmd" where
  "rtt_report env lk node1 node2 =
     get_coordinate env lk node1 (\<lambda>coord1.
     get_coordinate env lk node2 (\<lambda>coord2.
       act_ret ([UOutput (''Estimated '' @ node1 @ '' <-> '' @ node2 @ '' rtt: '' @ cx_rtt env coord1 coord2)], 0)))"

definition RTT_Run :: "cli_env \<Rightarrow> 's link \<Rightarrow> string list \<Rightarrow> 's cmd" where
  "RTT_Run env lk args =
     with_flags env ''rtt'' rpc_flagset (rpc_defaults env) args (\<lambda>opts nodes.
       with_client lk opts
         (if length nodes = 1 then
            calling lk AStats ''Error querying agent: '' (\<lambda>r.
              rtt_report env lk (nodes ! 0) (stat_of (result_Stats r) ''agent'' ''name''))
          else if length nodes \<noteq> 2 then act_ret (usage_error env ''rtt'' ''One or two node names must be specified'')
          else rtt_report env lk (nodes ! 0) (nodes ! 1)))"

section \<open>Keys\<close>

record keys_opts = rpc_opts +
  ko_install :: string
  ko_use :: string
  ko_remove :: string
  ko_list :: bool

definition keys_flagset :: "keys_opts flagset" where
  "keys_flagset =
     rpc_flagset(''install'' \<mapsto> StringVar (\<lambda>v p. p\<lparr>ko_install := v\<rparr>), ''use'' \<mapsto> StringVar (\<lambda>v p. p\<lparr>ko_use := v\<rparr>),
       ''remove'' \<mapsto> StringVar (\<lambda>v p. p\<lparr>ko_remove := v\<rparr>), ''list'' \<mapsto> BoolVar (\<lambda>v p. p\<lparr>ko_list := v\<rparr>))"

text \<open>The loop over the key arguments: \<open>None\<close> when a second action is found, otherwise whether there was one.\<close>

fun actions_found :: "bool \<Rightarrow> string list \<Rightarrow> bool option" where
  "actions_found found [] = Some found"
| "actions_found found (arg # args) =
     (if found \<and> 0 < length arg then None else actions_found (found \<or> 0 < length arg) args)"

text \<open>Information lines of this command carry a prefix.\<close>

definition key_info :: "string \<Rightarrow> ui" where
  "key_info s = UInfo (''==> '' @ s)"

definition failure_table :: "cli_env \<Rightarrow> (string \<rightharpoonup> string) \<Rightarrow> ui list" where
  "failure_table env failures =
     (let nodes = cx_order env (dom failures) in
      if nodes = [] then []
      else [UError (cx_columnize env (map (\<lambda>node. ''failed: | '' @ node @ '' | '' @ (case failures node of None \<Rightarrow> '''' | Some m \<Rightarrow> m)) nodes))])"

definition key_action :: "cli_env \<Rightarrow> 's link \<Rightarrow> api \<Rightarrow> string \<Rightarrow> string \<Rightarrow> string \<Rightarrow> 's cmd" where
  "key_action env lk a start failed done_msg =
     act_bind (lk_call lk a) (\<lambda>(err, r). case err of
         Some e \<Rightarrow>
           act_ret ([key_info start] @ failure_table env (result_Messages r) @ [UError '''', UError (failed @ e)], 1)
       | None \<Rightarrow> act_ret ([key_info start, key_info done_msg], 0))"

definition list_keys :: "cli_env \<Rightarrow> 's link \<Rightarrow> 's cmd" where
  "list_keys env lk =
     act_bind (lk_call lk AListKeys) (\<lambda>(err, r).
       let (keys, total, failures) = result_ListKeys r; start = key_info ''Asking all members for installed keys...'' in
       case err of
         Some e \<Rightarrow> act_ret ([start] @ failure_table env failures @ [UError '''', UError (''Failed to gather member keys: '' @ e)], 1)
       | None \<Rightarrow>
           act_ret ([start, key_info ''Keys gathered, listing cluster keys...'', UOutput '''',
             UOutput (cx_columnize env (map (\<lambda>key. key @ '' | ['' @ show_int (case keys key of None \<Rightarrow> 0 | Some n \<Rightarrow> n) @ ''/'' @ show_int total @ '']'')
               (cx_order env (dom keys))))], 0))"

definition Keys_Run :: "cli_env \<Rightarrow> 's link \<Rightarrow> string list \<Rightarrow> 's cmd" where
  "Keys_Run env lk args =
     with_flags env ''keys'' keys_flagset (rpc_opts.extend (rpc_defaults env) (keys_opts.fields '''' '''' '''' False)) args (\<lambda>opts rest.
       case actions_found (ko_list opts) [ko_install opts, ko_use opts, ko_remove opts] of
         None \<Rightarrow> act_ret ([UError ''Only one of -install, -use, -remove, or -list allowed''], 1)
       | Some found \<Rightarrow>
           if \<not> found then act_ret ([UError (cx_help env ''keys'')], 1)
           else with_client lk opts
             (if ko_list opts then list_keys env lk
              else if ko_install opts \<noteq> '''' then
                key_action env lk (AInstallKey (ko_install opts)) ''Installing key on all members...'' ''Error installing key: ''
                  ''Successfully installed key!''
              else if ko_use opts \<noteq> '''' then
                key_action env lk (AUseKey (ko_use opts)) ''Changing primary key on all members...'' ''Error changing primary key: ''
                  ''Successfully changed primary key!''
              else if ko_remove opts \<noteq> '''' then
                key_action env lk (ARemoveKey (ko_remove opts)) ''Removing key on all members...'' ''Error removing key: ''
                  ''Successfully removed key!''
              else act_ret ([], 0)))"

section \<open>Commands without an agent\<close>

definition Version_Run :: "string \<Rightarrow> string \<Rightarrow> string \<Rightarrow> string \<Rightarrow> int \<Rightarrow> int \<Rightarrow> ui list \<times> int" where
  "Version_Run revision bluedVer serfVer prerelease protocolMax protocolMin =
     ([UOutput (''Blued v'' @ bluedVer @ [CHR 0x0A] @ ''Serf v'' @ serfVer @
         (if prerelease \<noteq> '''' then ''.'' @ prerelease @ (if revision \<noteq> '''' then '' ('' @ revision @ '')'' else '''') else '''')),
       UOutput (''Agent Protocol: '' @ show_int protocolMax @ '' (Understands back to: '' @ show_int protocolMin @ '')'')], 0)"

text \<open>\<open>rand\<close> is what the random source yields for 16 bytes.\<close>

definition Keygen_Run :: "string + string \<Rightarrow> ui list \<times> int" where
  "Keygen_Run rand =
     (case rand of
        Inl err \<Rightarrow> ([UError (''Error reading random data: '' @ err)], 1)
      | Inr key \<Rightarrow>
          if length key \<noteq> 16 then ([UError (''Couldn'' @ [CHR 0x27] @ ''t read enough entropy. Generate more entropy!'')], 1)
          else ([UOutput (b64_EncodeToString key)], 0))"

section \<open>The command line\<close>

text \<open>\<^verbatim>\<open>realMain\<close>: a version flag anywhere makes the command \<^verbatim>\<open>version\<close>.\<close>

definition main_args :: "string list \<Rightarrow> string list" where
  "main_args args = (if list_ex (\<lambda>arg. arg = ''-v'' \<or> arg = ''--version'') args then ''version'' # args else args)"

text \<open>Eleven entries of the table, the commands that connect to one agent and make plain calls; the others, of which \<^verbatim>\<open>query\<close>, \<^verbatim>\<open>monitor\<close>,
  \<^verbatim>\<open>reachability\<close> and \<^verbatim>\<open>sync\<close> also make calls, join them in the theory of the whole table, \<open>CliTable\<close>.\<close>

definition Commands :: "cli_env \<Rightarrow> 's link \<Rightarrow> (string \<times> (string list \<Rightarrow> 's cmd)) list" where
  "Commands env lk =
     [(''event'', Event_Run env lk), (''force-leave'', ForceLeave_Run env lk), (''join'', Join_Run env lk),
      (''keys'', Keys_Run env lk), (''apps'', Apps_Run env lk), (''routers'', Routers_Run env lk),
      (''leave'', Leave_Run env lk), (''members'', Members_Run env lk), (''tags'', Tags_Run env lk),
      (''rtt'', RTT_Run env lk), (''info'', Info_Run env lk)]"

end
