(* ===== verification/CliErrors.thy ===== *)
theory CliErrors
  imports Cli
begin

text \<open>
  What the eleven commands of \<open>Commands\<close>, those that connect to one agent and make plain calls, tell the user of failures: every command is run on a link that is
  watched, which records the errors that connecting and the calls gave. The rules below follow the
  composition of the commands, so each command is one introduction. The commands \<^verbatim>\<open>query\<close>, \<^verbatim>\<open>monitor\<close>, \<^verbatim>\<open>reachability\<close> and \<^verbatim>\<open>sync\<close>,
  which also make calls, are not among them.
\<close>

section \<open>Watching a link\<close>

definition noted :: "('s \<Rightarrow> ('r \<times> 's) go) \<Rightarrow> ('r \<Rightarrow> string option) \<Rightarrow> ('r, 's \<times> string list) act" where
  "noted m err = (\<lambda>(s, errs). go_bind (m s) (\<lambda>(r, s'). Ret (r, (s', errs @ (case err r of None \<Rightarrow> [] | Some e \<Rightarrow> [e])))))"

definition watched :: "'s link \<Rightarrow> ('s \<times> string list) link" where
  "watched lk =
     \<lparr>lk_connect = (\<lambda>addr auth. noted (lk_connect lk addr auth) id), lk_call = (\<lambda>a. noted (lk_call lk a) fst),
      lk_close = noted (lk_close lk) (\<lambda>_. None)\<rparr>"

lemma watched_connect: "lk_connect (watched lk) addr auth = noted (lk_connect lk addr auth) id"
  by (simp add: watched_def)

text \<open>Success says nothing of errors, failure shows an error or the help.\<close>

definition reported :: "string \<Rightarrow> ui list \<times> int \<Rightarrow> bool" where
  "reported help out \<longleftrightarrow>
     (if snd out = 0 then \<forall>m. UError m \<notin> set (fst out)
      else snd out = 1 \<and> ((\<exists>m. UError m \<in> set (fst out)) \<or> UOutput help \<in> set (fst out)))"

definition tells :: "ui list \<times> int \<Rightarrow> string list \<Rightarrow> bool" where
  "tells out errs \<longleftrightarrow> (snd out = 0 \<longrightarrow> errs = []) \<and> (\<forall>e \<in> set errs. \<exists>p. UError (p @ e) \<in> set (fst out))"

definition reporting :: "string \<Rightarrow> ('s \<times> string list) cmd \<Rightarrow> bool" where
  "reporting help m \<longleftrightarrow>
     (\<forall>s errs out s' errs'. m (s, errs) = Ret (out, (s', errs')) \<longrightarrow>
        reported help out \<and> (\<exists>new. errs' = errs @ new \<and> tells out new))"

lemma reportingI:
  assumes "\<And>s errs out s' errs'. m (s, errs) = Ret (out, (s', errs')) \<Longrightarrow>
    reported help out \<and> (\<exists>new. errs' = errs @ new \<and> tells out new)"
  shows "reporting help m"
  using assms unfolding reporting_def by blast

lemma reportingD:
  assumes "reporting help m" and "m (s, errs) = Ret (out, (s', errs'))"
  shows "reported help out \<and> (\<exists>new. errs' = errs @ new \<and> tells out new)"
  using assms unfolding reporting_def by blast

lemma bind_noted:
  "act_bind (noted m err) f (s, errs) = Ret (out, w) \<longleftrightarrow>
    (\<exists>r s1. m s = Ret (r, s1) \<and> f r (s1, errs @ (case err r of None \<Rightarrow> [] | Some e \<Rightarrow> [e])) = Ret (out, w))"
  by (auto simp: act_bind_def noted_def go_bind_eq_Ret)

lemma reporting_ret: "reported help out \<Longrightarrow> reporting help (act_ret out)"
  by (rule reportingI) (auto simp: act_ret_def tells_def)

lemma reporting_if: "(b \<Longrightarrow> reporting help m) \<Longrightarrow> (\<not> b \<Longrightarrow> reporting help n) \<Longrightarrow> reporting help (if b then m else n)"
  by simp

lemma reporting_sum:
  "(\<And>e. reporting help (f e)) \<Longrightarrow> (\<And>x. reporting help (g x)) \<Longrightarrow> reporting help (case u of Inl e \<Rightarrow> f e | Inr x \<Rightarrow> g x)"
  by (cases u) simp_all

lemma reporting_option:
  "reporting help f \<Longrightarrow> (\<And>x. reporting help (g x)) \<Longrightarrow> reporting help (case u of None \<Rightarrow> f | Some x \<Rightarrow> g x)"
  by (cases u) simp_all

lemma reporting_saying:
  assumes "reporting help m" and "\<And>e. UError e \<notin> set ms"
  shows "reporting help (saying ms m)"
proof (rule reportingI)
  fix s errs out s' errs'
  assume "saying ms m (s, errs) = Ret (out, (s', errs'))"
  then obtain ms' code where m: "m (s, errs) = Ret ((ms', code), (s', errs'))" and out: "out = (ms @ ms', code)"
    by (auto simp: saying_def act_bind_def act_ret_def go_bind_eq_Ret)
  from reportingD [OF assms(1) m] assms(2) show "reported help out \<and> (\<exists>new. errs' = errs @ new \<and> tells out new)"
    unfolding out reported_def tells_def by (auto split: if_splits)
qed

lemma reporting_flags:
  "help = cx_help env name \<Longrightarrow> (\<And>opts rest. reporting help (f opts rest)) \<Longrightarrow> reporting help (with_flags env name fs defaults args f)"
  by (auto simp: with_flags_def reported_def intro: reporting_ret split: sum.splits)

lemma reporting_close:
  assumes "reporting help m"
  shows "reporting help (act_bind m (\<lambda>out. act_bind (lk_close (watched lk)) (\<lambda>_. act_ret out)))"
proof (rule reportingI)
  fix s errs out s' errs'
  assume "act_bind m (\<lambda>out. act_bind (lk_close (watched lk)) (\<lambda>_. act_ret out)) (s, errs) = Ret (out, (s', errs'))"
  then obtain s1 where "m (s, errs) = Ret (out, (s1, errs'))"
    by (auto simp: act_bind_def act_ret_def watched_def noted_def go_bind_eq_Ret)
  from reportingD [OF assms this] show "reported help out \<and> (\<exists>new. errs' = errs @ new \<and> tells out new)" .
qed

text \<open>An operation of the link whose error, if any, is reported.\<close>

lemma reporting_noted:
  assumes "\<And>r. err r = None \<Longrightarrow> reporting help (f r)"
    and "\<And>r e. err r = Some e \<Longrightarrow> \<exists>ms p. f r = act_ret (ms, 1) \<and> UError (p @ e) \<in> set ms"
  shows "reporting help (act_bind (noted m err) f)"
proof (rule reportingI)
  fix s errs out s' errs'
  assume "act_bind (noted m err) f (s, errs) = Ret (out, (s', errs'))"
  then obtain r s1 where
    rest: "f r (s1, errs @ (case err r of None \<Rightarrow> [] | Some e \<Rightarrow> [e])) = Ret (out, (s', errs'))"
    by (auto simp: bind_noted)
  show "reported help out \<and> (\<exists>new. errs' = errs @ new \<and> tells out new)"
  proof (cases "err r")
    case None
    then show ?thesis
      using reportingD [OF assms(1) [OF None]] rest by simp
  next
    case (Some e)
    from assms(2) [OF Some] obtain ms p where "f r = act_ret (ms, 1)" "UError (p @ e) \<in> set ms" by blast
    with Some rest show ?thesis
      by (auto simp: act_ret_def reported_def tells_def)
  qed
qed

lemma reporting_call:
  assumes "\<And>r. reporting help (f (None, r))"
    and "\<And>e r. \<exists>ms p. f (Some e, r) = act_ret (ms, 1) \<and> UError (p @ e) \<in> set ms"
  shows "reporting help (act_bind (lk_call (watched lk) a) f)"
proof -
  have "reporting help (act_bind (noted (lk_call lk a) fst) f)"
    using assms by (intro reporting_noted) auto
  then show ?thesis by (simp add: watched_def)
qed

lemma reporting_client:
  assumes "reporting help m"
  shows "reporting help (with_client (watched lk) opts m)"
proof -
  have "reporting help (act_bind (noted (lk_connect lk (ro_addr opts) (ro_auth opts)) id)
      (\<lambda>r. case r of Some err \<Rightarrow> act_ret ([UError (''Error connecting to Serf agent: '' @ err)], 1)
         | None \<Rightarrow> act_bind m (\<lambda>out. act_bind (lk_close (watched lk)) (\<lambda>_. act_ret out))))"
    using reporting_close [OF assms, of lk]
    by (intro reporting_noted) (auto intro: exI [of _ "[UError (''Error connecting to Serf agent: '' @ _)]"])
  then show ?thesis by (simp add: with_client_def watched_connect)
qed

lemma reporting_calling:
  "(\<And>r. reporting help (f r)) \<Longrightarrow> reporting help (calling (watched lk) a msg f)"
  unfolding calling_def by (rule reporting_call) auto

lemmas reporting_rules = reporting_flags reporting_client reporting_calling reporting_if reporting_sum reporting_option
  reporting_ret

section \<open>The commands\<close>

lemma usage_error_reported: "reported help (usage_error env name msg)"
  by (auto simp: reported_def usage_error_def)

lemma show_output_reported: "reported help (show_output r)"
  by (cases r) (auto simp: reported_def show_output_def)

lemma reported_simps [simp]:
  "reported help (ms, 0) \<longleftrightarrow> (\<forall>m. UError m \<notin> set ms)"
  "reported help (ms, 1) \<longleftrightarrow> (\<exists>m. UError m \<in> set ms) \<or> UOutput help \<in> set ms"
  by (simp_all add: reported_def)

lemma reporting_coordinate:
  "(\<And>co. reporting help (f co)) \<Longrightarrow> reporting help (get_coordinate env (watched lk) node f)"
  unfolding get_coordinate_def
  by (rule reporting_call) (auto intro!: reporting_ret split: sum.splits option.splits)

lemma reporting_rtt_report: "reporting help (rtt_report env (watched lk) a b)"
  unfolding rtt_report_def by (intro reporting_coordinate reporting_ret) simp

lemma failure_table_messages: "ui \<in> set (failure_table env fs) \<Longrightarrow> \<exists>m. ui = UError m"
  by (auto simp: failure_table_def Let_def split: if_splits)

lemma failing:
  "UError (p @ e) \<in> set ms \<Longrightarrow> \<exists>ms'. act_ret (ms, 1 :: int) = act_ret (ms', 1) \<and> (\<exists>p. UError (p @ e) \<in> set ms')"
  by blast

lemma reporting_key_action: "reporting help (key_action env (watched lk) a s1 s2 s3)"
  unfolding key_action_def by (rule reporting_call) (auto simp: key_info_def intro!: reporting_ret failing [where p = s2])

lemma reporting_list_keys: "reporting help (list_keys env (watched lk))"
  unfolding list_keys_def
  by (rule reporting_call) (auto simp: key_info_def Let_def intro!: reporting_ret failing [where p = "''Failed to gather member keys: ''"]
      split: prod.splits)

lemma reporting_commands:
  "reporting (cx_help env ''force-leave'') (ForceLeave_Run env (watched lk) args)"
  "reporting (cx_help env ''join'') (Join_Run env (watched lk) args)"
  "reporting (cx_help env ''leave'') (Leave_Run env (watched lk) args)"
  "reporting (cx_help env ''tags'') (Tags_Run env (watched lk) args)"
  "reporting (cx_help env ''members'') (Members_Run env (watched lk) args)"
  "reporting (cx_help env ''event'') (Event_Run env (watched lk) args)"
  "reporting (cx_help env ''info'') (Info_Run env (watched lk) args)"
  "reporting (cx_help env ''apps'') (Apps_Run env (watched lk) args)"
  "reporting (cx_help env ''routers'') (Routers_Run env (watched lk) args)"
  "reporting (cx_help env ''rtt'') (RTT_Run env (watched lk) args)"
  "reporting (cx_help env ''keys'') (Keys_Run env (watched lk) args)"
  unfolding ForceLeave_Run_def Join_Run_def Leave_Run_def Tags_Run_def Members_Run_def Event_Run_def Info_Run_def
    Apps_Run_def Routers_Run_def RTT_Run_def Keys_Run_def Let_def
  by (intro reporting_rules reporting_saying reporting_rtt_report reporting_key_action reporting_list_keys
      usage_error_reported show_output_reported refl; simp add: role_filter_def)+

section \<open>Properties\<close>

text \<open>C34. The eleven commands event, force-leave, join, keys, apps, routers, leave, members, tags, rtt and info report
  failures. Whatever the link does, such a command that exits with 0 had no failing connection or call and shows no error; any
  other exit code is 1 and comes with an error or the help text; and every error that connecting or a call
  gave is shown to the user, behind the command's prefix. This is not said of query, monitor and reachability, whose code 1 may come with plain output
  only, nor of sync, which shows its errors but exits with 0.\<close>

theorem cli_errors_reported:
  assumes "map_of (Commands env (watched lk)) name = Some run"
    and "run args (s, []) = Ret ((ms, code), (s', errs))"
  shows "name \<in> {''event'', ''force-leave'', ''join'', ''keys'', ''apps'', ''routers'', ''leave'', ''members'', ''tags'', ''rtt'', ''info''} \<and>
    (code = 0 \<longrightarrow> errs = [] \<and> (\<forall>m. UError m \<notin> set ms)) \<and>
    (code \<noteq> 0 \<longrightarrow> code = 1 \<and> ((\<exists>m. UError m \<in> set ms) \<or> UOutput (cx_help env name) \<in> set ms)) \<and>
    (\<forall>e \<in> set errs. \<exists>p. UError (p @ e) \<in> set ms)"
proof -
  have "reporting (cx_help env name) (run args)"
    using assms(1) reporting_commands [of env lk args] by (auto simp: Commands_def split: if_splits)
  moreover have "name \<in> {''event'', ''force-leave'', ''join'', ''keys'', ''apps'', ''routers'', ''leave'', ''members'', ''tags'', ''rtt'', ''info''}"
    using assms(1) by (auto simp: Commands_def split: if_splits)
  moreover have "reported (cx_help env name) (ms, code) \<and> (\<exists>new. errs = [] @ new \<and> tells (ms, code) new)"
    by (rule reportingD [OF calculation(1) assms(2)])
  ultimately show ?thesis
    by (simp add: reported_def tells_def split: if_splits)
qed

text \<open>A link that never connects.\<close>

definition dead_link :: "unit link" where
  "dead_link =
     \<lparr>lk_connect = (\<lambda>addr auth s. Ret (Some ''connection refused'', s)), lk_call = (\<lambda>a s. Panic), lk_close = (\<lambda>s. Panic)\<rparr>"

definition demo_cli :: cli_env where
  "demo_cli =
     \<lparr>cx_rpc_addr = '''', cx_rpc_auth = ''secret'', cx_help = (\<lambda>name. ''Usage: '' @ name),
      cx_columnize = (\<lambda>rows. Join rows [CHR 0x0A]), cx_order = sorted_list_of_set, cx_quote = quoted, cx_sprintf = id,
      cx_rtt = (\<lambda>a b. ''0''), cx_duration = (\<lambda>s. None), cx_json_members = (\<lambda>ms. Inr ''members''),
      cx_json_stats = (\<lambda>m. Inr ''stats''), cx_json_apps = (\<lambda>ms. Inr ''apps''), cx_json_routers = (\<lambda>rs. Inr ''routers''),
      cx_json_query = (\<lambda>acks rs. Inr ''query'')\<rparr>"

theorem cli_errors_reported_witness:
  "Leave_Run demo_cli (watched dead_link) [] ((), []) =
      Ret (([UError ''Error connecting to Serf agent: connection refused''], 1), ((), [''connection refused''])) \<and>
    (\<exists>p. UError (p @ ''connection refused'') \<in> set [UError ''Error connecting to Serf agent: connection refused''])"
proof -
  have "Leave_Run demo_cli (watched dead_link) [] ((), []) =
      Ret (([UError ''Error connecting to Serf agent: connection refused''], 1), ((), [''connection refused'']))"
    by (simp add: Leave_Run_def with_flags_def with_client_def parse_flags.simps parse_one_def bind_noted watched_def noted_def act_bind_def
        act_ret_def dead_link_def demo_cli_def)
  moreover from this have "\<exists>p. UError (p @ ''connection refused'') \<in> set [UError ''Error connecting to Serf agent: connection refused'']"
    using cli_errors_reported [where env = demo_cli and lk = dead_link and name = "''leave''" and args = "[]" and s = "()"]
    by (fastforce simp: Commands_def)
  ultimately show ?thesis by blast
qed

end
