(* ===== verification/CliWire.thy ===== *)
theory CliWire
  imports CliErrors
begin

text \<open>
  The commands over the real connection: the link that dials, shakes hands, authenticates and makes its
  calls over the wire (\<^verbatim>\<open>command/rpc.go\<close>, \<^verbatim>\<open>client/rpc_client.go\<close>, \<^verbatim>\<open>command/agent/ipc.go\<close>) against the link that
  calls the agent directly. A locale states what it takes for one link to simulate another; inside it every
  command is shown to carry the simulation, and the interpretation on the two links gives the result.
\<close>

section \<open>Two links\<close>

record wire_world =
  ww_server :: ipc
  ww_reqs :: "serf_req list"
  ww_conn :: "(rpc_client \<times> msg ipc_client) option"

text \<open>\<^verbatim>\<open>RPCClient\<close> and the calls on it. A call without a connection, or one that never returned, is
  \<open>Panic\<close> here.\<close>

definition wire_connect ::
  "(string \<Rightarrow> duration \<Rightarrow> string + string) \<Rightarrow> msg env \<Rightarrow> client_codec \<Rightarrow> (uint64 set \<Rightarrow> uint64 list) \<Rightarrow>
   string \<Rightarrow> string \<Rightarrow> (string option, wire_world) act" where
  "wire_connect dial env codec order addr auth w =
     go_bind (ClientFromConfig dial env codec order \<lparr>ccf_Addr = addr, ccf_AuthKey = auth, ccf_Timeout = 0\<rparr> (ww_server w))
       (\<lambda>(r, ic, i, reqs). case (r, ic) of
            (Inr c, Some ic) \<Rightarrow> Ret (None, w\<lparr>ww_server := i, ww_reqs := ww_reqs w @ reqs, ww_conn := Some (c, ic)\<rparr>)
          | (Inr c, None) \<Rightarrow> Panic
          | (Inl err, _) \<Rightarrow> Ret (Some err, w\<lparr>ww_server := i, ww_reqs := ww_reqs w @ reqs, ww_conn := None\<rparr>))"

definition wire_call ::
  "msg env \<Rightarrow> client_codec \<Rightarrow> (uint64 set \<Rightarrow> uint64 list) \<Rightarrow> api \<Rightarrow> (string option \<times> reply option, wire_world) act" where
  "wire_call env codec order a w =
     (case ww_conn w of
        None \<Rightarrow> Panic
      | Some (c, ic) \<Rightarrow>
          go_bind (exchange env codec order (request_of a) c ic (ww_server w)) (\<lambda>(r, c', ic', i', reqs).
            case r of
              None \<Rightarrow> Panic
            | Some out \<Rightarrow> Ret (out, w\<lparr>ww_server := i', ww_reqs := ww_reqs w @ reqs, ww_conn := Some (c', ic')\<rparr>)))"

definition wire_close :: "(uint64 set \<Rightarrow> uint64 list) \<Rightarrow> (unit, wire_world) act" where
  "wire_close order w =
     (case ww_conn w of
        None \<Rightarrow> Ret ((), w)
      | Some (c, ic) \<Rightarrow> go_bind (client_Close order c) (\<lambda>c'. Ret ((), w\<lparr>ww_conn := None\<rparr>)))"

definition wire_link ::
  "(string \<Rightarrow> duration \<Rightarrow> string + string) \<Rightarrow> msg env \<Rightarrow> client_codec \<Rightarrow> (uint64 set \<Rightarrow> uint64 list) \<Rightarrow> wire_world link" where
  "wire_link dial env codec order =
     \<lparr>lk_connect = wire_connect dial env codec order, lk_call = wire_call env codec order, lk_close = wire_close order\<rparr>"

text \<open>The specification: a connection is refused, or open for calls with or without authentication; a call
  is the agent's own. \<open>dw_calls\<close> counts the calls of a connection.\<close>

datatype conn_state = NoConn | OpenConn | UnauthConn

record direct_world =
  dw_server :: ipc
  dw_reqs :: "serf_req list"
  dw_state :: conn_state
  dw_calls :: nat

definition direct_connect ::
  "(string \<Rightarrow> duration \<Rightarrow> string + string) \<Rightarrow> string \<Rightarrow> string \<Rightarrow> (string option, direct_world) act" where
  "direct_connect dial addr auth d =
     (case dial addr DefaultTimeout of
        Inl err \<Rightarrow> Ret (Some err, d\<lparr>dw_state := NoConn\<rparr>)
      | Inr name \<Rightarrow>
          if auth = ip_authKey (dw_server d) then Ret (None, d\<lparr>dw_state := OpenConn, dw_calls := 0\<rparr>)
          else if auth = '''' then Ret (None, d\<lparr>dw_state := UnauthConn, dw_calls := 0\<rparr>)
          else Ret (Some invalidAuthToken, d\<lparr>dw_state := NoConn\<rparr>))"

text \<open>A connection that refused a call or ended is not used again.\<close>

definition direct_call :: "msg env \<Rightarrow> api \<Rightarrow> (string option \<times> reply option, direct_world) act" where
  "direct_call env a d =
     (case dw_state d of
        NoConn \<Rightarrow> Panic
      | UnauthConn \<Rightarrow> Ret ((Some authRequired, None), d\<lparr>dw_state := NoConn, dw_calls := dw_calls d + 1\<rparr>)
      | OpenConn \<Rightarrow>
          go_bind (direct env Map.empty (dw_server d) a) (\<lambda>answer. case answer of
              None \<Rightarrow> Ret ((Some clientClosed, None), d\<lparr>dw_state := NoConn, dw_calls := dw_calls d + 1\<rparr>)
            | Some (err, obj, i', reqs) \<Rightarrow>
                Ret ((strToError (errToString err), obj),
                     d\<lparr>dw_server := i', dw_reqs := dw_reqs d @ reqs, dw_calls := dw_calls d + 1\<rparr>)))"

definition direct_link :: "(string \<Rightarrow> duration \<Rightarrow> string + string) \<Rightarrow> msg env \<Rightarrow> direct_world link" where
  "direct_link dial env =
     \<lparr>lk_connect = direct_connect dial, lk_call = direct_call env, lk_close = (\<lambda>d. Ret ((), d\<lparr>dw_state := NoConn\<rparr>))\<rparr>"

section \<open>Simulation of links\<close>

text \<open>\<open>sim R used lim k m n\<close>: from related states, while the specification has \<open>k\<close> calls left, whatever
  \<open>n\<close> returns \<open>m\<close> returns too, in related states, and \<open>n\<close> has used at most \<open>k\<close> calls.\<close>

definition sim ::
  "('s \<Rightarrow> 't \<Rightarrow> bool) \<Rightarrow> ('t \<Rightarrow> nat) \<Rightarrow> nat \<Rightarrow> nat \<Rightarrow> ('r, 's) act \<Rightarrow> ('r, 't) act \<Rightarrow> bool" where
  "sim R used lim k m n \<longleftrightarrow>
     (\<forall>s t r t'. R s t \<and> used t + k \<le> lim \<and> n t = Ret (r, t') \<longrightarrow>
        (\<exists>s'. m s = Ret (r, s') \<and> R s' t' \<and> used t' \<le> used t + k))"

lemma sim_ret: "sim R used lim k (act_ret r) (act_ret r)"
  by (auto simp: sim_def act_ret_def)

lemma sim_bind:
  assumes "sim R used lim k m n" and "\<And>r. sim R used lim l (f r) (g r)"
  shows "sim R used lim (k + l) (act_bind m f) (act_bind n g)"
  unfolding sim_def
proof (intro allI impI)
  fix s t r t'
  assume a: "R s t \<and> used t + (k + l) \<le> lim \<and> act_bind n g t = Ret (r, t')"
  then obtain x t1 where n: "n t = Ret (x, t1)" and g: "g x t1 = Ret (r, t')"
    by (auto simp: act_bind_def go_bind_eq_Ret)
  have "R s t \<and> used t + k \<le> lim \<and> n t = Ret (x, t1)" using a n by simp
  then obtain s1 where s1: "m s = Ret (x, s1)" "R s1 t1" "used t1 \<le> used t + k"
    using assms(1) unfolding sim_def by blast
  have "R s1 t1 \<and> used t1 + l \<le> lim \<and> g x t1 = Ret (r, t')" using s1 a g by simp
  then obtain s' where "f x s1 = Ret (r, s')" "R s' t'" "used t' \<le> used t1 + l"
    using assms(2) [of x] unfolding sim_def by blast
  with s1 show "\<exists>s'. act_bind m f s = Ret (r, s') \<and> R s' t' \<and> used t' \<le> used t + (k + l)"
    by (auto simp: act_bind_def)
qed

lemma sim_mono: "sim R used lim k m n \<Longrightarrow> k \<le> l \<Longrightarrow> sim R used lim l m n"
  unfolding sim_def by (meson add_left_mono order_trans)

locale link_simulation =
  fixes R :: "'s \<Rightarrow> 't \<Rightarrow> bool" and used :: "'t \<Rightarrow> nat" and lim :: nat and lk1 :: "'s link" and lk2 :: "'t link"
  assumes connect: "R s t \<Longrightarrow> lk_connect lk2 addr auth t = Ret (r, t') \<Longrightarrow>
      \<exists>s'. lk_connect lk1 addr auth s = Ret (r, s') \<and> R s' t' \<and> used t' \<le> used t"
    and call: "R s t \<Longrightarrow> used t < lim \<Longrightarrow> lk_call lk2 a t = Ret (out, t') \<Longrightarrow>
      \<exists>s'. lk_call lk1 a s = Ret (out, s') \<and> R s' t' \<and> used t' \<le> Suc (used t)"
    and close: "R s t \<Longrightarrow> lk_close lk2 t = Ret (u, t') \<Longrightarrow>
      \<exists>s'. lk_close lk1 s = Ret (u, s') \<and> R s' t' \<and> used t' \<le> used t"
begin

lemma sim_connect: "sim R used lim 0 (lk_connect lk1 addr auth) (lk_connect lk2 addr auth)"
  using connect unfolding sim_def by fastforce

lemma sim_call: "sim R used lim 1 (lk_call lk1 a) (lk_call lk2 a)"
  using call unfolding sim_def by fastforce

lemma sim_close: "sim R used lim 0 (lk_close lk1) (lk_close lk2)"
  using close unfolding sim_def by fastforce

lemma sim_if:
  assumes "b \<Longrightarrow> sim R used lim k m n" and "\<not> b \<Longrightarrow> sim R used lim k m' n'"
  shows "sim R used lim k (if b then m else m') (if b then n else n')"
  using assms by simp

lemma sim_sum:
  assumes "\<And>e. sim R used lim k (f e) (f' e)" and "\<And>x. sim R used lim k (g x) (g' x)"
  shows "sim R used lim k (case u of Inl e \<Rightarrow> f e | Inr x \<Rightarrow> g x) (case u of Inl e \<Rightarrow> f' e | Inr x \<Rightarrow> g' x)"
  using assms by (cases u) simp_all

lemma sim_option:
  assumes "sim R used lim k f f'" and "\<And>x. sim R used lim k (g x) (g' x)"
  shows "sim R used lim k (case u of None \<Rightarrow> f | Some x \<Rightarrow> g x) (case u of None \<Rightarrow> f' | Some x \<Rightarrow> g' x)"
  using assms by (cases u) simp_all

lemma sim_pair:
  assumes "\<And>x y. sim R used lim k (f x y) (g x y)"
  shows "sim R used lim k (case p of (x, y) \<Rightarrow> f x y) (case p of (x, y) \<Rightarrow> g x y)"
  using assms by (cases p) simp

lemma sim_flags:
  assumes "\<And>opts rest. sim R used lim k (f opts rest) (g opts rest)"
  shows "sim R used lim k (with_flags env name fs defaults args f) (with_flags env name fs defaults args g)"
  using assms by (auto simp: with_flags_def sim_ret split: sum.splits)

lemma sim_client:
  assumes "sim R used lim k body1 body2"
  shows "sim R used lim k (with_client lk1 opts body1) (with_client lk2 opts body2)"
proof -
  have "sim R used lim 0 (act_bind (lk_close lk1) (\<lambda>_. act_ret out)) (act_bind (lk_close lk2) (\<lambda>_. act_ret out))" for out :: "ui list \<times> int"
    by (rule sim_bind [where k = 0 and l = 0, simplified]) (rule sim_close, rule sim_ret)
  then have "sim R used lim k (act_bind body1 (\<lambda>out. act_bind (lk_close lk1) (\<lambda>_. act_ret out)))
      (act_bind body2 (\<lambda>out. act_bind (lk_close lk2) (\<lambda>_. act_ret out)))"
    by (rule sim_bind [where l = 0, simplified, OF assms])
  then show ?thesis
    unfolding with_client_def
    by (rule sim_bind [where k = 0 and l = k, simplified, OF sim_connect sim_option [OF _ sim_ret]])
qed

lemma sim_call_then:
  assumes "\<And>out. sim R used lim k (f out) (g out)"
  shows "sim R used lim (Suc k) (act_bind (lk_call lk1 a) f) (act_bind (lk_call lk2 a) g)"
  using sim_bind [OF sim_call assms] by simp

lemma sim_calling:
  assumes "\<And>r. sim R used lim k (f r) (g r)"
  shows "sim R used lim (Suc k) (calling lk1 a msg f) (calling lk2 a msg g)"
  unfolding calling_def by (intro sim_call_then sim_pair sim_option sim_ret assms)

lemma sim_saying: "sim R used lim k m n \<Longrightarrow> sim R used lim k (saying ms m) (saying ms n)"
  using sim_bind [of R used lim k m n 0 "\<lambda>(ms', code). act_ret (ms @ ms', code)" "\<lambda>(ms', code). act_ret (ms @ ms', code)"]
  by (auto simp: saying_def sim_ret split: prod.splits)

lemmas sim_rules = sim_flags sim_client sim_calling sim_saying sim_if sim_sum sim_option sim_pair sim_ret

lemma sim_coordinate:
  assumes "\<And>co. sim R used lim k (f co) (g co)"
  shows "sim R used lim (Suc k) (get_coordinate env lk1 node f) (get_coordinate env lk2 node g)"
  unfolding get_coordinate_def by (intro sim_call_then sim_rules assms)

lemma sim_rtt_report: "sim R used lim (Suc (Suc k)) (rtt_report env lk1 a b) (rtt_report env lk2 a b)"
  unfolding rtt_report_def by (intro sim_coordinate sim_ret)

lemma sim_key_action: "sim R used lim (Suc k) (key_action env lk1 a s1 s2 s3) (key_action env lk2 a s1 s2 s3)"
  unfolding key_action_def by (intro sim_call_then sim_rules)

lemma sim_list_keys: "sim R used lim (Suc k) (list_keys env lk1) (list_keys env lk2)"
  unfolding list_keys_def Let_def by (intro sim_call_then sim_rules)

text \<open>Every command needs at most three calls.\<close>

lemma sim_commands:
  "sim R used lim (Suc (Suc (Suc 0))) (ForceLeave_Run env lk1 args) (ForceLeave_Run env lk2 args)"
  "sim R used lim (Suc (Suc (Suc 0))) (Join_Run env lk1 args) (Join_Run env lk2 args)"
  "sim R used lim (Suc (Suc (Suc 0))) (Leave_Run env lk1 args) (Leave_Run env lk2 args)"
  "sim R used lim (Suc (Suc (Suc 0))) (Tags_Run env lk1 args) (Tags_Run env lk2 args)"
  "sim R used lim (Suc (Suc (Suc 0))) (Members_Run env lk1 args) (Members_Run env lk2 args)"
  "sim R used lim (Suc (Suc (Suc 0))) (Event_Run env lk1 args) (Event_Run env lk2 args)"
  "sim R used lim (Suc (Suc (Suc 0))) (Info_Run env lk1 args) (Info_Run env lk2 args)"
  "sim R used lim (Suc (Suc (Suc 0))) (Apps_Run env lk1 args) (Apps_Run env lk2 args)"
  "sim R used lim (Suc (Suc (Suc 0))) (Routers_Run env lk1 args) (Routers_Run env lk2 args)"
  "sim R used lim (Suc (Suc (Suc 0))) (RTT_Run env lk1 args) (RTT_Run env lk2 args)"
  "sim R used lim (Suc (Suc (Suc 0))) (Keys_Run env lk1 args) (Keys_Run env lk2 args)"
  unfolding ForceLeave_Run_def Join_Run_def Leave_Run_def Tags_Run_def Members_Run_def Event_Run_def Info_Run_def
    Apps_Run_def Routers_Run_def RTT_Run_def Keys_Run_def Let_def
  by (intro sim_rules sim_rtt_report sim_key_action sim_list_keys)+

lemma sim_table:
  assumes "map_of (Commands env lk2) name = Some run2"
  shows "\<exists>run1. map_of (Commands env lk1) name = Some run1 \<and> sim R used lim 3 (run1 args) (run2 args)"
  using assms sim_commands [of env args]
  by (auto simp: Commands_def numeral_3_eq_3 split: if_splits)

end

section \<open>The wire simulates the agent\<close>

text \<open>The states correspond: the same agent and requests; an open connection is ready for the next call, and
  any connection can be closed.\<close>

definition conn_related :: "direct_world \<Rightarrow> ipc \<Rightarrow> (rpc_client \<times> msg ipc_client) option \<Rightarrow> bool" where
  "conn_related d i conn \<longleftrightarrow>
     (case conn of
        None \<Rightarrow> dw_state d = NoConn
      | Some (c, ic) \<Rightarrow>
          (client_inv c \<or> IsClosed c) \<and>
          (dw_state d \<noteq> NoConn \<longrightarrow> ready c \<and> unat (rc_seq c) \<le> 2 + dw_calls d) \<and>
          (dw_state d = OpenConn \<longrightarrow> admitted ic i \<and> ic_pendingQueries ic = Map.empty) \<and>
          (dw_state d = UnauthConn \<longrightarrow> unadmitted ic i))"

definition linked :: "wire_world \<Rightarrow> direct_world \<Rightarrow> bool" where
  "linked w d \<longleftrightarrow> ww_server w = dw_server d \<and> ww_reqs w = dw_reqs d \<and> conn_related d (ww_server w) (ww_conn w)"

text \<open>No answer of the agent reads like the server's refusal.\<close>

definition never_refuses :: "msg env \<Rightarrow> bool" where
  "never_refuses env \<longleftrightarrow>
     (\<forall>i a e v i' reqs. direct env Map.empty i a = Ret (Some (Some e, v, i', reqs)) \<longrightarrow> e \<noteq> authRequired)"

lemma linked_connect:
  assumes env: "decodes_msgs env" and codec: "codec_inverts codec"
    and order: "\<And>S. finite S \<Longrightarrow> distinct (order S) \<and> set (order S) = S"
    and R: "linked w d" and out: "direct_connect dial addr auth d = Ret (r, d')"
  shows "\<exists>w'. wire_connect dial env codec order addr auth w = Ret (r, w') \<and> linked w' d' \<and> dw_calls d' \<le> dw_calls d"
proof (cases "dial addr DefaultTimeout")
  case (Inl err)
  then show ?thesis
    using R out by (auto simp: direct_connect_def wire_connect_def ClientFromConfig_def linked_def conn_related_def)
next
  case (Inr name)
  let ?conf = "\<lparr>ccf_Addr = addr, ccf_AuthKey = auth, ccf_Timeout = 0\<rparr>"
  let ?dial = "\<lambda>a t. Inr name :: string + string"
  have same: "ClientFromConfig dial env codec order ?conf i = ClientFromConfig ?dial env codec order ?conf i" for i
    using Inr by (simp add: ClientFromConfig_def)
  from connecting [OF env codec order, where dial = ?dial and conf = ?conf and name = name and i = "ww_server w"]
  obtain x ic where x: "ClientFromConfig dial env codec order ?conf (ww_server w) = Ret (x, Some ic, ww_server w, [])"
    and cases: "if auth = ip_authKey (ww_server w) then \<exists>c. x = Inr c \<and> ready c \<and> admitted ic (ww_server w) \<and> unat (rc_seq c) \<le> 2 \<and> ic_pendingQueries ic = Map.empty
     else if auth = '''' then \<exists>c. x = Inr c \<and> ready c \<and> unadmitted ic (ww_server w) \<and> unat (rc_seq c) \<le> 2
     else x = Inl invalidAuthToken"
    by (auto simp: same)
  have s: "ww_server w = dw_server d" "ww_reqs w = dw_reqs d" using R by (simp_all add: linked_def)
  show ?thesis
  proof (cases x)
    case (Inl err)
    then show ?thesis
      using out x cases s Inr
      by (auto simp: direct_connect_def wire_connect_def linked_def conn_related_def split: if_splits)
  next
    case c: (Inr c)
    then show ?thesis
      using out x cases s Inr
      by (auto simp: direct_connect_def wire_connect_def linked_def conn_related_def ready_def split: if_splits)
  qed
qed

lemma linked_call:
  assumes env: "decodes_msgs env" "never_refuses env" and codec: "codec_inverts codec"
    and order: "\<And>S. finite S \<Longrightarrow> distinct (order S) \<and> set (order S) = S"
    and R: "linked w d" and n: "dw_calls d < 1000" and out: "direct_call env a d = Ret (x, d')"
  shows "\<exists>w'. wire_call env codec order a w = Ret (x, w') \<and> linked w' d' \<and> dw_calls d' \<le> Suc (dw_calls d)"
proof -
  have s: "ww_server w = dw_server d" "ww_reqs w = dw_reqs d" using R by (simp_all add: linked_def)
  have "dw_state d \<noteq> NoConn" using out by (auto simp: direct_call_def)
  then obtain c ic where conn: "ww_conn w = Some (c, ic)" and c: "ready c" "unat (rc_seq c) \<le> 2 + dw_calls d"
    and st: "dw_state d = OpenConn \<longrightarrow> admitted ic (ww_server w) \<and> ic_pendingQueries ic = Map.empty"
      "dw_state d = UnauthConn \<longrightarrow> unadmitted ic (ww_server w)"
    using R by (auto simp: linked_def conn_related_def split: option.splits)
  have u: "unat (rc_seq c) < 2 ^ 64 - 1" using c(2) n by simp
  have seq: "unat (rc_seq c + 1) \<le> Suc (unat (rc_seq c))"
    using u by (simp add: unat_word_ariths)
  show ?thesis
  proof (cases "dw_state d")
    case UnauthConn
    with exchange_refused [OF env(1) codec c(1) u] st(2) obtain c' ic' where
      "exchange env codec order (request_of a) c ic (ww_server w) = Ret (Some (Some authRequired, None), c', ic', ww_server w, [])" "ready c'"
      by blast
    then show ?thesis
      using out conn s UnauthConn by (auto simp: direct_call_def wire_call_def linked_def conn_related_def ready_def)
  next
    case OpenConn
    then have ad: "admitted ic (ww_server w)" and q: "ic_pendingQueries ic = Map.empty" using st by auto
    obtain answer where ans: "direct env Map.empty (dw_server d) a = Ret answer"
      using out OpenConn by (auto simp: direct_call_def go_bind_eq_Ret)
    have "direct env (ic_pendingQueries ic) (ww_server w) a = Ret answer" using ans q s by simp
    note tr = call_transparent [where order = order, OF env(1) codec _ c(1) u ad this]
    show ?thesis
    proof (cases answer)
      case None
      then show ?thesis
        using tr order out ans conn s OpenConn
        by (auto simp: direct_call_def wire_call_def linked_def conn_related_def)
    next
      case (Some r)
      obtain err obj i' reqs where r: "r = (err, obj, i', reqs)" by (cases r)
      have "e \<noteq> authRequired" if "answer = Some (Some e, v, i', reqs)" for e v i' reqs
        using that env(2) ans unfolding never_refuses_def by blast
      with order have "case answer of None \<Rightarrow> False | Some (err, obj, i', reqs) \<Rightarrow>
        \<exists>c' ic'. exchange env codec order (request_of a) c ic (ww_server w) = Ret (Some (strToError (errToString err), obj), c', ic', i', reqs) \<and>
          ready c' \<and> rc_seq c' = rc_seq c + 1 \<and> ic_pendingQueries ic' = ic_pendingQueries ic \<and> admitted ic' i'"
        using tr Some r by (auto split: prod.splits)
      then obtain c' ic' where
        "exchange env codec order (request_of a) c ic (ww_server w) = Ret (Some (strToError (errToString err), obj), c', ic', i', reqs)"
        "ready c'" "rc_seq c' = rc_seq c + 1" "ic_pendingQueries ic' = ic_pendingQueries ic" "admitted ic' i'"
        using Some r by auto
      then show ?thesis
        using out ans conn s OpenConn q Some r c(2) seq
        by (auto simp: direct_call_def wire_call_def linked_def conn_related_def ready_def)
    qed
  qed (use out in \<open>simp add: direct_call_def\<close>)
qed

lemma linked_close:
  assumes order: "\<And>S. finite S \<Longrightarrow> distinct (order S) \<and> set (order S) = S" and R: "linked w d"
  shows "\<exists>w'. wire_close order w = Ret ((), w') \<and> linked w' (d\<lparr>dw_state := NoConn\<rparr>)"
proof (cases "ww_conn w")
  case (Some p)
  obtain c ic where p: "p = (c, ic)" by (cases p)
  have "\<exists>c'. client_Close order c = Ret c'"
  proof (cases "IsClosed c")
    case True
    then show ?thesis by (simp add: client_Close_def IsClosed_def)
  next
    case False
    then have "client_inv c" using R Some p by (simp add: linked_def conn_related_def)
    from Close_ok [OF this order] show ?thesis by blast
  qed
  then show ?thesis
    using R Some p by (auto simp: wire_close_def linked_def conn_related_def)
qed (use R in \<open>auto simp: wire_close_def linked_def conn_related_def\<close>)

text \<open>What the codec, the encoder and the agent must satisfy for the wire to be faithful.\<close>

definition wire_ok :: "msg env \<Rightarrow> client_codec \<Rightarrow> (uint64 set \<Rightarrow> uint64 list) \<Rightarrow> bool" where
  "wire_ok env codec order \<longleftrightarrow>
     decodes_msgs env \<and> never_refuses env \<and> codec_inverts codec \<and>
     (\<forall>S. finite S \<longrightarrow> distinct (order S) \<and> set (order S) = S)"

interpretation wire: link_simulation "\<lambda>w d. wire_ok env codec order \<and> linked w d" dw_calls 1000
  "wire_link dial env codec order" "direct_link dial env" for dial env codec order
proof unfold_locales
  fix w d d' addr auth and r :: "string option"
  assume "wire_ok env codec order \<and> linked w d" "lk_connect (direct_link dial env) addr auth d = Ret (r, d')"
  then show "\<exists>w'. lk_connect (wire_link dial env codec order) addr auth w = Ret (r, w') \<and>
      (wire_ok env codec order \<and> linked w' d') \<and> dw_calls d' \<le> dw_calls d"
    using linked_connect [of env codec order w d dial addr auth r d'] by (simp add: wire_ok_def wire_link_def direct_link_def)
next
  fix w d d' a and x :: "string option \<times> reply option"
  assume "wire_ok env codec order \<and> linked w d" "dw_calls d < 1000" "lk_call (direct_link dial env) a d = Ret (x, d')"
  then show "\<exists>w'. lk_call (wire_link dial env codec order) a w = Ret (x, w') \<and>
      (wire_ok env codec order \<and> linked w' d') \<and> dw_calls d' \<le> Suc (dw_calls d)"
    using linked_call [of env codec order w d a x d'] by (simp add: wire_ok_def wire_link_def direct_link_def)
next
  fix w d d' and u :: unit
  assume "wire_ok env codec order \<and> linked w d" "lk_close (direct_link dial env) d = Ret (u, d')"
  then show "\<exists>w'. lk_close (wire_link dial env codec order) w = Ret (u, w') \<and>
      (wire_ok env codec order \<and> linked w' d') \<and> dw_calls d' \<le> dw_calls d"
    using linked_close [of order w d] by (auto simp: wire_ok_def wire_link_def direct_link_def)
qed

definition wire_idle :: "ipc \<Rightarrow> wire_world" where
  "wire_idle i = \<lparr>ww_server = i, ww_reqs = [], ww_conn = None\<rparr>"

definition direct_idle :: "ipc \<Rightarrow> direct_world" where
  "direct_idle i = \<lparr>dw_server = i, dw_reqs = [], dw_state = NoConn, dw_calls = 0\<rparr>"

text \<open>C33. Each of the eleven commands of the table \<open>Commands\<close> (those that connect to one agent and make plain calls), run over the wire (dialling, handshake, authentication, framed calls,
  dispatch on the server, close), tells the user the same, exits with the same code, leaves the agent in
  the same state and makes the same requests to serf as the command run on the agent itself.\<close>

theorem cli_transparent:
  assumes "wire_ok env codec order"
    and "map_of (Commands cx (direct_link dial env)) name = Some run"
    and "run args (direct_idle i) = Ret (out, d)"
  shows "\<exists>run' w. map_of (Commands cx (wire_link dial env codec order)) name = Some run' \<and>
    run' args (wire_idle i) = Ret (out, w) \<and> ww_server w = dw_server d \<and> ww_reqs w = dw_reqs d"
proof -
  from wire.sim_table [OF assms(2), of codec order args] obtain run' where
    run': "map_of (Commands cx (wire_link dial env codec order)) name = Some run'"
    and sim: "sim (\<lambda>w d. wire_ok env codec order \<and> linked w d) dw_calls 1000 3 (run' args) (run args)" by blast
  have "wire_ok env codec order \<and> linked (wire_idle i) (direct_idle i)"
    using assms(1) by (simp add: linked_def conn_related_def wire_idle_def direct_idle_def)
  moreover have "dw_calls (direct_idle i) + 3 \<le> 1000" by (simp add: direct_idle_def)
  ultimately obtain w where "run' args (wire_idle i) = Ret (out, w)" "linked w d"
    using sim assms(3) unfolding sim_def by blast
  with run' show ?thesis by (auto simp: linked_def)
qed

lemma concrete_wire_ok: "wire_ok msg_env down_codec sorted_list_of_set"
  unfolding wire_ok_def
proof (intro conjI concrete_wire allI impI)
  show "never_refuses msg_env"
    unfolding never_refuses_def
  proof (intro allI impI)
    fix i a e v i' reqs
    assume "direct msg_env Map.empty i a = Ret (Some (Some e, v, i', reqs))"
    then show "e \<noteq> authRequired"
      by (cases a) (auto simp: msg_env_def key_call_def Let_def go_bind_eq_Ret Agent_SetTags_def
          writeTagsFile_def authRequired_def invalidQueryID_def Agent_Leave_def split: prod.splits option.splits sum.splits if_splits)
  qed
qed simp_all

theorem cli_transparent_witness:
  "\<exists>run' w. map_of (Commands demo_cli (wire_link (\<lambda>a t. Inr ''c1'') msg_env down_codec sorted_list_of_set)) ''join'' = Some run' \<and>
    run' [''-replay'', ''10.0.0.1'', ''10.0.0.2''] (wire_idle (demo_ipc ''secret'')) =
      Ret (([UOutput ''Successfully joined cluster by contacting 2 nodes.''], 0), w) \<and>
    ww_server w = demo_ipc ''secret'' \<and> ww_reqs w = [QJoin [''10.0.0.1'', ''10.0.0.2''] False]"
proof -
  let ?lk = "direct_link (\<lambda>a t. Inr ''c1'') msg_env"
  let ?args = "[''-replay'', ''10.0.0.1'', ''10.0.0.2'']"
  have "map_of (Commands demo_cli ?lk) ''join'' = Some (Join_Run demo_cli ?lk)"
    by (simp add: Commands_def)
  moreover have "parse_flags (rpc_flagset(''replay'' \<mapsto> BoolVar (\<lambda>v p. p\<lparr>jo_replay := v\<rparr>))) ?args
      (rpc_opts.extend (rpc_defaults demo_cli) (join_opts.fields False)) =
    Inr (\<lparr>ro_addr = ''127.0.0.1:7373'', ro_auth = ''secret'', jo_replay = True\<rparr>, [''10.0.0.1'', ''10.0.0.2''])"
    by (simp add: parse_flags.simps parse_one_def flag_body_def split_flag_def apply_flag_def set_flag_def BoolVar_def
        ParseBool_def rpc_flagset_def rpc_defaults_def RPCAddrFlag_def RPCAuthFlag_def demo_cli_def rpc_opts.defs join_opts.defs)
  moreover have two: "show_int 2 = ''2''" by code_simp
  ultimately have "map_of (Commands demo_cli ?lk) ''join'' = Some (Join_Run demo_cli ?lk)" and "Join_Run demo_cli ?lk ?args (direct_idle (demo_ipc ''secret'')) =
      Ret (([UOutput ''Successfully joined cluster by contacting 2 nodes.''], 0),
        (direct_idle (demo_ipc ''secret''))\<lparr>dw_reqs := [QJoin [''10.0.0.1'', ''10.0.0.2''] False], dw_calls := 1\<rparr>)"
    by (simp_all add: Join_Run_def with_flags_def with_client_def calling_def act_bind_def act_ret_def direct_idle_def
        direct_link_def direct_connect_def direct_call_def msg_env_def strToError_def demo_ipc_def SetDiscoverd_def
        NewAgentIPC_def int32_def two)
  then show ?thesis
    using cli_transparent [OF concrete_wire_ok, where i = "demo_ipc ''secret''" and args = ?args] by (fastforce simp: direct_idle_def)
qed

end
