(* ===== verification/CliStreams.thy ===== *)
theory CliStreams
  imports CliWire
begin

text \<open>
  The commands that follow a stream of the agent: \<^verbatim>\<open>command/query.go\<close>, \<^verbatim>\<open>command/reachability.go\<close>,
  \<^verbatim>\<open>command/sync.go\<close>, \<^verbatim>\<open>command/monitor.go\<close>. The client's listener fills the channels while the command's
  \<^verbatim>\<open>select\<close> empties them; what the select finds, turn by turn, is a value of its own (\<open>feed\<close>), the
  loops of the commands are functions of it, and a relation says which feeds the listener's handler
  and its channels can give rise to.
\<close>

section \<open>What a select finds\<close>

text \<open>A closed channel yields the zero value for ever, so the loops end on an empty name; a feed ends
  where the user interrupts.\<close>

datatype feed = GotAck string feed | GotResp NodeResponse feed | Interrupt

definition zero_NodeResponse :: NodeResponse where
  "zero_NodeResponse = \<lparr>nr_From = '''', nr_Payload = ''''\<rparr>"

text \<open>Receiving: \<open>None\<close> while nothing is there.\<close>

definition recv :: "'a \<Rightarrow> 'a chan \<Rightarrow> ('a \<times> 'a chan) option" where
  "recv zero c =
     (case ch_buf c of
        x # xs \<Rightarrow> Some (x, c\<lparr>ch_buf := xs\<rparr>)
      | [] \<Rightarrow> if ch_closed c then Some (zero, c) else None)"

text \<open>The listener handles the records that are still to come, then lets go of the handler, which closes the
  channels; the command receives from either channel whenever it can, or is interrupted.\<close>

inductive feeds :: "client_codec \<Rightarrow> queryHandler \<Rightarrow> queryRecord list \<Rightarrow> feed \<Rightarrow> bool" for codec where
  feed_deliver: "query_Handle codec \<lparr>rsp_Seq = n, rsp_Error = ''''\<rparr> qh [DBody (RQuery rec)] = Ret (qh', [], Continue) \<Longrightarrow>
    feeds codec qh' recs f \<Longrightarrow> feeds codec qh (rec # recs) f"
| feed_cleanup: "query_Cleanup qh = Ret qh' \<Longrightarrow> feeds codec qh' [] f \<Longrightarrow> feeds codec qh [] f"
| feed_ack: "qh_ackCh qh = Some c \<Longrightarrow> recv '''' c = Some (a, c') \<Longrightarrow>
    feeds codec (qh\<lparr>qh_ackCh := Some c'\<rparr>) recs f \<Longrightarrow> feeds codec qh recs (GotAck a f)"
| feed_resp: "qh_respCh qh = Some c \<Longrightarrow> recv zero_NodeResponse c = Some (r, c') \<Longrightarrow>
    feeds codec (qh\<lparr>qh_respCh := Some c'\<rparr>) recs f \<Longrightarrow> feeds codec qh recs (GotResp r f)"
| feed_interrupt: "feeds codec qh recs Interrupt"

text \<open>The handler of a query that the server accepted.\<close>

definition open_query :: "string chan option \<Rightarrow> NodeResponse chan option \<Rightarrow> queryHandler" where
  "open_query ackCh respCh =
     \<lparr>qh_closed = False, qh_init = True, qh_initCh = [], qh_ackCh = ackCh, qh_respCh = respCh\<rparr>"

text \<open>The streaming operations of a connection: a query gives its error and what the select will find, a query
  with a response channel only what that channel yields until it is closed.\<close>

datatype monitor_feed = GotLog string monitor_feed | GotEvent "reply option" monitor_feed | MonitorInterrupt

record 's qlink = "'s link" +
  lk_query :: "queryRequest \<Rightarrow> (string option \<times> feed, 's) act"
  lk_collect :: "queryRequest \<Rightarrow> (string option \<times> NodeResponse list, 's) act"
  lk_stream :: "string \<Rightarrow> (string option \<times> uint64, 's) act"
  lk_monitor :: "string \<Rightarrow> (string option \<times> uint64, 's) act"
  lk_watch :: "(monitor_feed, 's) act"
  lk_stop :: "uint64 \<Rightarrow> (string option, 's) act"

section \<open>Query\<close>

record textQueryRespFormat =
  tq_name :: string
  tq_noAck :: bool
  tq_numAcks :: int64
  tq_numResp :: int64

record jsonQueryRespFormat =
  jq_Acks :: "string list"
  jq_Responses :: "string \<rightharpoonup> string"

datatype queryRespFormat = TextFormat textQueryRespFormat | JsonFormat jsonQueryRespFormat

definition text_Started :: "textQueryRespFormat \<Rightarrow> ui list" where
  text_Started_def [simp]: "text_Started t = [UOutput (''Query '' @ quoted (tq_name t) @ '' dispatched'')]"

definition json_Started :: "jsonQueryRespFormat \<Rightarrow> ui list" where
  json_Started_def [simp]: "json_Started j = []"

definition text_AckReceived :: "string \<Rightarrow> textQueryRespFormat \<Rightarrow> ui list \<times> textQueryRespFormat" where
  text_AckReceived_def [simp]:
    "text_AckReceived from t = ([UInfo (''Ack from '' @ quoted from)], t\<lparr>tq_numAcks := tq_numAcks t + 1\<rparr>)"

definition json_AckReceived :: "string \<Rightarrow> jsonQueryRespFormat \<Rightarrow> ui list \<times> jsonQueryRespFormat" where
  json_AckReceived_def [simp]: "json_AckReceived from j = ([], j\<lparr>jq_Acks := jq_Acks j @ [from]\<rparr>)"

definition trim_newline :: "string \<Rightarrow> string" where
  "trim_newline s = (if s \<noteq> [] \<and> last s = CHR 0x0A then butlast s else s)"

definition text_ResponseReceived :: "NodeResponse \<Rightarrow> textQueryRespFormat \<Rightarrow> ui list \<times> textQueryRespFormat" where
  text_ResponseReceived_def [simp]:
    "text_ResponseReceived r t =
       ([UInfo (''Response from '' @ quoted (nr_From r) @ '': '' @ trim_newline (nr_Payload r))],
        t\<lparr>tq_numResp := tq_numResp t + 1\<rparr>)"

definition json_ResponseReceived :: "NodeResponse \<Rightarrow> jsonQueryRespFormat \<Rightarrow> ui list \<times> jsonQueryRespFormat" where
  json_ResponseReceived_def [simp]:
    "json_ResponseReceived r j = ([], j\<lparr>jq_Responses := (jq_Responses j)(nr_From r \<mapsto> nr_Payload r)\<rparr>)"

text \<open>The output of \<^verbatim>\<open>Finished\<close> and whether it failed.\<close>

definition text_Finished :: "textQueryRespFormat \<Rightarrow> ui list \<times> bool" where
  text_Finished_def [simp]:
    "text_Finished t =
       ((if tq_noAck t then [] else [UOutput (''Total Acks: '' @ show_int (sint (tq_numAcks t)))]) @
        [UOutput (''Total Responses: '' @ show_int (sint (tq_numResp t)))], False)"

definition json_Finished :: "cli_env \<Rightarrow> jsonQueryRespFormat \<Rightarrow> ui list \<times> bool" where
  json_Finished_def [simp]:
    "json_Finished env j =
       (let (out, code) = show_output (formatOutput (cx_json_query env (jq_Acks j) (jq_Responses j)) '''' ''json'')
        in (out, code \<noteq> 0))"

text \<open>The interface: each method is that of the format chosen.\<close>

fun fmt_Started :: "queryRespFormat \<Rightarrow> ui list" where
  "fmt_Started (TextFormat t) = text_Started t"
| "fmt_Started (JsonFormat j) = json_Started j"

fun fmt_AckReceived :: "string \<Rightarrow> queryRespFormat \<Rightarrow> ui list \<times> queryRespFormat" where
  "fmt_AckReceived from (TextFormat t) = map_prod id TextFormat (text_AckReceived from t)"
| "fmt_AckReceived from (JsonFormat j) = map_prod id JsonFormat (json_AckReceived from j)"

fun fmt_ResponseReceived :: "NodeResponse \<Rightarrow> queryRespFormat \<Rightarrow> ui list \<times> queryRespFormat" where
  "fmt_ResponseReceived r (TextFormat t) = map_prod id TextFormat (text_ResponseReceived r t)"
| "fmt_ResponseReceived r (JsonFormat j) = map_prod id JsonFormat (json_ResponseReceived r j)"

fun fmt_Finished :: "cli_env \<Rightarrow> queryRespFormat \<Rightarrow> ui list \<times> bool" where
  "fmt_Finished env (TextFormat t) = text_Finished t"
| "fmt_Finished env (JsonFormat j) = json_Finished env j"

definition query_end :: "cli_env \<Rightarrow> queryRespFormat \<Rightarrow> ui list \<times> int" where
  "query_end env h = (let (out, failed) = fmt_Finished env h in (out, if failed then 1 else 0))"

fun query_loop :: "cli_env \<Rightarrow> feed \<Rightarrow> queryRespFormat \<Rightarrow> ui list \<times> int" where
  "query_loop env (GotAck a f) h =
     (if a = '''' then query_end env h
      else let (out, h') = fmt_AckReceived a h; (rest, code) = query_loop env f h' in (out @ rest, code))"
| "query_loop env (GotResp r f) h =
     (if nr_From r = '''' then query_end env h
      else let (out, h') = fmt_ResponseReceived r h; (rest, code) = query_loop env f h' in (out @ rest, code))"
| "query_loop env Interrupt h = ([], 1)"

record query_opts = rpc_opts +
  qo_noAck :: bool
  qo_nodes :: "string list option"
  qo_tags :: "string list option"
  qo_timeout :: duration
  qo_format :: string

definition query_flagset :: "cli_env \<Rightarrow> query_opts flagset" where
  "query_flagset env =
     rpc_flagset(''node'' \<mapsto> StringVar (\<lambda>v p. p\<lparr>qo_nodes := AppendSlice_Set v (qo_nodes p)\<rparr>),
       ''tag'' \<mapsto> StringVar (\<lambda>v p. p\<lparr>qo_tags := AppendSlice_Set v (qo_tags p)\<rparr>),
       ''timeout'' \<mapsto> ParsedVar (cx_duration env) (\<lambda>v p. p\<lparr>qo_timeout := v\<rparr>),
       ''no-ack'' \<mapsto> BoolVar (\<lambda>v p. p\<lparr>qo_noAck := v\<rparr>), ''format'' \<mapsto> StringVar (\<lambda>v p. p\<lparr>qo_format := v\<rparr>))"

definition query_format :: "string \<Rightarrow> string \<Rightarrow> bool \<Rightarrow> queryRespFormat option" where
  "query_format format name noAck =
     (if format = ''text'' then Some (TextFormat \<lparr>tq_name = name, tq_noAck = noAck, tq_numAcks = 0, tq_numResp = 0\<rparr>)
      else if format = ''json'' then Some (JsonFormat \<lparr>jq_Acks = [], jq_Responses = Map.empty\<rparr>)
      else None)"

definition Query_Run :: "cli_env \<Rightarrow> 's qlink \<Rightarrow> string list \<Rightarrow> 's cmd" where
  "Query_Run env lk args =
     with_flags env ''query'' (query_flagset env)
       (rpc_opts.extend (rpc_defaults env) (query_opts.fields False None None 0 ''text'')) args (\<lambda>opts rest.
       case UnmarshalTags (slice (qo_tags opts)) of
         Inl err \<Rightarrow> act_ret ([UError (''Error: '' @ err)], 1)
       | Inr filterTags \<Rightarrow>
           if length rest < 1 then act_ret (usage_error env ''query'' ''A query name must be specified.'')
           else if 2 < length rest then
             act_ret (usage_error env ''query'' ''Too many command line arguments. Only a name and payload must be specified.'')
           else with_client (link.truncate lk) opts
             (case query_format (qo_format opts) (rest ! 0) (qo_noAck opts) of
                None \<Rightarrow> act_ret ([UError (''Invalid format: '' @ qo_format opts)], 1)
              | Some h \<Rightarrow>
                  act_bind (lk_query lk \<lparr>qr_FilterNodes = slice (qo_nodes opts), qr_FilterTags = filterTags,
                      qr_RequestAck = \<not> qo_noAck opts, qr_Timeout = qo_timeout opts, qr_Name = rest ! 0,
                      qr_Payload = (if length rest = 2 then Some (rest ! 1) else None)\<rparr>)
                    (\<lambda>(err, f). case err of
                       Some e \<Rightarrow> act_ret ([UError (''Error sending query: '' @ e)], 1)
                     | None \<Rightarrow> saying (fmt_Started h) (act_ret (query_loop env f h)))))"

section \<open>What a query reports\<close>

text \<open>The names and responses taken up to the end of the loop, and whether it was the user who ended it.\<close>

fun acked :: "feed \<Rightarrow> string list" where
  "acked (GotAck a f) = (if a = '''' then [] else a # acked f)"
| "acked (GotResp r f) = (if nr_From r = '''' then [] else acked f)"
| "acked Interrupt = []"

fun responded :: "feed \<Rightarrow> NodeResponse list" where
  "responded (GotAck a f) = (if a = '''' then [] else responded f)"
| "responded (GotResp r f) = (if nr_From r = '''' then [] else r # responded f)"
| "responded Interrupt = []"

fun interrupted :: "feed \<Rightarrow> bool" where
  "interrupted (GotAck a f) \<longleftrightarrow> a \<noteq> '''' \<and> interrupted f"
| "interrupted (GotResp r f) \<longleftrightarrow> nr_From r \<noteq> '''' \<and> interrupted f"
| "interrupted Interrupt \<longleftrightarrow> True"

definition acks_of :: "queryRecord list \<Rightarrow> string list" where
  "acks_of recs = map qrec_From (filter (\<lambda>rec. qrec_Type rec = cl_queryRecordAck) recs)"

definition resps_of :: "queryRecord list \<Rightarrow> NodeResponse list" where
  "resps_of recs =
     map (\<lambda>rec. \<lparr>nr_From = qrec_From rec, nr_Payload = qrec_Payload rec\<rparr>)
       (filter (\<lambda>rec. qrec_Type rec = cl_queryRecordResponse) recs)"

lemma record_types: "cl_queryRecordAck \<noteq> cl_queryRecordResponse"
  by (simp add: client_constants queryRecordAck_def queryRecordResponse_def)

lemma of_recs_simps [simp]:
  "acks_of [] = []" "resps_of [] = []"
  "acks_of (rec # recs) = (if qrec_Type rec = cl_queryRecordAck then qrec_From rec # acks_of recs else acks_of recs)"
  "resps_of (rec # recs) = (if qrec_Type rec = cl_queryRecordResponse
     then \<lparr>nr_From = qrec_From rec, nr_Payload = qrec_Payload rec\<rparr> # resps_of recs else resps_of recs)"
  by (simp_all add: acks_of_def resps_of_def)

lemma recv_cases:
  assumes "recv zero c = Some (x, c')"
  obtains xs where "ch_buf c = x # xs" and "c' = c\<lparr>ch_buf := xs\<rparr>"
  | "ch_buf c = []" and "ch_closed c" and "x = zero" and "c' = c"
  using assms by (auto simp: recv_def split: list.splits if_splits)

text \<open>A record handled puts its name or response behind the buffer of its channel.\<close>

lemma deliver_record:
  assumes codec: "codec_inverts codec"
    and run: "query_Handle codec h qh [DBody (RQuery rec)] = Ret (qh', [], Continue)"
    and qh: "qh_init qh" "qh_ackCh qh = Some ca" "qh_respCh qh = Some cr"
    and room: "\<not> ch_closed ca" "\<not> ch_closed cr" "length (ch_buf ca @ acks_of [rec]) \<le> ch_cap ca" "length (ch_buf cr @ resps_of [rec]) \<le> ch_cap cr"
  shows "qh' = qh\<lparr>qh_ackCh := Some (ca\<lparr>ch_buf := ch_buf ca @ acks_of [rec]\<rparr>), qh_respCh := Some (cr\<lparr>ch_buf := ch_buf cr @ resps_of [rec]\<rparr>)\<rparr>"
proof -
  have "decode_body codec KQuery [DBody (RQuery rec)] = (Inr (RQuery rec), [])"
    using codec by (auto simp: decode_body_def codec_inverts_def dest: spec [of _ "RQuery rec"])
  then show ?thesis
    using run qh room record_types
    by (auto simp: query_Handle_def send_opt_def try_send_def split: if_splits)
qed

lemma cleanup_channels:
  assumes "query_Cleanup qh = Ret qh'" and "qh_init qh" "qh_ackCh qh = Some ca" "qh_respCh qh = Some cr" "ch_closed ca = ch_closed cr"
  obtains b where "qh_init qh'" "qh_ackCh qh' = Some (ca\<lparr>ch_closed := b\<rparr>)" "qh_respCh qh' = Some (cr\<lparr>ch_closed := b\<rparr>)"
proof (cases "qh_closed qh")
  case True
  with assms that [of "ch_closed ca"] show thesis by (simp add: query_Cleanup_def)
next
  case False
  with assms that [of True] show thesis
    by (auto simp: query_Cleanup_def close_opt_def close_chan_def go_bind_eq_Ret split: if_splits)
qed

lemma feed_reports:
  assumes "feeds codec qh recs f" and "codec_inverts codec"
    and "qh_init qh" "qh_ackCh qh = Some ca" "qh_respCh qh = Some cr" "ch_closed ca = ch_closed cr" "ch_closed ca \<Longrightarrow> recs = []"
    and "length (ch_buf ca @ acks_of recs) \<le> ch_cap ca" "length (ch_buf cr @ resps_of recs) \<le> ch_cap cr"
    and "'''' \<notin> set (ch_buf ca @ acks_of recs)" "'''' \<notin> nr_From ` set (ch_buf cr @ resps_of recs)"
  shows "prefix (acked f) (ch_buf ca @ acks_of recs) \<and> prefix (responded f) (ch_buf cr @ resps_of recs) \<and>
    (\<not> interrupted f \<longrightarrow> acked f = ch_buf ca @ acks_of recs \<or> responded f = ch_buf cr @ resps_of recs)"
  using assms
proof (induction arbitrary: ca cr rule: feeds.induct)
  case (feed_deliver n qh rec qh' recs f)
  let ?ca = "ca\<lparr>ch_buf := ch_buf ca @ acks_of [rec]\<rparr>" and ?cr = "cr\<lparr>ch_buf := ch_buf cr @ resps_of [rec]\<rparr>"
  have "qh' = qh\<lparr>qh_ackCh := Some ?ca, qh_respCh := Some ?cr\<rparr>"
    using feed_deliver.prems by (intro deliver_record [OF feed_deliver.prems(1) feed_deliver.hyps(1)]) (auto split: if_splits)
  with feed_deliver.prems feed_deliver.IH [of ?ca ?cr] show ?case
    by (auto split: if_splits)
next
  case (feed_cleanup qh qh' f)
  from cleanup_channels [OF feed_cleanup.hyps(1) feed_cleanup.prems(2-5)] obtain b where
    "qh_init qh'" "qh_ackCh qh' = Some (ca\<lparr>ch_closed := b\<rparr>)" "qh_respCh qh' = Some (cr\<lparr>ch_closed := b\<rparr>)" .
  with feed_cleanup.prems feed_cleanup.IH [of "ca\<lparr>ch_closed := b\<rparr>" "cr\<lparr>ch_closed := b\<rparr>"] show ?case by simp
next
  case (feed_ack qh c a c' recs f)
  then have c: "c = ca" by simp
  from feed_ack.hyps(2) show ?case
  proof (cases rule: recv_cases)
    case (1 xs)
    then show ?thesis
      using feed_ack.prems feed_ack.IH [of "ca\<lparr>ch_buf := xs\<rparr>" cr] c by auto
  next
    case 2
    then show ?thesis using feed_ack.prems c by simp
  qed
next
  case (feed_resp qh c r c' recs f)
  then have c: "c = cr" by simp
  from feed_resp.hyps(2) show ?case
  proof (cases rule: recv_cases)
    case (1 xs)
    then show ?thesis
      using feed_resp.prems feed_resp.IH [of ca "cr\<lparr>ch_buf := xs\<rparr>"] c by auto
  next
    case 2
    then show ?thesis using feed_resp.prems c by (simp add: zero_NodeResponse_def)
  qed
qed simp

text \<open>The lines of the text format.\<close>

definition ack_line :: "string \<Rightarrow> ui" where "ack_line a = UInfo (''Ack from '' @ quoted a)"

definition resp_line :: "NodeResponse \<Rightarrow> ui" where
  "resp_line r = UInfo (''Response from '' @ quoted (nr_From r) @ '': '' @ trim_newline (nr_Payload r))"

lemma text_format:
  "fmt_AckReceived a (TextFormat t) = ([ack_line a], TextFormat (t\<lparr>tq_numAcks := tq_numAcks t + 1\<rparr>))"
  "fmt_ResponseReceived r (TextFormat t) = ([resp_line r], TextFormat (t\<lparr>tq_numResp := tq_numResp t + 1\<rparr>))"
  by (simp_all add: ack_line_def resp_line_def)

declare fmt_AckReceived.simps(1) [simp del] fmt_ResponseReceived.simps(1) [simp del]

lemma text_loop:
  "\<exists>lines. lines \<in> shuffles (map ack_line (acked f)) (map resp_line (responded f)) \<and>
    query_loop env f (TextFormat t) =
      (if interrupted f then (lines, 1)
       else (lines @ fst (fmt_Finished env (TextFormat (t\<lparr>tq_numAcks := tq_numAcks t + of_nat (length (acked f)),
               tq_numResp := tq_numResp t + of_nat (length (responded f))\<rparr>))), 0))"
proof (induction f arbitrary: t)
  case (GotAck a f)
  show ?case
  proof (cases "a = ''''")
    case False
    from GotAck.IH [of "t\<lparr>tq_numAcks := tq_numAcks t + 1\<rparr>"] obtain lines where
      "lines \<in> shuffles (map ack_line (acked f)) (map resp_line (responded f))"
      "query_loop env f (TextFormat (t\<lparr>tq_numAcks := tq_numAcks t + 1\<rparr>)) =
        (if interrupted f then (lines, 1)
         else (lines @ fst (fmt_Finished env (TextFormat (t\<lparr>tq_numAcks := tq_numAcks t + 1 + of_nat (length (acked f)),
               tq_numResp := tq_numResp t + of_nat (length (responded f))\<rparr>))), 0))"
      by auto
    with False show ?thesis
      by (intro exI [of _ "ack_line a # lines"]) (auto simp: text_format Cons_in_shuffles_leftI algebra_simps)
  qed (simp add: query_end_def)
next
  case (GotResp r f)
  show ?case
  proof (cases "nr_From r = ''''")
    case False
    from GotResp.IH [of "t\<lparr>tq_numResp := tq_numResp t + 1\<rparr>"] obtain lines where
      "lines \<in> shuffles (map ack_line (acked f)) (map resp_line (responded f))"
      "query_loop env f (TextFormat (t\<lparr>tq_numResp := tq_numResp t + 1\<rparr>)) =
        (if interrupted f then (lines, 1)
         else (lines @ fst (fmt_Finished env (TextFormat (t\<lparr>tq_numAcks := tq_numAcks t + of_nat (length (acked f)),
               tq_numResp := tq_numResp t + 1 + of_nat (length (responded f))\<rparr>))), 0))"
      by auto
    with False show ?thesis
      by (intro exI [of _ "resp_line r # lines"]) (auto simp: text_format Cons_in_shuffles_rightI algebra_simps)
  qed (simp add: query_end_def)
qed simp

lemma sint_count: "n < 2 ^ 63 \<Longrightarrow> sint (of_nat n :: int64) = int n"
  by (simp add: signed_of_nat signed_take_bit_int_eq_self)

lemma show_count: "n < 2 ^ 63 \<Longrightarrow> show_int (sint (of_nat n :: int64)) = show_nat n"
  by (simp add: show_int_def sint_count)

text \<open>A query whose acks and responses (at most 128 of each, from named nodes) the client's listener hands on:
  whatever the interleaving of listener and command, what is reported is an initial part of the acks and
  an initial part of the responses, in order and nothing else, merged in some way; unless the user
  interrupts, one of the two is complete, the totals printed are those of the lines, and the exit code is 0;
  an interrupt gives exit code 1 and no totals. (The other part may be lost: the loop stops at the first
  closed channel it happens to pick.)\<close>

lemma query_reports:
  assumes "feeds codec (open_query (Some (make_chan 128)) (Some (make_chan 128))) recs f" and "codec_inverts codec"
    and "length (acks_of recs) \<le> 128" "length (resps_of recs) \<le> 128"
    and "\<forall>rec \<in> set recs. qrec_From rec \<noteq> ''''"
  shows "\<exists>as rs lines. prefix as (acks_of recs) \<and> prefix rs (resps_of recs) \<and>
    lines \<in> shuffles (map ack_line as) (map resp_line rs) \<and>
    query_loop env f (TextFormat \<lparr>tq_name = name, tq_noAck = noAck, tq_numAcks = 0, tq_numResp = 0\<rparr>) =
      (if interrupted f then (lines, 1)
       else (lines @ (if noAck then [] else [UOutput (''Total Acks: '' @ show_nat (length as))]) @
               [UOutput (''Total Responses: '' @ show_nat (length rs))], 0)) \<and>
    (interrupted f \<or> as = acks_of recs \<or> rs = resps_of recs)"
proof -
  have named: "'''' \<notin> set (acks_of recs)" "'''' \<notin> nr_From ` set (resps_of recs)"
    using assms(5) by (auto simp: acks_of_def resps_of_def)
  have r: "prefix (acked f) (acks_of recs)" "prefix (responded f) (resps_of recs)"
    "interrupted f \<or> acked f = acks_of recs \<or> responded f = resps_of recs"
    using feed_reports [OF assms(1,2), of "make_chan 128" "make_chan 128"] assms(3,4) named
    by (auto simp: open_query_def make_chan_def)
  then have "length (acked f) < 2 ^ 63" "length (responded f) < 2 ^ 63"
    using assms(3,4) prefix_length_le [OF r(1)] prefix_length_le [OF r(2)] by simp_all
  moreover obtain lines where "lines \<in> shuffles (map ack_line (acked f)) (map resp_line (responded f))"
    "query_loop env f (TextFormat \<lparr>tq_name = name, tq_noAck = noAck, tq_numAcks = 0, tq_numResp = 0\<rparr>) =
      (if interrupted f then (lines, 1)
       else (lines @ fst (fmt_Finished env (TextFormat \<lparr>tq_name = name, tq_noAck = noAck,
         tq_numAcks = of_nat (length (acked f)), tq_numResp = of_nat (length (responded f))\<rparr>)), 0))"
    using text_loop [where f = f and env = env and t = "\<lparr>tq_name = name, tq_noAck = noAck, tq_numAcks = 0, tq_numResp = 0\<rparr>"] by auto
  ultimately show ?thesis
    using r by (intro exI [of _ "acked f"] exI [of _ "responded f"] exI [of _ lines]) (auto simp: show_count)
qed

text \<open>A run that loses a response: both records are in the channels when the listener closes them, the ack is
  taken, and then the closed ack channel is picked before the response.\<close>

definition lossy_records :: "queryRecord list" where
  "lossy_records =
     [\<lparr>qrec_Type = cl_queryRecordAck, qrec_From = ''n1'', qrec_Payload = ''''\<rparr>,
      \<lparr>qrec_Type = cl_queryRecordResponse, qrec_From = ''n1'', qrec_Payload = ''pong''\<rparr>]"

lemma lossy_feed:
  "feeds down_codec (open_query (Some (make_chan 128)) (Some (make_chan 128))) lossy_records (GotAck ''n1'' (GotAck '''' Interrupt))"
proof -
  let ?r = "\<lparr>nr_From = ''n1'', nr_Payload = ''pong''\<rparr>"
  let ?ch = "\<lambda>b buf. \<lparr>ch_buf = buf, ch_cap = 128, ch_closed = b\<rparr>"
  let ?qh = "\<lambda>b as rs. (open_query (Some (?ch b as)) (Some (?ch b rs)))\<lparr>qh_closed := b\<rparr>"
  have "feeds down_codec (?qh True [''n1''] [?r]) [] (GotAck ''n1'' (GotAck '''' Interrupt))"
    by (rule feed_ack feed_interrupt | simp add: open_query_def recv_def)+
  then have "feeds down_codec (?qh False [''n1''] [?r]) [] (GotAck ''n1'' (GotAck '''' Interrupt))"
    by (rule feed_cleanup [rotated]) (simp add: query_Cleanup_def open_query_def close_opt_def close_chan_def)
  then have "feeds down_codec (?qh False [''n1''] []) (tl lossy_records) (GotAck ''n1'' (GotAck '''' Interrupt))"
    unfolding lossy_records_def list.sel
    by (rule feed_deliver [where n = 0, rotated]) (simp add: query_Handle_def open_query_def decode_body_def down_codec_def send_opt_def try_send_def
        client_constants queryRecordAck_def queryRecordResponse_def)
  then have "feeds down_codec (?qh False [] []) lossy_records (GotAck ''n1'' (GotAck '''' Interrupt))"
    unfolding lossy_records_def list.sel
    by (rule feed_deliver [where n = 0, rotated]) (simp add: query_Handle_def open_query_def decode_body_def down_codec_def send_opt_def try_send_def)
  then show ?thesis by (simp add: make_chan_def open_query_def)
qed

end
