(* ===== verification/CliWatch.thy ===== *)
theory CliWatch
  imports CliStreams
begin

text \<open>
  The reachability test (\<^verbatim>\<open>command/reachability.go\<close>) and the monitor (\<^verbatim>\<open>command/monitor.go\<close>): what they make of
  what their channels yield, and what their verdicts mean.
\<close>

section \<open>Reachability\<close>

definition newline :: string where "newline = [CHR 0x0A]"

definition tooManyAcks :: string where
  "tooManyAcks = ''This could mean Serf is detecting false-failures due to a misconfiguration or network issue.''"

definition tooFewAcks :: string where
  "tooFewAcks = ''This could mean Serf gossip packets are being lost due to a misconfiguration or network issue.''"

definition duplicateResponses :: string where
  "duplicateResponses = ''Duplicate responses means there is a misconfiguration. Verify that node names are unique.''"

definition troubleshooting :: string where
  "troubleshooting =
     newline @ ''Troubleshooting tips:'' @
     newline @ ''* Ensure that the bind addr:port is accessible by all other nodes'' @
     newline @ ''* If an advertise address is set, ensure it routes to the bind address'' @
     newline @ ''* Check that no nodes are behind a NAT'' @
     newline @ ''* If nodes are behind firewalls or iptables, check that Serf traffic is permitted (UDP and TCP)'' @
     newline @ ''* Verify networking equipment is functional''"

record reach =
  re_dups :: bool
  re_numAcks :: int64
  re_acksFrom :: "string set"

text \<open>The loop: \<open>None\<close> when interrupted. There is no response channel, so the select never finds a response.\<close>

fun reach_loop :: "bool \<Rightarrow> feed \<Rightarrow> reach \<Rightarrow> ui list \<times> reach option" where
  "reach_loop verbose (GotAck a f) st =
     (if a = '''' then ([], Some st)
      else let out = (if verbose then [UOutput ([CHR 0x09] @ ''Ack from '' @ quoted a)] else []) @
                 (if a \<in> re_acksFrom st then [UOutput (''Duplicate response from '' @ quoted a)] else []);
               st' = \<lparr>re_dups = re_dups st \<or> a \<in> re_acksFrom st, re_numAcks = re_numAcks st + 1,
                      re_acksFrom = insert a (re_acksFrom st)\<rparr>;
               (rest, r) = reach_loop verbose f st'
           in (out @ rest, r))"
| "reach_loop verbose (GotResp r f) st = reach_loop verbose f st"
| "reach_loop verbose Interrupt st = ([UError ''Test interrupted''], None)"

text \<open>The verdict; \<open>alive\<close> are the names of the live members.\<close>

definition reach_verdict :: "cli_env \<Rightarrow> string set \<Rightarrow> reach \<Rightarrow> ui list \<times> int" where
  "reach_verdict env alive st =
     (let n = int (card alive); acks = sint (re_numAcks st);
          dup = (if re_dups st then [UOutput duplicateResponses] else []);
          listed = (\<lambda>S. map (\<lambda>m. UOutput ([CHR 0x09] @ m)) (cx_order env S))
      in if acks = n then (dup @ [UOutput ''Successfully contacted all live nodes''], if re_dups st then 1 else 0)
         else if acks > n then
           (dup @ [UOutput ''Received more acks than live nodes! Acks from non-live nodes:''] @ listed (re_acksFrom st - alive) @
             [UOutput tooManyAcks, UOutput troubleshooting], 1)
         else
           (dup @ [UOutput ''Received less acks than live nodes! Missing acks from:''] @ listed (alive - re_acksFrom st) @
             [UOutput tooFewAcks, UOutput troubleshooting], 1))"

text \<open>\<open>timing\<close> is the line of the query's durations.\<close>

definition reach_report :: "cli_env \<Rightarrow> bool \<Rightarrow> string \<Rightarrow> string set \<Rightarrow> feed \<Rightarrow> ui list \<times> int" where
  "reach_report env verbose timing alive f =
     (case reach_loop verbose f \<lparr>re_dups = False, re_numAcks = 0, re_acksFrom = {}\<rparr> of
        (out, None) \<Rightarrow> (out, 1)
      | (out, Some st) \<Rightarrow>
          (let (v, code) = reach_verdict env alive st
           in (out @ (if verbose then [UOutput timing] else []) @ v, code)))"

definition live_names :: "IpcMember list \<Rightarrow> string set" where
  "live_names ms = set (map im_Name (filter (\<lambda>m. im_Status m = ''alive'') ms))"

record reach_opts = rpc_opts +
  rh_verbose :: bool

definition Reachability_Run :: "cli_env \<Rightarrow> string \<Rightarrow> string \<Rightarrow> 's qlink \<Rightarrow> string list \<Rightarrow> 's cmd" where
  "Reachability_Run env internalPrefix timing lk args =
     with_flags env ''reachability'' (rpc_flagset(''verbose'' \<mapsto> BoolVar (\<lambda>v p. p\<lparr>rh_verbose := v\<rparr>)))
       (rpc_opts.extend (rpc_defaults env) (reach_opts.fields False)) args (\<lambda>opts rest.
       with_client (link.truncate lk) opts
         (calling (link.truncate lk) AMembers ''Error getting members: '' (\<lambda>r.
            let ms = result_Members r; alive = live_names ms in
            saying [UOutput (''Total members: '' @ show_nat (length ms) @ '', live members: '' @ show_nat (card alive))]
              (act_bind (lk_query lk \<lparr>qr_FilterNodes = [], qr_FilterTags = Map.empty, qr_RequestAck = True, qr_Timeout = 0,
                   qr_Name = internalPrefix @ ''ping'', qr_Payload = None\<rparr>)
                (\<lambda>(err, f). case err of
                   Some e \<Rightarrow> act_ret ([UError (''Error sending query: '' @ e)], 1)
                 | None \<Rightarrow> saying [UOutput ''Starting reachability test...'']
                     (act_ret (reach_report env (rh_verbose opts) timing alive f)))))))"

section \<open>Monitor\<close>

text \<open>\<open>render\<close> prints the fields of an event; the result says whether the loop has ended.\<close>

fun monitor_loop :: "(reply \<Rightarrow> ui list) \<Rightarrow> monitor_feed \<Rightarrow> ui list \<times> bool" where
  "monitor_loop render (GotLog l f) =
     (if l = '''' then ([], True) else (let (rest, e) = monitor_loop render f in (UInfo l # rest, e)))"
| "monitor_loop render (GotEvent None f) = ([], True)"
| "monitor_loop render (GotEvent (Some r) f) =
     (let (rest, e) = monitor_loop render f in (UInfo ''Event Info:'' # render r @ rest, e))"
| "monitor_loop render MonitorInterrupt = ([], False)"

text \<open>When the loop has ended an interrupt may still come: before or after the goroutine looks at \<open>quitting\<close>.\<close>

datatype late_signal = NoSignal | BeforeCheck | AfterCheck

definition remote_ended :: "ui list" where
  "remote_ended =
     [UInfo '''', UOutput (''Remote side ended the monitor! This usually means that the'' @ newline @ ''remote side has exited or crashed.'')]"

definition monitor_report :: "(reply \<Rightarrow> ui list) \<Rightarrow> monitor_feed \<Rightarrow> late_signal \<Rightarrow> ui list \<times> int" where
  "monitor_report render f late =
     (let (out, e) = monitor_loop render f in
      if \<not> e then (out, 0)
      else case late of
        NoSignal \<Rightarrow> (out @ remote_ended, 1)
      | BeforeCheck \<Rightarrow> (out, 0)
      | AfterCheck \<Rightarrow> (out @ remote_ended, 0))"

definition deferring :: "('r, 's) act \<Rightarrow> 's cmd \<Rightarrow> 's cmd" where
  "deferring stop body = act_bind body (\<lambda>out. act_bind stop (\<lambda>_. act_ret out))"

record monitor_opts = rpc_opts +
  mt_level :: string

definition Monitor_Run :: "cli_env \<Rightarrow> (reply \<Rightarrow> ui list) \<Rightarrow> late_signal \<Rightarrow> 's qlink \<Rightarrow> string list \<Rightarrow> 's cmd" where
  "Monitor_Run env render late lk args =
     with_flags env ''monitor'' (rpc_flagset(''log-level'' \<mapsto> StringVar (\<lambda>v p. p\<lparr>mt_level := v\<rparr>)))
       (rpc_opts.extend (rpc_defaults env) (monitor_opts.fields ''INFO'')) args (\<lambda>opts rest.
       with_client (link.truncate lk) opts
         (act_bind (lk_stream lk ''*'') (\<lambda>(err, streamHandle). case err of
            Some e \<Rightarrow> act_ret ([UError (''Error starting stream: '' @ e)], 1)
          | None \<Rightarrow> deferring (lk_stop lk streamHandle)
              (act_bind (lk_monitor lk (mt_level opts)) (\<lambda>(err, monHandle). case err of
                 Some e \<Rightarrow> act_ret ([UError (''Error starting monitor: '' @ e)], 1)
               | None \<Rightarrow> deferring (lk_stop lk monHandle)
                   (act_bind (lk_watch lk) (\<lambda>f. act_ret (monitor_report render f late))))))))"

section \<open>The verdict\<close>

text \<open>Without a response channel the select finds acks only.\<close>

fun only_acks :: "feed \<Rightarrow> bool" where
  "only_acks (GotAck a f) \<longleftrightarrow> only_acks f"
| "only_acks (GotResp r f) \<longleftrightarrow> False"
| "only_acks Interrupt \<longleftrightarrow> True"

lemma query_Handle_nil:
  "query_Handle codec h qh input = Ret (qh', rest, a) \<Longrightarrow> qh_respCh qh = None \<Longrightarrow> qh_respCh qh' = None"
  by (auto simp: query_Handle_def go_bind_eq_Ret send_opt_def split: if_splits prod.splits sum.splits reply.splits)

lemma query_Cleanup_nil: "query_Cleanup qh = Ret qh' \<Longrightarrow> qh_respCh qh = None \<Longrightarrow> qh_respCh qh' = None"
  by (auto simp: query_Cleanup_def go_bind_eq_Ret close_opt_def Let_def split: if_splits)

lemma feeds_only_acks: "feeds codec qh recs f \<Longrightarrow> qh_respCh qh = None \<Longrightarrow> only_acks f"
  by (induction rule: feeds.induct) (auto dest: query_Handle_nil query_Cleanup_nil)

lemma reach_loop_result:
  "only_acks f \<Longrightarrow> snd (reach_loop verbose f st) =
    (if interrupted f then None
     else Some \<lparr>re_dups = re_dups st \<or> \<not> distinct (acked f) \<or> set (acked f) \<inter> re_acksFrom st \<noteq> {},
       re_numAcks = re_numAcks st + of_nat (length (acked f)), re_acksFrom = set (acked f) \<union> re_acksFrom st\<rparr>)"
  by (induction f arbitrary: st) (auto simp: Let_def split_beta)

text \<open>C39. The reachability test exits with 0 exactly when it was not interrupted, no node acknowledged twice and
  there are as many acks as live members; so, if only live members acknowledge, exactly when each of them
  did, once. When acks are missing, the names of all live members without one are shown. (An ack of a node
  that is not alive can stand in for a missing one.)\<close>

theorem reachability_verdict:
  assumes "feeds codec (open_query (Some (make_chan 128)) None) recs f" and "length (acked f) < 2 ^ 63"
    and "\<And>S. finite S \<Longrightarrow> set (cx_order env S) = S" and "finite alive"
  shows "snd (reach_report env verbose timing alive f) \<in> {0, 1} \<and>
    (snd (reach_report env verbose timing alive f) = 0 \<longleftrightarrow>
      \<not> interrupted f \<and> distinct (acked f) \<and> length (acked f) = card alive) \<and>
    (set (acked f) \<subseteq> alive \<longrightarrow> (snd (reach_report env verbose timing alive f) = 0 \<longleftrightarrow>
      \<not> interrupted f \<and> distinct (acked f) \<and> set (acked f) = alive)) \<and>
    (\<not> interrupted f \<and> length (acked f) < card alive \<longrightarrow>
      (\<forall>m \<in> alive - set (acked f). UOutput ([CHR 0x09] @ m) \<in> set (fst (reach_report env verbose timing alive f))))"
proof -
  let ?st = "\<lparr>re_dups = \<not> distinct (acked f), re_numAcks = of_nat (length (acked f)), re_acksFrom = set (acked f)\<rparr>"
  obtain out where loop: "reach_loop verbose f \<lparr>re_dups = False, re_numAcks = 0, re_acksFrom = {}\<rparr> =
      (out, if interrupted f then None else Some ?st)"
    using reach_loop_result [OF feeds_only_acks [OF assms(1)], of verbose "\<lparr>re_dups = False, re_numAcks = 0, re_acksFrom = {}\<rparr>"]
    by (cases "reach_loop verbose f \<lparr>re_dups = False, re_numAcks = 0, re_acksFrom = {}\<rparr>") (auto simp: open_query_def)
  note verdict = reach_verdict_def Let_def sint_count [OF assms(2)]
  have code: "snd (reach_report env verbose timing alive f) = 0 \<longleftrightarrow> \<not> interrupted f \<and> distinct (acked f) \<and> length (acked f) = card alive"
    "snd (reach_report env verbose timing alive f) \<in> {0, 1}"
    by (auto simp: reach_report_def loop verdict)
  have "distinct (acked f) \<and> length (acked f) = card alive \<longleftrightarrow> distinct (acked f) \<and> set (acked f) = alive"
    if "set (acked f) \<subseteq> alive"
    using that assms(4) card_subset_eq distinct_card by metis
  moreover have "UOutput ([CHR 0x09] @ m) \<in> set (fst (reach_report env verbose timing alive f))"
    if "\<not> interrupted f" "length (acked f) < card alive" "m \<in> alive - set (acked f)" for m
    using that assms(3) [of "alive - set (acked f)"] assms(4) by (auto simp: reach_report_def loop verdict)
  ultimately show ?thesis using code by blast
qed

text \<open>The run of \<open>lossy_feed\<close> without a response channel.\<close>

lemma probe_feed:
  "feeds down_codec (open_query (Some (make_chan 128)) None) (take 1 lossy_records) (GotAck ''n1'' (GotAck '''' Interrupt))"
proof -
  let ?ch = "\<lambda>b buf. \<lparr>ch_buf = buf, ch_cap = 128, ch_closed = b\<rparr>"
  let ?qh = "\<lambda>b as. (open_query (Some (?ch b as)) None)\<lparr>qh_closed := b\<rparr>"
  have "feeds down_codec (?qh True [''n1'']) [] (GotAck ''n1'' (GotAck '''' Interrupt))"
    by (rule feed_ack feed_interrupt | simp add: open_query_def recv_def)+
  then have "feeds down_codec (?qh False [''n1'']) [] (GotAck ''n1'' (GotAck '''' Interrupt))"
    by (rule feed_cleanup [rotated]) (simp add: query_Cleanup_def open_query_def close_opt_def close_chan_def)
  then have "feeds down_codec (?qh False []) (take 1 lossy_records) (GotAck ''n1'' (GotAck '''' Interrupt))"
    unfolding lossy_records_def
    by (simp, intro feed_deliver [where n = 0, rotated])
      (simp_all add: query_Handle_def open_query_def decode_body_def down_codec_def send_opt_def try_send_def)
  then show ?thesis by (simp add: make_chan_def open_query_def)
qed

theorem reachability_verdict_witness:
  "snd (reach_report demo_cli False '''' {''n1''} (GotAck ''n1'' (GotAck '''' Interrupt))) = 0 \<and>
    UOutput ([CHR 0x09] @ ''n2'') \<in> set (fst (reach_report demo_cli False '''' {''n1'', ''n2''} (GotAck ''n1'' (GotAck '''' Interrupt))))"
proof -
  have order: "finite S \<Longrightarrow> set (cx_order demo_cli S) = S" for S
    by (simp add: demo_cli_def)
  show ?thesis
    using reachability_verdict [OF probe_feed, of demo_cli "{''n1''}" False "''''"]
      reachability_verdict [OF probe_feed, of demo_cli "{''n1'', ''n2''}" False "''''"] order by simp
qed

section \<open>What the monitor shows\<close>

text \<open>The lines are shown in order up to an empty one (which also ends the monitor) or the interrupt; exit code 1
  means that the loop ended without the user.\<close>

lemma monitor_logs:
  assumes "'''' \<notin> set ls"
  shows "monitor_loop render (foldr GotLog ls MonitorInterrupt) = (map UInfo ls, False)"
    and "monitor_loop render (foldr GotLog ls (GotLog '''' f)) = (map UInfo ls, True)"
  using assms by (induction ls) auto

lemma monitor_exit: "snd (monitor_report render f late) = 1 \<longleftrightarrow> snd (monitor_loop render f) \<and> late = NoSignal"
  by (cases late) (auto simp: monitor_report_def split: prod.splits)

end
