(* ===== verification/CliSync.thy ===== *)
theory CliSync
  imports CliWatch
begin

text \<open>
  Copying a routing table between agents (\<^verbatim>\<open>command/sync.go\<close>): the command asks the named nodes for their
  RPC addresses with a query, connects to the addresses as they come in, and gives the first table it can
  fetch to its own agent.
\<close>

section \<open>The command\<close>

text \<open>\<open>rk\<close> is the connection to the other agent, \<open>lk\<close> the one to the command's own.\<close>

definition updateRouters :: "'s link \<Rightarrow> 's link \<Rightarrow> string \<Rightarrow> string \<Rightarrow> (ui list \<times> string option, 's) act" where
  "updateRouters lk rk addr auth =
     act_bind (lk_connect rk addr auth) (\<lambda>r. case r of
         Some err \<Rightarrow> act_ret ([UError (''Error connecting to '' @ addr @ '': '' @ err)], Some err)
       | None \<Rightarrow>
           act_bind
             (act_bind (lk_call rk AListRouters) (\<lambda>(err, rs). case err of
                Some e \<Rightarrow> act_ret ([UError (''Error getting router table from '' @ addr @ '': '' @ e)], Some e)
              | None \<Rightarrow>
                  act_bind (lk_call lk (AUpdateRouters (result_ListRouters rs))) (\<lambda>(err, _). case err of
                    Some e \<Rightarrow> act_ret ([UError (''Error updating router table from '' @ addr @ '': '' @ e)], Some e)
                  | None \<Rightarrow> act_ret ([], None))))
             (\<lambda>out. act_bind (lk_close rk) (\<lambda>_. act_ret out)))"

text \<open>The loop over the responses; the end of the list is the closed channel.\<close>

fun sync_loop :: "'s link \<Rightarrow> 's link \<Rightarrow> string \<Rightarrow> NodeResponse list \<Rightarrow> string \<Rightarrow> (ui list \<times> string, 's) act" where
  "sync_loop lk rk auth [] syncAddr = act_ret ([], syncAddr)"
| "sync_loop lk rk auth (r # rs) syncAddr =
     (if nr_From r = '''' then act_ret ([], syncAddr)
      else if syncAddr = '''' then
        act_bind (updateRouters lk rk (nr_Payload r) auth) (\<lambda>(out, err).
        act_bind (sync_loop lk rk auth rs (if err = None then nr_Payload r else '''')) (\<lambda>(rest, addr).
          act_ret (out @ rest, addr)))
      else sync_loop lk rk auth rs syncAddr)"

definition SyncRouters :: "'s qlink \<Rightarrow> 's link \<Rightarrow> string \<Rightarrow> string list \<Rightarrow> (ui list \<times> string, 's) act" where
  "SyncRouters lk rk auth names =
     act_bind (lk_collect lk \<lparr>qr_FilterNodes = names, qr_FilterTags = Map.empty, qr_RequestAck = False, qr_Timeout = 0,
         qr_Name = ''qr'', qr_Payload = None\<rparr>)
       (\<lambda>(err, rs). case err of
          Some e \<Rightarrow> act_ret ([UError (''Error sending query: '' @ e)], '''')
        | None \<Rightarrow> sync_loop (link.truncate lk) rk auth rs '''')"

definition Sync_Run :: "cli_env \<Rightarrow> 's qlink \<Rightarrow> 's link \<Rightarrow> string list \<Rightarrow> 's cmd" where
  "Sync_Run env lk rk args =
     with_flags env ''sync'' rpc_flagset (rpc_defaults env) args (\<lambda>opts nodes.
       if nodes = [] then act_ret (usage_error env ''sync'' ''At least one member to sync must be specified.'')
       else with_client (link.truncate lk) opts
         (act_bind (SyncRouters lk rk (ro_auth opts) nodes) (\<lambda>(out, syncAddr).
            act_ret (out @ (if syncAddr \<noteq> '''' then [UOutput (''Successfully sync router table from '' @ syncAddr)]
                            else [UOutput ''No router table is sync'']), 0))))"

section \<open>Two agents\<close>

text \<open>The command's own agent, the agents that can be dialled, and the connection to one of them.\<close>

record sync_world =
  sw_own :: direct_world
  sw_agents :: "string \<rightharpoonup> ipc"
  sw_other :: direct_world
  sw_answers :: "NodeResponse list"

definition on_own :: "('r, direct_world) act \<Rightarrow> ('r, sync_world) act" where
  "on_own m w = go_bind (m (sw_own w)) (\<lambda>(r, d). Ret (r, w\<lparr>sw_own := d\<rparr>))"

definition on_other :: "('r, direct_world) act \<Rightarrow> ('r, sync_world) act" where
  "on_other m w = go_bind (m (sw_other w)) (\<lambda>(r, d). Ret (r, w\<lparr>sw_other := d\<rparr>))"

definition dial_any :: "string \<Rightarrow> duration \<Rightarrow> string + string" where
  "dial_any addr timeout = Inr addr"

definition own_link :: "msg env \<Rightarrow> sync_world qlink" where
  "own_link env =
     \<lparr>lk_connect = (\<lambda>addr auth. on_own (direct_connect dial_any addr auth)), lk_call = (\<lambda>a. on_own (direct_call env a)),
      lk_close = on_own (\<lambda>d. Ret ((), d\<lparr>dw_state := NoConn\<rparr>)),
      lk_query = (\<lambda>rq. act_ret (None, Interrupt)), lk_collect = (\<lambda>rq w. Ret ((None, sw_answers w), w)),
      lk_stream = (\<lambda>s. act_ret (None, 0)), lk_monitor = (\<lambda>s. act_ret (None, 0)),
      lk_watch = act_ret MonitorInterrupt, lk_stop = (\<lambda>n. act_ret None)\<rparr>"

definition other_link :: "msg env \<Rightarrow> sync_world link" where
  "other_link env =
     \<lparr>lk_connect = (\<lambda>addr auth w. case sw_agents w addr of
          None \<Rightarrow> Ret (Some ''connection refused'', w)
        | Some i \<Rightarrow> on_other (direct_connect dial_any addr auth) (w\<lparr>sw_other := direct_idle i\<rparr>)),
      lk_call = (\<lambda>a. on_other (direct_call env a)), lk_close = on_other (\<lambda>d. Ret ((), d\<lparr>dw_state := NoConn\<rparr>))\<rparr>"

text \<open>An address that can be synchronised with: dialled with the given key, it is an agent whose key it is.\<close>

definition usable :: "(string \<rightharpoonup> ipc) \<Rightarrow> string \<Rightarrow> string \<Rightarrow> bool" where
  "usable agents auth addr \<longleftrightarrow> (case agents addr of None \<Rightarrow> False | Some i \<Rightarrow> ip_authKey i = auth)"

text \<open>Every agent has a discovery daemon with a well-formed table.\<close>

definition table_of :: "ipc \<Rightarrow> routers" where
  "table_of i = (case ip_discoverd i of None \<Rightarrow> Map.empty | Some d \<Rightarrow> d_table d)"

definition serving :: "ipc \<Rightarrow> bool" where
  "serving i \<longleftrightarrow> ip_discoverd i \<noteq> None \<and> wf_routers (table_of i)"

lemma direct_list:
  assumes "serving i" and "env_ok env"
  shows "\<exists>rs. direct env Map.empty i AListRouters = Ret (Some (None, Some (RRouters rs), i, [])) \<and>
    (\<forall>j. serving j \<longrightarrow> (\<exists>j'. direct env Map.empty j (AUpdateRouters rs) = Ret (Some (None, None, j', [])) \<and>
       serving j' \<and> table_of j' = table_of i))"
proof -
  obtain d where d: "ip_discoverd i = Some d" using assms(1) by (auto simp: serving_def)
  let ?ks = "s_keys env (dom (d_table d))"
  have wf: "wf_routers (d_table d)"
    using assms(1) d by (simp add: serving_def table_of_def)
  have ks: "enumerates ?ks (d_table d)"
    using assms(2) wf_routers_finite [OF wf] by (simp add: enumerates_def env_ok_def)
  have "direct env Map.empty j (AUpdateRouters (map (\<lambda>k. the (d_table d k)) ?ks)) =
      Ret (Some (None, None, j\<lparr>ip_discoverd := Some (e\<lparr>d_repo := (d_repo e)\<lparr>routers := d_table d\<rparr>\<rparr>)\<rparr>, []))"
    if j: "serving j" "ip_discoverd j = Some e" for j e
  proof -
    have "enumerates (s_keys env (dom (d_table e))) (d_table e)"
      using assms(2) j wf_routers_finite by (simp add: enumerates_def env_ok_def serving_def table_of_def)
    then have "UpdateRouters (s_keys env (dom (d_table e))) (map (\<lambda>k. the (d_table d k)) ?ks) (d_table e) = d_table d"
      using wf by (intro UpdateRouters_ListRouters [OF ks]) (auto simp: wf_router_def dest: wf_routersD)
    then show ?thesis using j by (simp add: Discoverd_UpdateRouters_def repo_UpdateRouters_def)
  qed
  then have "\<exists>j'. direct env Map.empty j (AUpdateRouters (map (\<lambda>k. the (d_table d k)) ?ks)) = Ret (Some (None, None, j', [])) \<and>
       serving j' \<and> table_of j' = table_of i" if "serving j" for j
    using that d wf by (cases "ip_discoverd j") (auto simp: serving_def table_of_def)
  then show ?thesis
    using d ks by (simp add: Discoverd_ListRouters_def ListRouters_eq)
qed

text \<open>One address: if it is usable, the own agent gets its table, otherwise an error is reported and nothing changes.\<close>

definition sync_ready :: "sync_world \<Rightarrow> bool" where
  "sync_ready w \<longleftrightarrow> dw_state (sw_own w) = OpenConn \<and> serving (dw_server (sw_own w)) \<and> (\<forall>a i. sw_agents w a = Some i \<longrightarrow> serving i)"

lemma update_from:
  assumes w: "sync_ready w" and env: "env_ok env"
  shows "\<exists>out err w'. updateRouters (link.truncate (own_link env)) (other_link env) addr auth w = Ret ((out, err), w') \<and>
    sync_ready w' \<and> sw_agents w' = sw_agents w \<and>
    (if usable (sw_agents w) auth addr
     then out = [] \<and> err = None \<and> table_of (dw_server (sw_own w')) = table_of (the (sw_agents w addr))
     else err \<noteq> None \<and> length out = 1 \<and> sw_own w' = sw_own w)"
proof (cases "sw_agents w addr")
  case None
  then show ?thesis
    using w by (simp add: updateRouters_def act_bind_def act_ret_def other_link_def usable_def)
next
  case (Some i)
  then have i: "serving i" using w by (simp add: sync_ready_def)
  note defs = updateRouters_def act_bind_def act_ret_def other_link_def usable_def on_other_def direct_connect_def dial_any_def
    direct_idle_def sync_ready_def
  show ?thesis
  proof (cases "ip_authKey i = auth")
    case False
    then show ?thesis
      using w Some by (auto simp: defs direct_call_def)
  next
    case True
    obtain rs where rs: "direct env Map.empty i AListRouters = Ret (Some (None, Some (RRouters rs), i, []))"
      and upd: "\<And>j. serving j \<Longrightarrow> \<exists>j'. direct env Map.empty j (AUpdateRouters rs) = Ret (Some (None, None, j', [])) \<and>
        serving j' \<and> table_of j' = table_of i"
      using direct_list [OF i env] by blast
    obtain j' where "direct env Map.empty (dw_server (sw_own w)) (AUpdateRouters rs) = Ret (Some (None, None, j', []))"
      "serving j'" "table_of j' = table_of i"
      using upd [of "dw_server (sw_own w)"] w by (auto simp: sync_ready_def)
    then show ?thesis
      using w Some True rs
      by (simp add: defs own_link_def link.defs on_own_def direct_call_def strToError_def del: direct.simps)
  qed
qed

text \<open>After a success the remaining addresses are only taken from the channel.\<close>

lemma sync_loop_done: "addr \<noteq> '''' \<Longrightarrow> sync_loop lk rk auth rs addr w = Ret (([], addr), w)"
  by (induction rs) (auto simp: act_ret_def)

lemma sync_from:
  assumes env: "env_ok env" and w: "sync_ready w" and agents: "sw_agents w = A" and rs: "\<forall>r \<in> set rs. nr_From r \<noteq> '''' \<and> nr_Payload r \<noteq> ''''"
  shows "\<exists>out addr w'. sync_loop (link.truncate (own_link env)) (other_link env) auth rs '''' w = Ret ((out, addr), w') \<and>
    sync_ready w' \<and>
    (case find (usable A auth) (map nr_Payload rs) of
       None \<Rightarrow> addr = '''' \<and> length out = length rs \<and> sw_own w' = sw_own w
     | Some a \<Rightarrow> addr = a \<and> table_of (dw_server (sw_own w')) = table_of (the (A a)))"
  using w agents rs
proof (induction rs arbitrary: w)
  case Nil
  then show ?case by (simp add: act_ret_def)
next
  case (Cons r rs)
  obtain out err w1 where step: "updateRouters (link.truncate (own_link env)) (other_link env) (nr_Payload r) auth w = Ret ((out, err), w1)"
    "sync_ready w1" "sw_agents w1 = A"
    and res: "if usable A auth (nr_Payload r)
     then out = [] \<and> err = None \<and> table_of (dw_server (sw_own w1)) = table_of (the (A (nr_Payload r)))
     else err \<noteq> None \<and> length out = 1 \<and> sw_own w1 = sw_own w"
    using update_from [OF Cons.prems(1) env] unfolding Cons.prems(2) by blast
  show ?case
  proof (cases "usable A auth (nr_Payload r)")
    case True
    then show ?thesis
      using step res Cons.prems(3) by (simp add: act_bind_def act_ret_def sync_loop_done)
  next
    case False
    obtain out' addr w' where
      "sync_loop (link.truncate (own_link env)) (other_link env) auth rs '''' w1 = Ret ((out', addr), w')" "sync_ready w'"
      "case find (usable A auth) (map nr_Payload rs) of
         None \<Rightarrow> addr = '''' \<and> length out' = length rs \<and> sw_own w' = sw_own w1
       | Some a \<Rightarrow> addr = a \<and> table_of (dw_server (sw_own w')) = table_of (the (A a))"
      using Cons.IH [OF step(2,3)] Cons.prems(3) by auto
    then show ?thesis
      using step res False Cons.prems(3) by (auto simp: act_bind_def act_ret_def split: option.splits)
  qed
qed

section \<open>The property\<close>

text \<open>C40. With the agent's key, \<^verbatim>\<open>sync\<close> leaves the agent with the routing table of the first answering node whose
  address can be dialled with that key, whatever the agent held before, and says so; when there is no such
  node the agent keeps its table. The exit code is 0 in both cases.\<close>

theorem sync_copies_table:
  assumes "env_ok env" and "parse_flags rpc_flagset args (rpc_defaults cx) = Inr (opts, names)" and "names \<noteq> []"
    and "ro_auth opts = ip_authKey (dw_server (sw_own w))" and "serving (dw_server (sw_own w))"
    and "\<forall>a i. sw_agents w a = Some i \<longrightarrow> serving i"
    and "\<forall>r \<in> set (sw_answers w). nr_From r \<noteq> '''' \<and> nr_Payload r \<noteq> ''''"
  shows "\<exists>out w'. Sync_Run cx (own_link env) (other_link env) args w = Ret ((out, 0), w') \<and>
    (case find (usable (sw_agents w) (ro_auth opts)) (map nr_Payload (sw_answers w)) of
       None \<Rightarrow> last out = UOutput ''No router table is sync'' \<and> dw_server (sw_own w') = dw_server (sw_own w)
     | Some a \<Rightarrow> last out = UOutput (''Successfully sync router table from '' @ a) \<and>
         table_of (dw_server (sw_own w')) = table_of (the (sw_agents w a)))"
proof -
  let ?w = "w\<lparr>sw_own := (sw_own w)\<lparr>dw_state := OpenConn, dw_calls := 0\<rparr>\<rparr>"
  let ?found = "find (usable (sw_agents w) (ro_auth opts)) (map nr_Payload (sw_answers w))"
  have "sync_ready ?w" using assms(5,6) by (simp add: sync_ready_def)
  from sync_from [OF assms(1) this _ assms(7), of "sw_agents w" "ro_auth opts"] obtain out addr w' where
    loop: "sync_loop (link.truncate (own_link env)) (other_link env) (ro_auth opts) (sw_answers w) '''' ?w = Ret ((out, addr), w')"
    and res: "case ?found of
         None \<Rightarrow> addr = '''' \<and> length out = length (sw_answers w) \<and> sw_own w' = sw_own ?w
       | Some a \<Rightarrow> addr = a \<and> table_of (dw_server (sw_own w')) = table_of (the (sw_agents w a))"
    by auto
  have found: "?found = Some a \<Longrightarrow> a \<noteq> ''''" for a
    using assms(7) by (auto simp: find_Some_iff)
  have addr: "addr = '''' \<longleftrightarrow> ?found = None"
    using res found by (cases ?found) auto
  have "Sync_Run cx (own_link env) (other_link env) args w =
    Ret ((out @ (if addr \<noteq> '''' then [UOutput (''Successfully sync router table from '' @ addr)] else [UOutput ''No router table is sync'']), 0),
      w'\<lparr>sw_own := (sw_own w')\<lparr>dw_state := NoConn\<rparr>\<rparr>)"
    using assms(2,3,4) loop
    by (simp add: Sync_Run_def with_flags_def with_client_def SyncRouters_def act_bind_def act_ret_def own_link_def link.defs
        on_own_def direct_connect_def dial_any_def)
  then show ?thesis
    using res addr by (cases ?found) auto
qed

definition sync_demo :: sync_world where
  "sync_demo =
     \<lparr>sw_own = direct_idle (demo_ipc ''secret''),
      sw_agents = [''10.0.0.2:7373'' \<mapsto> (demo_ipc ''secret'')\<lparr>ip_discoverd := Some (Discoverd_AddRouter [] ''n2'' ''10.0.0.2'' [''web''] (Discoverd_Create 60 (demo_member ''n2'')))\<rparr>],
      sw_other = direct_idle (demo_ipc ''''),
      sw_answers = [\<lparr>nr_From = ''n1'', nr_Payload = ''10.0.0.1:7373''\<rparr>, \<lparr>nr_From = ''n2'', nr_Payload = ''10.0.0.2:7373''\<rparr>]\<rparr>"

lemma demo_agent_serving: "serving (demo_ipc key)" "serving ((demo_ipc key)\<lparr>ip_discoverd := Some (Discoverd_AddRouter [] n a ms (Discoverd_Create 60 m))\<rparr>)"
  by (simp_all add: serving_def table_of_def demo_ipc_def SetDiscoverd_def NewAgentIPC_def Discoverd_Create_def NewDiscoverdRepo_def
      Discoverd_AddRouter_def repo_AddRouter_def) (intro wf_intros; simp add: enumerates_def)+

theorem sync_copies_table_witness:
  "\<exists>out w'. Sync_Run demo_cli (own_link msg_env) (other_link msg_env) [''n1'', ''n2''] sync_demo = Ret ((out, 0), w') \<and>
    last out = UOutput ''Successfully sync router table from 10.0.0.2:7373'' \<and>
    table_of (dw_server (sw_own w')) = AddRouter [] ''n2'' ''10.0.0.2'' [''web''] Map.empty"
proof -
  have env: "env_ok msg_env" by (simp add: env_ok_def msg_env_def)
  have args: "parse_flags rpc_flagset [''n1'', ''n2''] (rpc_defaults demo_cli) = Inr (rpc_defaults demo_cli, [''n1'', ''n2''])"
    by (simp add: parse_flags.simps parse_one_def)
  have key: "ro_auth (rpc_defaults demo_cli) = ''secret''" by (simp add: rpc_defaults_def RPCAuthFlag_def demo_cli_def)
  have found: "find (usable (sw_agents sync_demo) ''secret'') (map nr_Payload (sw_answers sync_demo)) = Some ''10.0.0.2:7373''"
    by (simp add: sync_demo_def usable_def demo_ipc_def SetDiscoverd_def NewAgentIPC_def)
  have "\<exists>out w'. Sync_Run demo_cli (own_link msg_env) (other_link msg_env) [''n1'', ''n2''] sync_demo = Ret ((out, 0), w') \<and>
    (case find (usable (sw_agents sync_demo) (ro_auth (rpc_defaults demo_cli))) (map nr_Payload (sw_answers sync_demo)) of
       None \<Rightarrow> last out = UOutput ''No router table is sync'' \<and> dw_server (sw_own w') = dw_server (sw_own sync_demo)
     | Some a \<Rightarrow> last out = UOutput (''Successfully sync router table from '' @ a) \<and>
         table_of (dw_server (sw_own w')) = table_of (the (sw_agents sync_demo a)))"
    by (rule sync_copies_table [OF env args])
      (auto simp: key sync_demo_def direct_idle_def demo_agent_serving, simp add: demo_ipc_def SetDiscoverd_def NewAgentIPC_def)
  then show ?thesis
    unfolding key found
    by (simp add: sync_demo_def table_of_def Discoverd_AddRouter_def repo_AddRouter_def Discoverd_Create_def NewDiscoverdRepo_def)
qed

end
