(* ===== verification/CliTable.thy ===== *)
theory CliTable
  imports CliSync
begin

text \<open>
  The command line as a whole (\<^verbatim>\<open>commands.go\<close>, \<^verbatim>\<open>main.go\<close>): the table of the commands, apart from \<^verbatim>\<open>agent\<close>,
  which is \<open>Command_Run\<close>; and what ties the two commands without an agent to the rest of the program.
\<close>

text \<open>What the commands of the table take from outside: what \<^verbatim>\<open>keygen\<close> reads from the random source, the texts of
  \<^verbatim>\<open>version\<close>, and the parameters of the streaming commands.\<close>

record outside =
  ou_random :: "string + string"
  ou_commit :: string
  ou_prerelease :: string
  ou_protocolMax :: int
  ou_protocolMin :: int
  ou_internalPrefix :: string
  ou_timing :: string
  ou_render :: "reply \<Rightarrow> ui list"
  ou_late :: late_signal

definition BluedVer :: string where "BluedVer = ''0.1.0''"
definition SerfVer :: string where "SerfVer = ''0.6.4''"

definition command_table :: "cli_env \<Rightarrow> outside \<Rightarrow> 's qlink \<Rightarrow> 's link \<Rightarrow> (string \<times> (string list \<Rightarrow> 's cmd)) list" where
  "command_table env ou lk rk =
     Commands env (link.truncate lk) @
     [(''query'', Query_Run env lk),
      (''keygen'', \<lambda>args. act_ret (Keygen_Run (ou_random ou))),
      (''sync'', Sync_Run env lk rk),
      (''monitor'', Monitor_Run env (ou_render ou) (ou_late ou) lk),
      (''reachability'', Reachability_Run env (ou_internalPrefix ou) (ou_timing ou) lk),
      (''version'', \<lambda>args. act_ret (Version_Run (ou_commit ou) BluedVer SerfVer (ou_prerelease ou) (ou_protocolMax ou) (ou_protocolMin ou)))]"

lemma command_names: "distinct (map fst (command_table env ou lk rk))"
  by (simp add: command_table_def Commands_def)

text \<open>A version flag anywhere on the line, whatever else is there, selects the version command.\<close>

lemma main_args_version: "arg \<in> set args \<Longrightarrow> arg = ''-v'' \<or> arg = ''--version'' \<Longrightarrow> hd (main_args args) = ''version''"
  by (auto simp: main_args_def list_ex_iff)

text \<open>A key made by \<^verbatim>\<open>keygen\<close> is one that the agent's configuration decodes to the random bytes.\<close>

lemma keygen_roundtrip:
  assumes "length key = 16"
  shows "\<exists>text. Keygen_Run (Inr key) = ([UOutput text], 0) \<and> EncryptBytes (c\<lparr>cf_EncryptKey := text\<rparr>) = Some key"
  using assms by (simp add: Keygen_Run_def EncryptBytes_def b64_roundtrip)

end
