(* ===== verification/EndToEnd.thy ===== *)
theory EndToEnd
  imports CliTable IpcStreams
begin

text \<open>
  Streams from end to end: a log line or an event of the agent passes the stream's handler and its channel, the
  streaming goroutine, the wire, the client's handler and the channel the caller gave. The client's side is
  a locale of its own: something that is delivered messages and keeps them in a channel that the caller
  empties.
\<close>

section \<open>Filling and emptying a channel\<close>

datatype 'm sink_act = Deliver 'm | Take

text \<open>A run of the listener and the caller: what the caller took.\<close>

fun sink_run ::
  "('m \<Rightarrow> 's \<Rightarrow> 's go) \<Rightarrow> ('s \<Rightarrow> 'a chan) \<Rightarrow> ('a chan \<Rightarrow> 's \<Rightarrow> 's) \<Rightarrow> 'm sink_act list \<Rightarrow> 's \<Rightarrow> ('a list \<times> 's) go" where
  "sink_run deliver chan_of set_chan [] s = Ret ([], s)"
| "sink_run deliver chan_of set_chan (Deliver m # as) s =
     go_bind (deliver m s) (sink_run deliver chan_of set_chan as)"
| "sink_run deliver chan_of set_chan (Take # as) s =
     (case ch_buf (chan_of s) of
        [] \<Rightarrow> sink_run deliver chan_of set_chan as s
      | x # xs \<Rightarrow>
          go_bind (sink_run deliver chan_of set_chan as (set_chan ((chan_of s)\<lparr>ch_buf := xs\<rparr>) s))
            (\<lambda>(got, s'). Ret (x # got, s')))"

fun delivered :: "'m sink_act list \<Rightarrow> 'm list" where
  "delivered [] = []"
| "delivered (Deliver m # as) = m # delivered as"
| "delivered (Take # as) = delivered as"

locale channel_sink =
  fixes carries :: "'m \<Rightarrow> 'a \<Rightarrow> bool"
    and deliver :: "'m \<Rightarrow> 's \<Rightarrow> 's go"
    and chan_of :: "'s \<Rightarrow> 'a chan"
    and set_chan :: "'a chan \<Rightarrow> 's \<Rightarrow> 's"
    and good :: "'s \<Rightarrow> bool"
  assumes deliver: "good s \<Longrightarrow> carries m x \<Longrightarrow> \<not> ch_closed (chan_of s) \<Longrightarrow>
      \<exists>s'. deliver m s = Ret s' \<and> good s' \<and> chan_of s' =
        (if length (ch_buf (chan_of s)) < ch_cap (chan_of s) then (chan_of s)\<lparr>ch_buf := ch_buf (chan_of s) @ [x]\<rparr> else chan_of s)"
    and set_chan: "good s \<Longrightarrow> good (set_chan c s) \<and> chan_of (set_chan c s) = c"
begin

text \<open>Nothing is invented, repeated or reordered, and nothing is lost while there is room.\<close>

lemma run_takes:
  assumes "good s" and "\<not> ch_closed (chan_of s)" and "list_all2 carries (delivered as) xs"
  shows "\<exists>got s'. sink_run deliver chan_of set_chan as s = Ret (got, s') \<and> good s' \<and>
    subseq (got @ ch_buf (chan_of s')) (ch_buf (chan_of s) @ xs) \<and>
    (length (ch_buf (chan_of s) @ xs) \<le> ch_cap (chan_of s) \<longrightarrow> got @ ch_buf (chan_of s') = ch_buf (chan_of s) @ xs)"
  using assms
proof (induction as arbitrary: s xs)
  case Nil
  then show ?case by simp
next
  case (Cons a as)
  show ?case
  proof (cases a)
    case (Deliver m)
    then obtain x ys where xs: "xs = x # ys" "carries m x" "list_all2 carries (delivered as) ys"
      using Cons.prems(3) by (auto simp: list_all2_Cons1)
    from deliver [OF Cons.prems(1) xs(2) Cons.prems(2)] obtain s1 where
      s1: "deliver m s = Ret s1" "good s1" "chan_of s1 =
        (if length (ch_buf (chan_of s)) < ch_cap (chan_of s) then (chan_of s)\<lparr>ch_buf := ch_buf (chan_of s) @ [x]\<rparr> else chan_of s)"
      by blast
    with Cons.prems(2) have "\<not> ch_closed (chan_of s1)" by simp
    from Cons.IH [OF s1(2) this xs(3)] obtain got s' where
      run: "sink_run deliver chan_of set_chan as s1 = Ret (got, s')" "good s'"
        "subseq (got @ ch_buf (chan_of s')) (ch_buf (chan_of s1) @ ys)"
        "length (ch_buf (chan_of s1) @ ys) \<le> ch_cap (chan_of s1) \<longrightarrow> got @ ch_buf (chan_of s') = ch_buf (chan_of s1) @ ys"
      by blast
    have "subseq (ch_buf (chan_of s1) @ ys) (ch_buf (chan_of s) @ xs)"
      using s1(3) xs(1) by (auto intro: list_emb_append_mono)
    then have "subseq (got @ ch_buf (chan_of s')) (ch_buf (chan_of s) @ xs)"
      using run(3) subseq_order.order_trans by blast
    then show ?thesis
      using Deliver s1 run xs(1) by (auto split: if_splits)
  next
    case Take
    show ?thesis
    proof (cases "ch_buf (chan_of s)")
      case Nil
      then show ?thesis using Take Cons.prems Cons.IH [of s xs] by simp
    next
      case (Cons y ys)
      let ?s = "set_chan ((chan_of s)\<lparr>ch_buf := ys\<rparr>) s"
      have s: "good ?s" "chan_of ?s = (chan_of s)\<lparr>ch_buf := ys\<rparr>"
        using set_chan [OF Cons.prems(1)] by simp_all
      then have "\<not> ch_closed (chan_of ?s)" using Cons.prems(2) by simp
      moreover have "list_all2 carries (delivered as) xs" using Cons.prems(3) Take by simp
      ultimately obtain got s' where "sink_run deliver chan_of set_chan as ?s = Ret (got, s')" "good s'"
        "subseq (got @ ch_buf (chan_of s')) (ys @ xs)"
        "length (ys @ xs) \<le> ch_cap (chan_of s) \<longrightarrow> got @ ch_buf (chan_of s') = ys @ xs"
        using Cons.IH [OF s(1)] s(2) by fastforce
      then show ?thesis using Take Cons by simp
    qed
  qed
qed

end

section \<open>The client's handlers\<close>

text \<open>One message of the wire, header and body, handled by the monitor's and the stream's handler.\<close>

definition body_of :: "responseHeader \<times> reply option \<Rightarrow> down list" where
  "body_of m = (case snd m of None \<Rightarrow> [] | Some r \<Rightarrow> [DBody r])"

definition monitor_deliver :: "client_codec \<Rightarrow> responseHeader \<times> reply option \<Rightarrow> monitorHandler \<Rightarrow> monitorHandler go" where
  "monitor_deliver codec m mh = go_bind (monitor_Handle codec (fst m) mh (body_of m)) (\<lambda>(h, rest, a). Ret h)"

definition stream_deliver :: "client_codec \<Rightarrow> responseHeader \<times> reply option \<Rightarrow> streamHandler \<Rightarrow> streamHandler go" where
  "stream_deliver codec m sh = go_bind (stream_Handle codec (fst m) sh (body_of m)) (\<lambda>(h, rest, a). Ret h)"

definition log_chan :: "monitorHandler \<Rightarrow> string chan" where
  "log_chan mh = (case mh_logCh mh of None \<Rightarrow> make_chan 0 | Some c \<Rightarrow> c)"

definition event_chan :: "streamHandler \<Rightarrow> reply chan" where
  "event_chan sh = (case sh_eventCh sh of None \<Rightarrow> make_chan 0 | Some c \<Rightarrow> c)"

lemma decoded_body:
  "codec_inverts codec \<Longrightarrow> kind_of r = k \<Longrightarrow> decode_body codec k [DBody r] = (Inr r, [])"
  by (auto simp: decode_body_def codec_inverts_def)

interpretation monitor_sink: channel_sink
    "\<lambda>m l. codec_inverts codec \<and> snd m = Some (RLog \<lparr>log_Log = l\<rparr>)" "monitor_deliver codec" log_chan
    "\<lambda>c mh. mh\<lparr>mh_logCh := Some c\<rparr>" "\<lambda>mh. mh_init mh \<and> mh_logCh mh \<noteq> None" for codec
  by unfold_locales
    (auto simp: monitor_deliver_def monitor_Handle_def body_of_def decoded_body log_chan_def send_opt_def try_send_def)

interpretation stream_sink: channel_sink
    "\<lambda>m r. codec_inverts codec \<and> snd m = Some r \<and> kind_of r = KEvent" "stream_deliver codec" event_chan
    "\<lambda>c sh. sh\<lparr>sh_eventCh := Some c\<rparr>" "\<lambda>sh. sh_init sh \<and> sh_eventCh sh \<noteq> None" for codec
  by unfold_locales
    (auto simp: stream_deliver_def stream_Handle_def body_of_def decoded_body event_chan_def send_opt_def try_send_def)

section \<open>Properties\<close>

lemma list_all2_subseq:
  assumes "subseq zs ys" and "list_all2 P xs ys"
  shows "\<exists>ws. subseq ws xs \<and> list_all2 P ws zs"
  using assms
proof (induction arbitrary: xs rule: list_emb.induct)
  case (list_emb_Nil ys)
  then show ?case by (intro exI [of _ "[]"]) simp
next
  case (list_emb_Cons zs ys y)
  then obtain x xs' where xs: "xs = x # xs'" "list_all2 P xs' ys" by (auto simp: list_all2_Cons2)
  then obtain ws where "subseq ws xs'" "list_all2 P ws zs" using list_emb_Cons.IH by blast
  then show ?case using xs(1) by (auto intro: list_emb.list_emb_Cons)
next
  case (list_emb_Cons2 z y zs ys)
  then obtain x xs' where xs: "xs = x # xs'" "P x y" "list_all2 P xs' ys" by (auto simp: list_all2_Cons2)
  then obtain ws where "subseq ws xs'" "list_all2 P ws zs" using list_emb_Cons2.IH by blast
  then show ?case using xs list_emb_Cons2.hyps(1) by (intro exI [of _ "x # ws"]) simp
qed

lemma subseq_prefix: "subseq (xs @ zs) ys \<Longrightarrow> subseq xs ys"
  by (rule subseq_order.order_trans [OF subseq_rev_drop_many [OF subseq_order.order_refl]])

lemma set_subseq: "subseq xs ys \<Longrightarrow> set xs \<subseteq> set ys"
  by (induction rule: list_emb.induct) auto

lemma event_record_kind: "event_record tyname status e r \<Longrightarrow> kind_of r = KEvent"
  by (induction tyname status e r rule: event_record.induct) auto

definition open_events :: "nat \<Rightarrow> streamHandler" where
  "open_events n = \<lparr>sh_closed = False, sh_init = True, sh_initCh = [], sh_eventCh = Some (make_chan n)\<rparr>"

definition open_logs :: "nat \<Rightarrow> monitorHandler" where
  "open_logs n = \<lparr>mh_closed = False, mh_init = True, mh_initCh = [], mh_logCh = Some (make_chan n)\<rparr>"

text \<open>C35. Events from end to end: whatever events the agent has, however its handler, its streaming goroutine, the
  connection, the client's listener and the caller interleave, what the caller of \<^verbatim>\<open>Stream\<close> takes from
  its channel are the records of events that passed a filter of the stream, in the order in which they
  happened, each at most once.\<close>

theorem events_end_to_end:
  assumes "codec_inverts codec"
    and server: "stream_run (evs_handle tyname) evs_stop (evs_stream tyname status timeout) as
      (newEventStream filters seq, c) = Ret (es, c')"
    and wire: "ic_out c' = ic_out c @ ms" "prefix (delivered acts) ms"
  shows "\<exists>got sh xs. sink_run (stream_deliver codec) event_chan (\<lambda>ch sh. sh\<lparr>sh_eventCh := Some ch\<rparr>) acts (open_events n) = Ret (got, sh) \<and>
    list_all2 (event_record tyname status) xs got \<and> subseq xs (filter (passes tyname filters) (handled as))"
proof -
  obtain xs where xs: "list_all2 (event_message tyname status seq) xs ms" "subseq xs (filter (passes tyname filters) (handled as))"
    using event_stream_in_order [OF server] wire(1) by (auto dest: subseq_prefix)
  obtain rest where ms: "ms = delivered acts @ rest" using wire(2) by (auto simp: prefix_def)
  obtain ys where ys: "list_all2 (event_message tyname status seq) ys (delivered acts)" "subseq ys xs"
    using list_all2_subseq [of "delivered acts" ms] xs(1) ms by (metis prefix_imp_subseq wire(2))
  let ?rs = "map (the \<circ> snd) (delivered acts)"
  have rs: "list_all2 (event_record tyname status) ys ?rs"
    using ys(1) by (auto simp: list_all2_conv_all_nth event_message_def)
  have "list_all2 (\<lambda>m r. codec_inverts codec \<and> snd m = Some r \<and> kind_of r = KEvent) (delivered acts) ?rs"
    using ys(1) assms(1) event_record_kind by (fastforce simp: list_all2_conv_all_nth event_message_def)
  from stream_sink.run_takes [OF _ _ this, of "open_events n"] obtain got sh where
    run: "sink_run (stream_deliver codec) event_chan (\<lambda>ch sh. sh\<lparr>sh_eventCh := Some ch\<rparr>) acts (open_events n) = Ret (got, sh)"
    and "subseq (got @ ch_buf (event_chan sh)) ?rs"
    by (auto simp: open_events_def event_chan_def make_chan_def)
  then have "subseq got ?rs" by (auto dest: subseq_prefix)
  from list_all2_subseq [OF this rs] obtain zs where "subseq zs ys" "list_all2 (event_record tyname status) zs got" by blast
  with run ys(2) xs(2) show ?thesis by (meson subseq_order.order_trans)
qed

text \<open>The witnesses' events: a user event that the stream's filter lets through and that the caller takes.\<close>

definition demo_event :: Event where
  "demo_event = UserEvent 1 ''deploy'' '''' False"

definition demo_event_message :: "responseHeader \<times> reply option" where
  "demo_event_message = (\<lparr>rsp_Seq = 7, rsp_Error = ''''\<rparr>,
     Some (RUserEvent \<lparr>ue_Event = ''user'', ue_LTime = 1, ue_Name = ''deploy'', ue_Payload = '''', ue_Coalesce = False\<rparr>))"

theorem events_end_to_end_witness:
  "\<exists>got sh xs. sink_run (stream_deliver down_codec) event_chan (\<lambda>ch sh. sh\<lparr>sh_eventCh := Some ch\<rparr>)
       [Deliver demo_event_message, Take] (open_events 512) = Ret (got, sh) \<and> got \<noteq> [] \<and>
     list_all2 (event_record serf_type_name (\<lambda>st. ''alive'')) xs got \<and> subseq xs [demo_event]"
proof -
  let ?as = "[SHandle demo_event, SForward True, SStop]" and ?fs = "[\<lparr>ef_Event = ''*'', ef_Name = ''''\<rparr>]"
  let ?c = "new_client ''c'' ([] :: wire list)"
  obtain es c' where r: "stream_run (evs_handle serf_type_name) evs_stop (evs_stream serf_type_name (\<lambda>st. ''alive'') (\<lambda>q. 1))
      ?as (newEventStream ?fs 7, ?c) = Ret (es, c')" and out: "ic_out c' = ic_out ?c @ [demo_event_message]"
    by (simp add: demo_event_def demo_event_message_def evs_handle_def evs_stop_def evs_stream_def evs_HandleEvent_def
        EventFilter_Invoke_def newEventStream_def make_chan_def try_send_def es_Stop_def close_chan_def send_event_def
        sendUserEvent_def IPCClient_Send_def new_client_def Let_def)
  have acts: "prefix (delivered [Deliver demo_event_message, Take]) [demo_event_message]" by simp
  obtain got sh xs where e: "sink_run (stream_deliver down_codec) event_chan (\<lambda>ch sh. sh\<lparr>sh_eventCh := Some ch\<rparr>)
       [Deliver demo_event_message, Take] (open_events 512) = Ret (got, sh)"
     "list_all2 (event_record serf_type_name (\<lambda>st. ''alive'')) xs got"
     "subseq xs (filter (passes serf_type_name ?fs) (handled ?as))"
    using events_end_to_end [OF concrete_wire(2) r out acts, where n = 512] by blast
  moreover have "got \<noteq> []"
    using e(1) by (auto simp: stream_deliver_def stream_Handle_def body_of_def demo_event_message_def decoded_body
        concrete_wire(2) open_events_def event_chan_def make_chan_def send_opt_def try_send_def)
  moreover have "filter (passes serf_type_name ?fs) (handled ?as) = [demo_event]"
    by (simp add: passes_def EventFilter_Invoke_def)
  ultimately show ?thesis by metis
qed

text \<open>A line of a log stream on the wire.\<close>

definition log_message :: "uint64 \<times> log_record \<Rightarrow> responseHeader \<times> reply option" where
  "log_message = (\<lambda>(seq, rec). (\<lparr>rsp_Seq = seq, rsp_Error = ''''\<rparr>, Some (RLog rec)))"

text \<open>What the monitor's select picks is a feed of lines, events and, at last, an interrupt. The loop shows its items up to the first empty line
  (that of a closed channel, or one that was logged) or the end of the event stream.\<close>

fun feed_items :: "monitor_feed \<Rightarrow> (string + reply) list" where
  "feed_items (GotLog l f) = (if l = '''' then [] else Inl l # feed_items f)"
| "feed_items (GotEvent None f) = []"
| "feed_items (GotEvent (Some r) f) = Inr r # feed_items f"
| "feed_items MonitorInterrupt = []"

fun feed_logs :: "monitor_feed \<Rightarrow> string list" where
  "feed_logs (GotLog l f) = l # feed_logs f"
| "feed_logs (GotEvent r f) = feed_logs f"
| "feed_logs MonitorInterrupt = []"

fun events_open :: "monitor_feed \<Rightarrow> bool" where
  "events_open (GotLog l f) \<longleftrightarrow> events_open f"
| "events_open (GotEvent r f) \<longleftrightarrow> r \<noteq> None \<and> events_open f"
| "events_open MonitorInterrupt \<longleftrightarrow> True"

definition feed_ends :: "monitor_feed \<Rightarrow> bool" where
  "feed_ends f \<longleftrightarrow> '''' \<in> set (feed_logs f) \<or> \<not> events_open f"

fun show_item :: "(reply \<Rightarrow> ui list) \<Rightarrow> string + reply \<Rightarrow> ui list" where
  "show_item render (Inl l) = [UInfo l]"
| "show_item render (Inr r) = UInfo ''Event Info:'' # render r"

definition lines_of :: "(string + reply) list \<Rightarrow> string list" where
  "lines_of xs = List.map_filter (\<lambda>i. case i of Inl l \<Rightarrow> Some l | Inr r \<Rightarrow> None) xs"

lemma lines_of_simps [simp]:
  "lines_of [] = []" "lines_of (Inl l # xs) = l # lines_of xs" "lines_of (Inr r # xs) = lines_of xs"
  by (simp_all add: lines_of_def List.map_filter_simps)

lemma monitor_loop_items: "monitor_loop render f = (concat (map (show_item render) (feed_items f)), feed_ends f)"
proof (induction f)
  case (GotEvent r f)
  then show ?case by (cases r) (simp_all add: feed_ends_def)
qed (simp_all add: feed_ends_def)

lemma feed_lines:
  "prefix (lines_of (feed_items f)) (takeWhile (\<lambda>l. l \<noteq> '''') (feed_logs f)) \<and>
   (events_open f \<longrightarrow> lines_of (feed_items f) = takeWhile (\<lambda>l. l \<noteq> '''') (feed_logs f))"
proof (induction f)
  case (GotEvent r f)
  then show ?case by (cases r) simp_all
qed simp_all

lemma takeWhile_last: "takeWhile P (xs @ [x]) = takeWhile P xs" if "\<not> P x"
  using that by (induction xs) auto

text \<open>C36. The monitor from end to end: the lines that reach it are lines that the agent logged at the asked level, in order and
  each at most once; and as long as there are no more than 512, nothing stops or fails and the channels have been
  emptied, they are all of them. However events fall between them, and however the loop ends, what is shown are the lines, in order, up to the first empty one,
  each event at its place. An empty line ends the monitor, for it looks like a closed channel: it says that the remote side has ended and exits with 1 unless
  an interrupt comes just then. While no line is empty and the event stream is open, every line that reaches the monitor is shown up to the interrupt, and the exit code is 0.\<close>

theorem monitor_end_to_end:
  assumes "codec_inverts codec"
    and server: "stream_run (ls_HandleLog check) ls_Stop ls_stream as (newLogStream seq) = Ret s"
    and wire: "prefix (delivered acts) (map log_message (ls_out s))"
  shows "\<exists>got mh. sink_run (monitor_deliver codec) log_chan (\<lambda>ch mh. mh\<lparr>mh_logCh := Some ch\<rparr>) acts (open_logs 1024) = Ret (got, mh) \<and>
    subseq got (filter check (handled as)) \<and>
    (length (filter check (handled as)) \<le> 512 \<and> set as \<inter> {SForward False, SStop} = {} \<and> ch_buf (ls_logCh s) = [] \<and>
     delivered acts = map log_message (ls_out s) \<and> ch_buf (log_chan mh) = [] \<longrightarrow> got = filter check (handled as)) \<and>
    (\<forall>f render late. feed_logs f \<in> {got, got @ ['''']} \<longrightarrow>
       monitor_report render f late =
         (concat (map (show_item render) (feed_items f)) @ (if feed_ends f \<and> late \<noteq> BeforeCheck then remote_ended else []),
          if feed_ends f \<and> late = NoSignal then 1 else 0) \<and>
       prefix (lines_of (feed_items f)) (takeWhile (\<lambda>l. l \<noteq> '''') got) \<and>
       (events_open f \<longrightarrow> lines_of (feed_items f) = takeWhile (\<lambda>l. l \<noteq> '''') got))"
proof -
  obtain xs where xs: "ls_out s = map (\<lambda>l. (seq, \<lparr>log_Log = l\<rparr>)) xs" "subseq (xs @ ch_buf (ls_logCh s)) (filter check (handled as))"
    using log_stream_in_order [of check as seq s] server by blast
  have all: "xs @ ch_buf (ls_logCh s) = filter check (handled as)"
    if "length (filter check (handled as)) \<le> 512" "set as \<inter> {SForward False, SStop} = {}"
    using log_stream_in_order [of check as seq s] server that xs(1) by (auto dest!: map_injective simp: inj_def)
  let ?ls = "take (length (delivered acts)) xs"
  have d: "delivered acts = map (\<lambda>l. log_message (seq, \<lparr>log_Log = l\<rparr>)) ?ls"
    using wire xs(1) by (auto simp: prefix_def take_map [symmetric] append_eq_conv_conj comp_def dest: arg_cong [where f = "take (length (delivered acts))"])
  have "list_all2 (\<lambda>m l. codec_inverts codec \<and> snd m = Some (RLog \<lparr>log_Log = l\<rparr>))
      (map (\<lambda>l. log_message (seq, \<lparr>log_Log = l\<rparr>)) ls) ls" for ls
    by (simp add: list_all2_map1 log_message_def assms(1) list_all2_same)
  then have "list_all2 (\<lambda>m l. codec_inverts codec \<and> snd m = Some (RLog \<lparr>log_Log = l\<rparr>)) (delivered acts) ?ls"
    using d by metis
  from monitor_sink.run_takes [OF _ _ this, of "open_logs 1024"] obtain got mh where
    run: "sink_run (monitor_deliver codec) log_chan (\<lambda>ch mh. mh\<lparr>mh_logCh := Some ch\<rparr>) acts (open_logs 1024) = Ret (got, mh)"
    and got: "subseq (got @ ch_buf (log_chan mh)) ?ls" "length ?ls \<le> 1024 \<longrightarrow> got @ ch_buf (log_chan mh) = ?ls"
    by (auto simp: open_logs_def log_chan_def make_chan_def)
  have "subseq got xs"
    using got(1) by (meson subseq_prefix prefix_imp_subseq subseq_order.order_trans take_is_prefix)
  then have sub: "subseq got (filter check (handled as))"
    using xs(2) by (meson subseq_prefix subseq_order.order_trans)
  have shown: "monitor_report render f late =
         (concat (map (show_item render) (feed_items f)) @ (if feed_ends f \<and> late \<noteq> BeforeCheck then remote_ended else []),
          if feed_ends f \<and> late = NoSignal then 1 else 0) \<and>
       prefix (lines_of (feed_items f)) (takeWhile (\<lambda>l. l \<noteq> '''') got) \<and>
       (events_open f \<longrightarrow> lines_of (feed_items f) = takeWhile (\<lambda>l. l \<noteq> '''') got)"
    if "feed_logs f \<in> {got, got @ ['''']}" for f render late
  proof -
    have "takeWhile (\<lambda>l. l \<noteq> '''') (feed_logs f) = takeWhile (\<lambda>l. l \<noteq> '''') got"
      using that takeWhile_last [of "\<lambda>l. l \<noteq> ''''" "''''" got] by auto
    then show ?thesis
      using feed_lines [of f] by (cases late) (simp_all add: monitor_report_def monitor_loop_items)
  qed
  have "got = filter check (handled as)"
    if a: "length (filter check (handled as)) \<le> 512" "set as \<inter> {SForward False, SStop} = {}" "ch_buf (ls_logCh s) = []"
      "delivered acts = map log_message (ls_out s)" "ch_buf (log_chan mh) = []"
  proof -
    have "xs = filter check (handled as)" using all [OF a(1,2)] a(3) by simp
    moreover have "?ls = xs" using a(4) xs(1) by simp
    ultimately show ?thesis using got(2) a(1,5) by simp
  qed
  then show ?thesis
    using run sub shown by blast
qed

theorem monitor_end_to_end_witness:
  "\<exists>got mh. sink_run (monitor_deliver down_codec) log_chan (\<lambda>ch mh. mh\<lparr>mh_logCh := Some ch\<rparr>)
       [Deliver (log_message (5, \<lparr>log_Log = ''a''\<rparr>)), Take] (open_logs 1024) = Ret (got, mh) \<and> got = [''a''] \<and>
     monitor_report (\<lambda>r. [UInfo ''joined'']) (GotEvent (Some (RJoin 1)) (GotLog ''a'' MonitorInterrupt)) NoSignal =
       ([UInfo ''Event Info:'', UInfo ''joined'', UInfo ''a''], 0)"
proof -
  let ?as = "[SHandle ''a'', SForward True]" and ?acts = "[Deliver (log_message (5, \<lparr>log_Log = ''a''\<rparr>)), Take]"
  let ?f = "GotEvent (Some (RJoin 1)) (GotLog ''a'' MonitorInterrupt)" and ?r = "\<lambda>r. [UInfo ''joined'']"
  obtain s where r: "stream_run (ls_HandleLog (\<lambda>l. True)) ls_Stop ls_stream ?as (newLogStream 5) = Ret s"
    and out: "ls_out s = [(5, \<lparr>log_Log = ''a''\<rparr>)]" "ch_buf (ls_logCh s) = []"
    by (simp add: ls_HandleLog_def ls_Stop_def ls_stream_def newLogStream_def make_chan_def try_send_def Let_def)
  have "prefix (delivered ?acts) (map log_message (ls_out s))"
    by (simp add: out)
  from monitor_end_to_end [OF concrete_wire(2) r this] obtain got mh where
    m: "sink_run (monitor_deliver down_codec) log_chan (\<lambda>ch mh. mh\<lparr>mh_logCh := Some ch\<rparr>) ?acts (open_logs 1024) = Ret (got, mh)"
      "ch_buf (log_chan mh) = [] \<longrightarrow> got = [''a'']"
      "feed_logs ?f \<in> {got, got @ ['''']} \<longrightarrow> monitor_report ?r ?f NoSignal =
         (concat (map (show_item ?r) (feed_items ?f)) @ (if feed_ends ?f \<and> NoSignal \<noteq> BeforeCheck then remote_ended else []),
          if feed_ends ?f \<and> NoSignal = NoSignal then 1 else 0)"
    by (auto simp: out)
  moreover have "ch_buf (log_chan mh) = []"
    using m(1) by (auto simp: monitor_deliver_def monitor_Handle_def body_of_def log_message_def decoded_body
        concrete_wire(2) open_logs_def log_chan_def make_chan_def send_opt_def try_send_def)
  ultimately show ?thesis by (auto simp: feed_ends_def)
qed

section \<open>A query\<close>

text \<open>What serf answers to a query, in the order in which the streaming goroutine picks it, up to the deadline.\<close>

fun acks_picked :: "query_pick list \<Rightarrow> string list" where
  "acks_picked [] = []"
| "acks_picked (PickAck from # ps) = from # acks_picked ps"
| "acks_picked (PickResponse from payload # ps) = acks_picked ps"
| "acks_picked (PickDone # ps) = []"

fun resps_picked :: "query_pick list \<Rightarrow> NodeResponse list" where
  "resps_picked [] = []"
| "resps_picked (PickAck from # ps) = resps_picked ps"
| "resps_picked (PickResponse from payload # ps) = \<lparr>nr_From = from, nr_Payload = payload\<rparr> # resps_picked ps"
| "resps_picked (PickDone # ps) = []"

fun named :: "query_pick \<Rightarrow> bool" where
  "named (PickAck from) \<longleftrightarrow> from \<noteq> ''''"
| "named (PickResponse from payload) \<longleftrightarrow> from \<noteq> ''''"
| "named PickDone \<longleftrightarrow> True"

lemma picked_append:
  "PickDone \<notin> set xs \<Longrightarrow> acks_picked (xs @ ys) = acks_picked xs @ acks_picked ys"
  "PickDone \<notin> set xs \<Longrightarrow> resps_picked (xs @ ys) = resps_picked xs @ resps_picked ys"
  by (induction xs rule: acks_picked.induct) auto

lemma records_picked:
  "PickDone \<notin> set xs \<Longrightarrow> acks_of (map query_record_of xs) = acks_picked xs"
  "PickDone \<notin> set xs \<Longrightarrow> resps_of (map query_record_of xs) = resps_picked xs"
  by (induction xs rule: acks_picked.induct)
    (auto simp: client_constants queryRecordAck_def queryRecordResponse_def)

lemma record_named: "named p \<Longrightarrow> p \<noteq> PickDone \<Longrightarrow> qrec_From (query_record_of p) \<noteq> ''''"
  by (cases p) auto

lemma streamed_prefix: "prefix (streamed ps) (map fst ps)"
  by (induction ps rule: streamed.induct) auto

lemma query_record_inj: "inj query_record_of"
proof (rule injI)
  fix p q
  assume "query_record_of p = query_record_of q"
  then show "p = q"
    by (cases p; cases q) (auto simp: queryRecordAck_def queryRecordResponse_def queryRecordDone_def)
qed

lemma messages_prefix: "prefix (query_messages seq xs) (query_messages seq ys) \<Longrightarrow> prefix xs ys"
proof -
  assume p: "prefix (query_messages seq xs) (query_messages seq ys)"
  let ?m = "\<lambda>p. (\<lparr>rsp_Seq = seq, rsp_Error = ''''\<rparr>, Some (RQuery (query_record_of p)))"
  have "inj ?m" using query_record_inj by (auto simp: inj_def)
  moreover have "map ?m xs = map ?m (take (length xs) ys)"
    using p by (auto simp: query_messages_def prefix_def take_map [symmetric])
  ultimately have "xs = take (length xs) ys" using map_injective by blast
  then show "prefix xs ys" by (metis take_is_prefix)
qed

text \<open>C37. A query from end to end: serf's acks and responses (at most 128 of each, from named nodes) pass the agent's
  streaming goroutine, the connection, the client's listener and the channels of the command. Whatever is interleaved and
  wherever the connection breaks, the command reports an initial part of the acks and an initial part of the responses,
  in the order serf gave them and nothing else, merged in some way. Unless the user interrupts, the totals printed are those
  of the lines and the exit code is 0; if then all records before the deadline have arrived, the acks or the
  responses are complete (the other part may be lost: the loop stops at the first closed channel it happens to
  pick). An interrupt gives exit code 1 and no totals.\<close>

theorem query_end_to_end:
  assumes codec: "codec_inverts codec"
    and server: "qs_Stream seq ps c = (returned, c')" "\<not> ic_closed c"
    and wire: "ic_out c' = ic_out c @ ms" "prefix (query_messages seq xs) ms" "PickDone \<notin> set xs"
    and client: "feeds codec (open_query (Some (make_chan 128)) (Some (make_chan 128))) (map query_record_of xs) f"
    and few: "length (acks_picked (map fst ps)) \<le> 128" "length (resps_picked (map fst ps)) \<le> 128"
    and names: "\<forall>p \<in> set (map fst ps). named p"
  shows "\<exists>as rs lines. prefix as (acks_picked (map fst ps)) \<and> prefix rs (resps_picked (map fst ps)) \<and>
    lines \<in> shuffles (map ack_line as) (map resp_line rs) \<and>
    query_loop env f (TextFormat \<lparr>tq_name = name, tq_noAck = noAck, tq_numAcks = 0, tq_numResp = 0\<rparr>) =
      (if interrupted f then (lines, 1)
       else (lines @ (if noAck then [] else [UOutput (''Total Acks: '' @ show_nat (length as))]) @
               [UOutput (''Total Responses: '' @ show_nat (length rs))], 0)) \<and>
    (xs = takeWhile (\<lambda>p. p \<noteq> PickDone) (map fst ps) \<longrightarrow>
      interrupted f \<or> as = acks_picked (map fst ps) \<or> rs = resps_picked (map fst ps))"
proof -
  have ms: "ms = query_messages seq (streamed ps)"
    using query_stream_in_order [OF server(2,1)] wire(1) by simp
  then have "prefix xs (map fst ps)"
    using wire(2) messages_prefix streamed_prefix prefix_order.order_trans by blast
  then obtain ys where ys: "map fst ps = xs @ ys" by (auto simp: prefix_def)
  note pre = picked_append [OF wire(3), of ys] and recs = records_picked [OF wire(3)]
  have all: "acks_picked xs = acks_picked (map fst ps) \<and> resps_picked xs = resps_picked (map fst ps)"
    if "xs = takeWhile (\<lambda>p. p \<noteq> PickDone) (map fst ps)"
  proof -
    have "map fst ps = xs @ dropWhile (\<lambda>p. p \<noteq> PickDone) (map fst ps)" by (subst that) simp
    then have "ys = dropWhile (\<lambda>p. p \<noteq> PickDone) (map fst ps)" using ys by simp
    then have "ys = [] \<or> hd ys = PickDone" using hd_dropWhile by blast
    then show ?thesis unfolding ys pre by (cases ys) auto
  qed
  have "\<forall>rec \<in> set (map query_record_of xs). qrec_From rec \<noteq> ''''"
    using names wire(3) record_named ys by fastforce
  moreover have "length (acks_of (map query_record_of xs)) \<le> 128" "length (resps_of (map query_record_of xs)) \<le> 128"
    using few unfolding ys pre recs by simp_all
  ultimately obtain as rs lines where r: "prefix as (acks_picked xs)" "prefix rs (resps_picked xs)"
    "lines \<in> shuffles (map ack_line as) (map resp_line rs)"
    "query_loop env f (TextFormat \<lparr>tq_name = name, tq_noAck = noAck, tq_numAcks = 0, tq_numResp = 0\<rparr>) =
      (if interrupted f then (lines, 1)
       else (lines @ (if noAck then [] else [UOutput (''Total Acks: '' @ show_nat (length as))]) @
               [UOutput (''Total Responses: '' @ show_nat (length rs))], 0))"
    "interrupted f \<or> as = acks_picked xs \<or> rs = resps_picked xs"
    using query_reports [OF client codec, where env = env and name = name and noAck = noAck] unfolding recs by metis
  moreover have "prefix as (acks_picked (map fst ps))" "prefix rs (resps_picked (map fst ps))"
    using r(1,2) unfolding ys pre by (auto intro: prefix_prefix)
  ultimately show ?thesis using all by (intro exI [of _ as] exI [of _ rs] exI [of _ lines]) auto
qed

text \<open>A node acks and answers, but the answer is lost.\<close>

theorem query_end_to_end_witness:
  "query_loop demo_cli (GotAck ''n1'' (GotAck '''' Interrupt)) (TextFormat \<lparr>tq_name = ''q'', tq_noAck = True, tq_numAcks = 0, tq_numResp = 0\<rparr>) =
      ([ack_line ''n1'', UOutput (''Total Responses: '' @ show_nat 0)], 0) \<and>
    resps_picked [PickAck ''n1'', PickResponse ''n1'' ''pong'', PickDone] \<noteq> []"
proof -
  let ?c = "new_client ''c'' ([] :: wire list)" and ?xs = "[PickAck ''n1'', PickResponse ''n1'' ''pong'']"
  let ?ps = "[(PickAck ''n1'', True), (PickResponse ''n1'' ''pong'', True), (PickDone, True)]"
  obtain returned c' where s: "qs_Stream 7 ?ps ?c = (returned, c')" by (cases "qs_Stream 7 ?ps ?c")
  have open_c: "\<not> ic_closed ?c" by (simp add: new_client_def)
  have out: "ic_out c' = ic_out ?c @ query_messages 7 (map fst ?ps)"
    using query_stream_in_order [OF open_c s] by simp
  have wire: "prefix (query_messages 7 ?xs) (query_messages 7 (map fst ?ps))" "PickDone \<notin> set ?xs"
    by (simp_all add: query_messages_def)
  have f: "feeds down_codec (open_query (Some (make_chan 128)) (Some (make_chan 128))) (map query_record_of ?xs) (GotAck ''n1'' (GotAck '''' Interrupt))"
    using lossy_feed by (simp add: lossy_records_def client_constants)
  have small: "length (acks_picked (map fst ?ps)) \<le> 128" "length (resps_picked (map fst ?ps)) \<le> 128" "\<forall>p \<in> set (map fst ?ps). named p"
    by simp_all
  obtain as rs lines where r: "lines \<in> shuffles (map ack_line as) (map resp_line rs)"
    "query_loop demo_cli (GotAck ''n1'' (GotAck '''' Interrupt)) (TextFormat \<lparr>tq_name = ''q'', tq_noAck = True, tq_numAcks = 0, tq_numResp = 0\<rparr>) =
      (lines @ [UOutput (''Total Responses: '' @ show_nat (length rs))], 0)"
    using query_end_to_end [OF concrete_wire(2) s open_c out wire f small, where env = demo_cli and name = "''q''" and noAck = True]
    by auto
  from this(2) have "lines = [ack_line ''n1''] \<and> show_nat (length rs) = show_nat 0"
    by (auto simp: text_format query_end_def show_int_def)
  with r(2) show ?thesis by simp
qed

end
