(* ===== verification/MainProcess.thy ===== *)
theory MainProcess
  imports Command CliTable
begin

text \<open>
  The process around the commands: \<^verbatim>\<open>main.go\<close>, the interrupt forwarder of \<^verbatim>\<open>commands.go\<close>, the goroutine of the
  web server (\<^verbatim>\<open>discoverd/rest_server.go\<close>) and its shutdown (\<^verbatim>\<open>discoverd/discoverd.go\<close>), the run-time table of
  \<^verbatim>\<open>command/agent/util.go\<close>; and how the process of an agent ends, with main's goroutine and the web server's
  running against each other.
\<close>

section \<open>The main function\<close>

text \<open>The dispatcher of the command-line library is a parameter: an exit code and its error. The result is what goes
  to the standard error and the exit code of the process.\<close>

definition realMain :: "(string list \<Rightarrow> int \<times> string option) \<Rightarrow> string list \<Rightarrow> string \<times> int" where
  "realMain cli_Run os_Args =
     (case cli_Run (main_args (tl os_Args)) of
        (exitCode, Some err) \<Rightarrow> (''Error executing CLI: '' @ err @ [CHR 0x0A], 1)
      | (exitCode, None) \<Rightarrow> ('''', exitCode))"

text \<open>What Go's run-time system answers.\<close>

record runtime_info =
  ri_GOOS :: string
  ri_GOARCH :: string
  ri_Version :: string
  ri_GOMAXPROCS :: int64
  ri_NumGoroutine :: int64
  ri_NumCPU :: int64

definition runtimeStats :: "runtime_info \<Rightarrow> (string \<rightharpoonup> string)" where
  "runtimeStats r =
     [''os'' \<mapsto> ri_GOOS r, ''arch'' \<mapsto> ri_GOARCH r, ''version'' \<mapsto> ri_Version r,
      ''max_procs'' \<mapsto> show_int (sint (ri_GOMAXPROCS r)), ''goroutines'' \<mapsto> show_int (sint (ri_NumGoroutine r)),
      ''cpu_count'' \<mapsto> show_int (sint (ri_NumCPU r))]"

section \<open>Forwarding interrupts\<close>

text \<open>\<^verbatim>\<open>makeShutdownCh\<close>: the buffer of the signal channel (four places, a signal that finds it full is dropped by the
  run-time system) and the goroutine, which sends on a channel without a buffer: \<open>sc_sending\<close> while it waits for
  a receiver.\<close>

record shutdown_ch =
  sc_signals :: nat
  sc_sending :: bool

definition makeShutdownCh :: shutdown_ch where
  "makeShutdownCh = \<lparr>sc_signals = 0, sc_sending = False\<rparr>"

datatype shutdown_act = SigInterrupt | Forward | TakeShutdown

text \<open>The first component says whether a message is received.\<close>

fun shutdown_step :: "shutdown_act \<Rightarrow> shutdown_ch \<Rightarrow> bool \<times> shutdown_ch" where
  "shutdown_step SigInterrupt s = (False, if sc_signals s < 4 then s\<lparr>sc_signals := Suc (sc_signals s)\<rparr> else s)"
| "shutdown_step Forward s =
     (False, if \<not> sc_sending s \<and> 0 < sc_signals s then \<lparr>sc_signals = sc_signals s - 1, sc_sending = True\<rparr> else s)"
| "shutdown_step TakeShutdown s = (sc_sending s, s\<lparr>sc_sending := False\<rparr>)"

fun shutdown_run :: "shutdown_act list \<Rightarrow> shutdown_ch \<Rightarrow> nat \<times> shutdown_ch" where
  "shutdown_run [] s = (0, s)"
| "shutdown_run (a # as) s =
     (let (got, s1) = shutdown_step a s; (n, s2) = shutdown_run as s1 in (of_bool got + n, s2))"

definition pending :: "shutdown_ch \<Rightarrow> nat" where
  "pending s = sc_signals s + of_bool (sc_sending s)"

lemma shutdown_run_counts:
  "shutdown_run as s = (n, s') \<Longrightarrow> sc_signals s \<le> 4 \<Longrightarrow>
   sc_signals s' \<le> 4 \<and> n + pending s' \<le> pending s + count_list as SigInterrupt \<and>
   (sc_signals s + count_list as SigInterrupt \<le> 4 \<longrightarrow> n + pending s' = pending s + count_list as SigInterrupt)"
proof (induction as arbitrary: s n)
  case (Cons a as)
  obtain got s1 where s: "shutdown_step a s = (got, s1)" by (cases "shutdown_step a s")
  obtain m where m: "shutdown_run as s1 = (m, s')" "n = of_bool got + m"
    using Cons.prems(1) s by (cases "shutdown_run as s1") auto
  have "sc_signals s1 \<le> 4" using s Cons.prems(2) by (cases a) (auto split: if_splits)
  from Cons.IH [OF m(1) this] show ?case
    using s m(2) by (cases a) (auto simp: pending_def split: if_splits)
qed simp

text \<open>No message without an interrupt, no more than five are waiting, and none of up to four is lost.\<close>

lemma interrupts_forwarded:
  assumes "shutdown_run as makeShutdownCh = (n, s)"
  shows "n + pending s \<le> count_list as SigInterrupt \<and> pending s \<le> 5 \<and>
    (count_list as SigInterrupt \<le> 4 \<longrightarrow> n + pending s = count_list as SigInterrupt)"
  using shutdown_run_counts [OF assms] by (auto simp: makeShutdownCh_def pending_def)

section \<open>The web server's goroutine\<close>

text \<open>Serving; asked to close; \<^verbatim>\<open>ListenAndServe\<close> has returned (with an error text, \<^verbatim>\<open><nil>\<close> after a clean close); the
  shutdown channel is closed.\<close>

datatype rest_server = Serving | Closing | Returned string | ChClosed string

text \<open>\<^verbatim>\<open>manners.Close\<close> says whether there was a server to close.\<close>

definition ShutdownRestServer :: "rest_server \<Rightarrow> bool \<times> rest_server" where
  "ShutdownRestServer r = (case r of Serving \<Rightarrow> (True, Closing) | _ \<Rightarrow> (False, r))"

definition Discoverd_Shutdown :: "rest_server \<Rightarrow> string \<times> rest_server" where
  "Discoverd_Shutdown r = (''[INFO] discoverd: shutting down ...'', snd (ShutdownRestServer r))"

text \<open>Whether the channel of \<^verbatim>\<open>ShutdownCh\<close> is closed.\<close>

definition Discoverd_ShutdownCh :: "rest_server \<Rightarrow> bool" where
  "Discoverd_ShutdownCh r = (case r of ChClosed err \<Rightarrow> True | _ \<Rightarrow> False)"

text \<open>One step of the goroutine that \<^verbatim>\<open>StartRestServer\<close> starts: what \<^verbatim>\<open>ListenAndServe\<close> returns when it does, then the closing
  of the channel, then the fatal log line, which ends the process.\<close>

fun rest_goroutine :: "string \<Rightarrow> rest_server \<Rightarrow> rest_server \<times> (string \<times> int) option" where
  "rest_goroutine err (Returned e) = (ChClosed e, None)"
| "rest_goroutine err (ChClosed e) = (ChClosed e, Some (''[ERR] rest server stopped: '' @ e, 1))"
| "rest_goroutine err r = (Returned err, None)"

section \<open>How the process of an agent ends\<close>

text \<open>Main's goroutine: waiting, with the events it has seen; returning from \<^verbatim>\<open>handleSignals\<close> with a code; past the
  deferred shutdown of the IPC server; past that of the agent.\<close>

datatype ('f, 'i) main_pc = Waiting "('f, 'i) wake list" | Leaving int | IpcDown int | AllDown int

record ('f, 'i) proc =
  pr_main :: "('f, 'i) main_pc"
  pr_rest :: rest_server
  pr_ipc :: ipc
  pr_agent :: "nat agent"
  pr_log :: "string list"
  pr_exit :: "int option"

text \<open>The steps of the running process: of the web server's goroutine, of the agent's event loop when serf goes down, and of
  main. An event that is the closing of a channel is seen only if the channel is closed.\<close>

inductive proc_step ::
  "json \<Rightarrow> ((string \<rightharpoonup> string) \<Rightarrow> string option) \<Rightarrow> string list \<Rightarrow> string option \<Rightarrow> cmd_state \<Rightarrow>
   ('f, 'i) proc \<Rightarrow> ('f, 'i) proc \<Rightarrow> bool"
  for js setTags args shutdown_error st where
  rest_quiet: "pr_exit p = None \<Longrightarrow> rest_goroutine err (pr_rest p) = (r, None) \<Longrightarrow>
    proc_step js setTags args shutdown_error st p (p\<lparr>pr_rest := r\<rparr>)"
| rest_fatal: "pr_exit p = None \<Longrightarrow> rest_goroutine err (pr_rest p) = (r, Some (line, code)) \<Longrightarrow>
    proc_step js setTags args shutdown_error st p (p\<lparr>pr_rest := r, pr_log := pr_log p @ [line], pr_exit := Some code\<rparr>)"
| serf_down: "pr_exit p = None \<Longrightarrow> Agent_Shutdown e (pr_agent p) = Ret (err, a) \<Longrightarrow>
    proc_step js setTags args shutdown_error st p (p\<lparr>pr_agent := a\<rparr>)"
| main_reload: "pr_exit p = None \<Longrightarrow> pr_main p = Waiting ws \<Longrightarrow>
    proc_step js setTags args shutdown_error st p (p\<lparr>pr_main := Waiting (ws @ [WHup env])\<rparr>)"
| main_wakes: "pr_exit p = None \<Longrightarrow> pr_main p = Waiting ws \<Longrightarrow>
    (w = WDiscoverdDown \<longrightarrow> Discoverd_ShutdownCh (pr_rest p)) \<Longrightarrow> (w = WAgentDown \<longrightarrow> ag_shutdownCh_closed (pr_agent p)) \<Longrightarrow>
    handleSignals js setTags args (ws @ [w]) ls st = Ret ((msgs, Some code), st') \<Longrightarrow>
    proc_step js setTags args shutdown_error st p (p\<lparr>pr_main := Leaving code\<rparr>)"
| main_ipc: "pr_exit p = None \<Longrightarrow> pr_main p = Leaving code \<Longrightarrow> AgentIPC_Shutdown (pr_ipc p) = ((conns, stops), i) \<Longrightarrow>
    proc_step js setTags args shutdown_error st p
      (p\<lparr>pr_main := IpcDown code, pr_ipc := i, pr_rest := (if stops then snd (Discoverd_Shutdown (pr_rest p)) else pr_rest p),
         pr_log := (if stops then pr_log p @ [fst (Discoverd_Shutdown (pr_rest p))] else pr_log p)\<rparr>)"
| main_agent: "pr_exit p = None \<Longrightarrow> pr_main p = IpcDown code \<Longrightarrow> Agent_Shutdown shutdown_error (pr_agent p) = Ret (err, a) \<Longrightarrow>
    proc_step js setTags args shutdown_error st p (p\<lparr>pr_main := AllDown code, pr_agent := a\<rparr>)"
| main_exit: "pr_exit p = None \<Longrightarrow> pr_main p = AllDown code \<Longrightarrow>
    proc_step js setTags args shutdown_error st p (p\<lparr>pr_exit := Some (snd (realMain (\<lambda>args. (code, None)) []))\<rparr>)"

inductive_cases proc_stepE: "proc_step js setTags args shutdown_error st p q"

definition started_proc :: "ipc \<Rightarrow> ('f, 'i) proc" where
  "started_proc i =
     \<lparr>pr_main = Waiting [], pr_rest = Serving, pr_ipc = i, pr_agent = ip_agent i, pr_log = [], pr_exit = None\<rparr>"

text \<open>The code that main returns with is one that some event, after some reloads, decides.\<close>

definition decides ::
  "string list \<Rightarrow> cmd_state \<Rightarrow> ('f, 'i) cmd_env list \<Rightarrow> ('f, 'i) wake \<Rightarrow> leave_wake list \<Rightarrow> int \<Rightarrow> bool" where
  "decides args st envs w ls c \<longleftrightarrow>
     (\<forall>env. w \<noteq> WHup env) \<and> wake_code w (in_force args (cs_filter st) envs (cs_config st)) (cs_agent st) ls = Some c"

lemma decides_wakes:
  assumes "decides args st envs w ls c"
  shows "\<exists>msgs st'. handleSignals js setTags args (map WHup envs @ [w]) ls st = Ret ((msgs, Some c), st')"
  using exit_codes [of w js setTags args envs "[]" ls st] assms by (auto simp: decides_def)

lemma reloads_only:
  "handleSignals js setTags args (map WHup envs) ls st = Ret ((msgs, code), st') \<Longrightarrow> code = None"
  by (induction envs arbitrary: st msgs) (auto simp: go_bind_eq_Ret prepend_def)

lemma wakes_decides:
  assumes "handleSignals js setTags args (map WHup envs @ [w]) ls st = Ret ((msgs, Some c), st')"
  shows "decides args st envs w ls c"
proof -
  have w: "w \<noteq> WHup env" for env
    using assms reloads_only [of js setTags args "envs @ [env]" ls st msgs "Some c" st'] by auto
  then show ?thesis
    using exit_codes [of w js setTags args envs "[]" ls st] assms by (auto simp: decides_def)
qed

definition coherent :: "'h agent \<Rightarrow> bool" where
  "coherent a \<longleftrightarrow> ag_shutdown a = ag_shutdownCh_closed a"

lemma coherent_Shutdown:
  "coherent a \<Longrightarrow> \<exists>err a'. Agent_Shutdown e a = Ret (err, a')"
  "Agent_Shutdown e a = Ret (err, a') \<Longrightarrow> coherent a \<Longrightarrow> coherent a' \<and> (e = None \<or> ag_shutdown a \<longrightarrow> ag_shutdown a')"
  by (auto simp: Agent_Shutdown_def coherent_def split: if_splits)

text \<open>How far main has come, and what it has shut down by then.\<close>

fun main_ok :: "string list \<Rightarrow> string option \<Rightarrow> cmd_state \<Rightarrow> ipc \<Rightarrow> nat agent \<Rightarrow> ('f, 'i) main_pc \<Rightarrow> bool" where
  "main_ok args e st i a (Waiting ws) \<longleftrightarrow> (\<exists>envs. ws = map WHup envs)"
| "main_ok args e st i a (Leaving c) \<longleftrightarrow> (\<exists>envs w ls. decides args st (envs :: ('f, 'i) cmd_env list) w ls c)"
| "main_ok args e st i a (IpcDown c) \<longleftrightarrow> (\<exists>envs w ls. decides args st (envs :: ('f, 'i) cmd_env list) w ls c) \<and> ip_stop i"
| "main_ok args e st i a (AllDown c) \<longleftrightarrow>
     (\<exists>envs w ls. decides args st (envs :: ('f, 'i) cmd_env list) w ls c) \<and> ip_stop i \<and> (e = None \<longrightarrow> ag_shutdown a)"

definition proc_ok :: "string list \<Rightarrow> string option \<Rightarrow> cmd_state \<Rightarrow> ('f, 'i) proc \<Rightarrow> bool" where
  "proc_ok args e st p \<longleftrightarrow>
     coherent (pr_agent p) \<and> main_ok args e st (pr_ipc p) (pr_agent p) (pr_main p) \<and>
     (\<forall>c. pr_exit p = Some c \<longrightarrow> pr_main p = AllDown c \<or>
        c = 1 \<and> (\<exists>err. ''[ERR] rest server stopped: '' @ err \<in> set (pr_log p)))"

lemma main_ok_shutdown:
  "main_ok args e st i a m \<Longrightarrow> (ag_shutdown a \<longrightarrow> ag_shutdown a') \<Longrightarrow> main_ok args e st i a' m"
  by (cases m) auto

lemma rest_fatal_line:
  "rest_goroutine err r = (r', Some (line, code)) \<Longrightarrow> code = 1 \<and> (\<exists>e. line = ''[ERR] rest server stopped: '' @ e)"
  by (cases r) auto

lemma ipc_stopped: "AgentIPC_Shutdown i = (b, i') \<Longrightarrow> ip_stop i'"
  by (auto simp: AgentIPC_Shutdown_def split: if_splits)

lemma proc_step_ok:
  assumes "proc_step js setTags args e st p q" and "proc_ok args e st p"
  shows "proc_ok args e st q"
  using assms
proof (cases rule: proc_step.cases)
  case (main_wakes ws w ls msgs code st')
  then show ?thesis
    using assms(2) wakes_decides by (fastforce simp: proc_ok_def)
next
  case (main_reload ws env)
  then obtain envs where "ws = map WHup envs"
    using assms(2) by (auto simp: proc_ok_def)
  then have "ws @ [WHup env] = map WHup (envs @ [env])" by simp
  then have "\<exists>envs. ws @ [WHup env] = map WHup envs" by blast
  then show ?thesis using main_reload assms(2) by (simp add: proc_ok_def)
next
  case (serf_down e' err a)
  then show ?thesis
    using assms(2) coherent_Shutdown(2) main_ok_shutdown by (fastforce simp: proc_ok_def)
qed (auto simp: proc_ok_def realMain_def dest!: rest_fatal_line ipc_stopped dest: coherent_Shutdown(2))

lemma proc_reachable_ok:
  "(proc_step js setTags args e st)\<^sup>*\<^sup>* p q \<Longrightarrow> proc_ok args e st p \<Longrightarrow> proc_ok args e st q"
  by (induction rule: rtranclp_induct) (auto intro: proc_step_ok)

text \<open>Main can always go through to its end, and from the shutdown of the IPC server on the web server's goroutine can
  always overtake it.\<close>

lemma reach_leaving:
  assumes "decides args st (envs :: ('f, 'i) cmd_env list) w ls c" and "w \<noteq> WDiscoverdDown" "w \<noteq> WAgentDown"
  shows "(proc_step js setTags args e st)\<^sup>*\<^sup>* (started_proc i :: ('f, 'i) proc) ((started_proc i)\<lparr>pr_main := Leaving c\<rparr>)"
proof -
  let ?p = "\<lambda>m. (started_proc i)\<lparr>pr_main := m\<rparr>"
  have wait: "(proc_step js setTags args e st)\<^sup>*\<^sup>* (started_proc i) (?p (Waiting (map WHup envs)))"
  proof (induction envs rule: rev_induct)
    case Nil
    then show ?case by (simp add: started_proc_def)
  next
    case (snoc env envs)
    have "proc_step js setTags args e st (?p (Waiting (map WHup envs))) (?p (Waiting (map WHup envs @ [WHup env])))"
      using main_reload [of "?p (Waiting (map WHup envs))" "map WHup envs" js setTags args e st env] by (simp add: started_proc_def)
    with snoc show ?case by (simp add: rtranclp.rtrancl_into_rtrancl)
  qed
  obtain msgs st' where "handleSignals js setTags args (map WHup envs @ [w]) ls st = Ret ((msgs, Some c), st')"
    using decides_wakes [OF assms(1)] by blast
  from main_wakes [OF _ _ _ _ this, of "?p (Waiting (map WHup envs))"] assms(2,3)
  have "proc_step js setTags args e st (?p (Waiting (map WHup envs))) (?p (Leaving c))"
    by (simp add: started_proc_def)
  with wait show ?thesis by (rule rtranclp.rtrancl_into_rtrancl)
qed

text \<open>From there main can go through to its end, and so can the web server's goroutine once main has asked it to close.\<close>

lemma reach_ends:
  assumes "decides args st (envs :: ('f, 'i) cmd_env list) w ls c" and "w \<noteq> WDiscoverdDown" "w \<noteq> WAgentDown"
    and "\<not> ip_stop i" "ip_discoverd i \<noteq> None" "coherent (ip_agent i)"
  shows "(\<exists>p. (proc_step js setTags args e st)\<^sup>*\<^sup>* (started_proc i :: ('f, 'i) proc) p \<and> pr_exit p = Some c) \<and>
    (\<exists>q. (proc_step js setTags args e st)\<^sup>*\<^sup>* (started_proc i :: ('f, 'i) proc) q \<and> pr_main q = IpcDown c \<and>
      pr_exit q = Some 1 \<and> pr_agent q = ip_agent i)"
proof -
  let ?step = "proc_step js setTags args e st :: ('f, 'i) proc \<Rightarrow> ('f, 'i) proc \<Rightarrow> bool"
  let ?line = "fst (Discoverd_Shutdown Serving)"
  define p1 :: "('f, 'i) proc" where "p1 = (started_proc i)\<lparr>pr_main := Leaving c\<rparr>"
  define p2 where "p2 = p1\<lparr>pr_main := IpcDown c, pr_ipc := i\<lparr>ip_stop := True\<rparr>, pr_rest := Closing, pr_log := [?line]\<rparr>"
  obtain err a where a: "Agent_Shutdown e (ip_agent i) = Ret (err, a)"
    using coherent_Shutdown(1) [OF assms(6)] by blast
  define p3 where "p3 = p2\<lparr>pr_main := AllDown c, pr_agent := a\<rparr>"
  define p4 where "p4 = p3\<lparr>pr_exit := Some c\<rparr>"
  define q3 where "q3 = p2\<lparr>pr_rest := Returned ''<nil>''\<rparr>"
  define q4 where "q4 = q3\<lparr>pr_rest := ChClosed ''<nil>''\<rparr>"
  define q5 where "q5 = q4\<lparr>pr_log := pr_log q4 @ [''[ERR] rest server stopped: '' @ ''<nil>''], pr_exit := Some 1\<rparr>"
  note defs = p1_def p2_def p3_def p4_def q3_def q4_def q5_def started_proc_def
  have "?step\<^sup>*\<^sup>* (started_proc i) p1"
    unfolding p1_def by (rule reach_leaving [OF assms(1-3)])
  moreover have "?step p1 p2"
    using main_ipc [of p1 c "ip_clients i" True "i\<lparr>ip_stop := True\<rparr>" js setTags args e st] assms(4,5)
    by (simp add: defs AgentIPC_Shutdown_def Discoverd_Shutdown_def ShutdownRestServer_def)
  ultimately have two: "?step\<^sup>*\<^sup>* (started_proc i) p2" by (rule rtranclp.rtrancl_into_rtrancl)
  have "?step p2 p3"
    using main_agent [of p2 c e err a js setTags args st] a by (simp add: defs)
  moreover have "?step p3 p4"
    using main_exit [of p3 c js setTags args e st] by (simp add: defs realMain_def)
  ultimately have "?step\<^sup>*\<^sup>* (started_proc i) p4"
    using two by (meson rtranclp.rtrancl_into_rtrancl)
  moreover have "?step p2 q3"
    using rest_quiet [of p2 "''<nil>''" "Returned ''<nil>''" js setTags args e st] by (simp add: defs)
  moreover have "?step q3 q4"
    using rest_quiet [of q3 "[]" "ChClosed ''<nil>''" js setTags args e st] by (simp add: defs)
  moreover have "?step q4 q5"
    using rest_fatal [of q4 "[]" "ChClosed ''<nil>''" "''[ERR] rest server stopped: '' @ ''<nil>''" 1 js setTags args e st]
    by (simp add: defs)
  ultimately have "?step\<^sup>*\<^sup>* (started_proc i) p4 \<and> ?step\<^sup>*\<^sup>* (started_proc i) q5"
    using two by (meson rtranclp.rtrancl_into_rtrancl)
  moreover have "pr_exit p4 = Some c" "pr_main q5 = IpcDown c" "pr_exit q5 = Some 1" "pr_agent q5 = ip_agent i"
    by (simp_all add: defs)
  ultimately show ?thesis by blast
qed

text \<open>C38. How an agent's process exits. If main gets to its end, the exit code is the one that the event which ended the wait
  decides under the configuration then in force, the IPC server has been shut down and, unless serf refuses, the agent too.
  The only other end is the web server's goroutine, which on its way out logs a fatal line and exits with 1, whatever has been
  shut down by then. Both ends can always come about: every code an interrupt, a shutdown message, a termination signal or a
  failed retried join decides is the exit code of some run, but in another run of the same events main shuts the
  IPC server down, which closes the web server, and the process exits with 1 before main has shut the agent down.\<close>

theorem process_exit:
  assumes "\<not> ip_stop i" and "ip_discoverd i \<noteq> None" and "coherent (ip_agent i)"
  shows "(\<forall>p c. (proc_step js setTags args e st)\<^sup>*\<^sup>* (started_proc i :: ('f, 'i) proc) p \<and> pr_exit p = Some c \<longrightarrow>
      (\<exists>envs w ls. decides args st (envs :: ('f, 'i) cmd_env list) w ls c) \<and> ip_stop (pr_ipc p) \<and>
        (e = None \<longrightarrow> ag_shutdown (pr_agent p)) \<or>
      c = 1 \<and> (\<exists>err. ''[ERR] rest server stopped: '' @ err \<in> set (pr_log p))) \<and>
    (\<forall>envs w ls c. decides args st (envs :: ('f, 'i) cmd_env list) w ls c \<and> w \<noteq> WDiscoverdDown \<and> w \<noteq> WAgentDown \<longrightarrow>
      (\<exists>p. (proc_step js setTags args e st)\<^sup>*\<^sup>* (started_proc i :: ('f, 'i) proc) p \<and> pr_exit p = Some c) \<and>
      (\<exists>q. (proc_step js setTags args e st)\<^sup>*\<^sup>* (started_proc i :: ('f, 'i) proc) q \<and> pr_main q = IpcDown c \<and>
        pr_exit q = Some 1 \<and> pr_agent q = ip_agent i))"
proof -
  let ?step = "proc_step js setTags args e st :: ('f, 'i) proc \<Rightarrow> ('f, 'i) proc \<Rightarrow> bool"
  have "main_ok args e st i (ip_agent i) (Waiting [] :: ('f, 'i) main_pc)"
    by (auto intro: exI [of _ "[]"])
  then have start: "proc_ok args e st (started_proc i :: ('f, 'i) proc)"
    using assms(3) by (simp add: proc_ok_def started_proc_def)
  show ?thesis
  proof (rule conjI; intro allI impI)
    fix p :: "('f, 'i) proc" and c
    assume p: "?step\<^sup>*\<^sup>* (started_proc i) p \<and> pr_exit p = Some c"
    then show "(\<exists>envs w ls. decides args st (envs :: ('f, 'i) cmd_env list) w ls c) \<and> ip_stop (pr_ipc p) \<and>
        (e = None \<longrightarrow> ag_shutdown (pr_agent p)) \<or>
      c = 1 \<and> (\<exists>err. ''[ERR] rest server stopped: '' @ err \<in> set (pr_log p))"
      using proc_reachable_ok [OF conjunct1 [OF p] start] by (auto simp: proc_ok_def)
  next
    fix envs :: "('f, 'i) cmd_env list" and w ls c
    assume "decides args st envs w ls c \<and> w \<noteq> WDiscoverdDown \<and> w \<noteq> WAgentDown"
    then show "(\<exists>p. ?step\<^sup>*\<^sup>* (started_proc i) p \<and> pr_exit p = Some c) \<and>
      (\<exists>q. ?step\<^sup>*\<^sup>* (started_proc i) q \<and> pr_main q = IpcDown c \<and> pr_exit q = Some 1 \<and> pr_agent q = ip_agent i)"
      by (intro reach_ends assms) auto
  qed
qed

theorem process_exit_witness:
  "\<exists>q :: (Config, nat) proc. (proc_step demo_cmd_json (\<lambda>m. None) demo_args None demo_cmd_state)\<^sup>*\<^sup>* (started_proc (demo_ipc '''')) q \<and>
     pr_main q = IpcDown 0 \<and> pr_exit q = Some 1"
proof -
  have i: "\<not> ip_stop (demo_ipc '''')" "ip_discoverd (demo_ipc '''') \<noteq> None" "coherent (ip_agent (demo_ipc ''''))"
    by (simp_all add: demo_ipc_def SetDiscoverd_def NewAgentIPC_def demo_agent_def new_agent_def coherent_def)
  have "decides demo_args demo_cmd_state ([] :: (Config, nat) cmd_env list) WInterrupt [LLeft None] 0"
    by (simp add: decides_def in_force_def leave_code_def demo_cmd_state_def new_agent_def Agent_Leave_def zero_Config_def)
  then show ?thesis
    using process_exit [OF i, where js = demo_cmd_json and setTags = "\<lambda>m. None" and args = demo_args and e = None
        and st = demo_cmd_state and 'f = Config and 'i = nat] by blast
qed

end
