(* ===== verification/Spec2Isabelle.thy ===== *)
theory Spec2Isabelle
  imports SliceHeap Lifecycle Logs Agent CacheFile IpcStreams Rpc Command Mdns EndToEnd MainProcess
begin

text \<open>
  \<^bold>\<open>A model of blued\<close>, the service-discovery agent of this repository (Go).

  \<^bold>\<open>The program.\<close> An agent (\<^verbatim>\<open>command/agent\<close>) joins a serf cluster. Applications register, refresh and fetch
  routing tables over a REST interface (\<^verbatim>\<open>discoverd\<close>); each agent keeps the applications that live on it in
  an expiring cache (\<^verbatim>\<open>discoverd/util/cache\<close>) and the routers of all services, of all nodes, in a table
  (\<^verbatim>\<open>discoverd/msd\<close>). A registration or its end is broadcast as a serf user event; every agent's event handler
  applies it to its own table. The agent also serves an IPC protocol (\<^verbatim>\<open>command/agent/ipc.go\<close>) through which
  the client (\<^verbatim>\<open>client/\<close>) and the command line (\<^verbatim>\<open>command/\<close>, \<^verbatim>\<open>commands.go\<close>) drive it, subscribe to events and logs,
  send queries and copy routing tables. Serf, memberlist, the codecs (msgpack, gob, JSON), the network, clocks,
  files and timers are outside the repository: they are arguments of the definitions that use them.

  \<^bold>\<open>Conventions.\<close> A function that may panic returns a value of \<open>go\<close> (\<open>Ret\<close> or \<open>Panic\<close>); an error is the left of a
  sum or an \<open>option\<close> of a text. Strings are byte lists; machine integers are words where the code's width matters
  (durations, sequence numbers, counters, ports) and the wrap-around is the code's. A Go map is a partial function; where
  the code ranges over one, the order is an argument (a list that enumerates the domain, or a function from
  finite sets to lists), so a result holds for every order. State is passed explicitly, in records with the fields
  of the structs. Locks are not modelled as such: what runs under an exclusive lock, or reads under a shared one, is one step. Where goroutines can get
  between the steps of an operation and a theorem depends on it, the operation is split and runs are lists of
  steps, or step relations: the flush of the gated writer and its writes, which append under a lock they share (\<open>gated_step\<close>); the
  counting and copying of the applications (\<open>repo_ListMicroApps\<close>, over two states); the client's listener, which calls a
  handler after releasing the lock under which it found it (\<open>client_step\<close>); the streams, whose goroutine, handler, wire, listener
  and caller all run by themselves. Elsewhere an operation is one step also if the code takes its lock twice (a refresh
  renews the lease, looks the application up and reads the table) or runs undisturbed in a goroutine of its own.

  \<^bold>\<open>Theories\<close>, with the code they model.

    \<^item> \<open>Prelude\<close>: \<open>go\<close>, enumerations of maps, collections of rules; \<open>GoStd\<close>: the parts of Go's library the code
      relies on (strings, UTF-8, numbers as text, hexadecimal, MD5); \<open>GoFlag\<close>: the \<^verbatim>\<open>flag\<close> package; \<open>Base64\<close>; \<open>Streams\<close>: buffered
      channels and the locale of bounded streams; \<open>Serf\<close>: the data that serf hands to the agent.
    \<^item> \<open>Api\<close> (\<^verbatim>\<open>discoverd/api\<close>), \<open>Cache\<close> and \<open>CacheFile\<close> (\<^verbatim>\<open>cache.go\<close>), \<open>Repo\<close> (\<^verbatim>\<open>msd_repo.go\<close>), \<open>Routing\<close> (its laws and
      its refinement of a set of triples), \<open>SliceHeap\<close> (the same operations on slices that share memory),
      \<open>Gossip\<close> (\<^verbatim>\<open>cluster.go\<close>, \<^verbatim>\<open>discoverd.go\<close>, \<^verbatim>\<open>discoverd_event_handler.go\<close> and a cluster of agents), \<open>Lifecycle\<close>
      (\<^verbatim>\<open>msd_rs.go\<close>, \<^verbatim>\<open>rest_server.go\<close> and the life of an application).
    \<^item> \<open>Logs\<close> (\<^verbatim>\<open>log_writer.go\<close>, \<^verbatim>\<open>gated_writer.go\<close>, \<^verbatim>\<open>log_levels.go\<close>, \<^verbatim>\<open>syslog.go\<close>, \<^verbatim>\<open>ipc_log_stream.go\<close>), \<open>Events\<close>
      (\<^verbatim>\<open>event_handler.go\<close>, \<^verbatim>\<open>invoke.go\<close>), \<open>Config\<close> (\<^verbatim>\<open>config.go\<close>), \<open>Agent\<close> (\<^verbatim>\<open>agent.go\<close>, \<^verbatim>\<open>flag_slice_value.go\<close>),
      \<open>CommandConfig\<close> and \<open>Command\<close> (\<^verbatim>\<open>command/agent/command.go\<close>), \<open>Mdns\<close> (\<^verbatim>\<open>mdns.go\<close>).
    \<^item> \<open>IpcData\<close>, \<open>Ipc\<close>, \<open>IpcSession\<close>, \<open>IpcStreams\<close>: the protocol's records, the request handlers, a client's session from
      accept to deregistration, and the event and query streams (\<^verbatim>\<open>ipc.go\<close>, \<^verbatim>\<open>ipc_event_stream.go\<close>,
      \<^verbatim>\<open>ipc_query_response_stream.go\<close>).
    \<^item> \<open>ClientData\<close>, \<open>Client\<close>, \<open>ClientSafety\<close> (\<^verbatim>\<open>client/const.go\<close>, \<^verbatim>\<open>client/rpc_client.go\<close>); \<open>Rpc\<close>: client, wire and server
      composed, a call at a time.
    \<^item> \<open>Cli\<close> (the eleven commands that connect to one agent and make plain calls, and two that make none), \<open>CliErrors\<close>, \<open>CliWire\<close> (the eleven over \<open>Rpc\<close>), \<open>CliStreams\<close>
      (\<^verbatim>\<open>query.go\<close>), \<open>CliWatch\<close> (\<^verbatim>\<open>reachability.go\<close>, \<^verbatim>\<open>monitor.go\<close>), \<open>CliSync\<close> (\<^verbatim>\<open>sync.go\<close>), \<open>CliTable\<close> (\<^verbatim>\<open>commands.go\<close>,
      \<^verbatim>\<open>main.go\<close>).
    \<^item> \<open>EndToEnd\<close>: the streams of events, of logs and of a query's results from the agent to the caller of the client.
    \<^item> \<open>MainProcess\<close> (\<^verbatim>\<open>main.go\<close>, \<^verbatim>\<open>commands.go\<close>, \<^verbatim>\<open>rest_server.go\<close>, \<^verbatim>\<open>util.go\<close>): the main function, the interrupt
      forwarder, the web server's goroutine, and how the process of an agent ends.

  \<^bold>\<open>What the theorems show.\<close>

    \<^item> Leases: the expiry sweep is exact and tells its handler each stored item at most once (\<open>Cache\<close>, over the locale
      \<open>lease_store\<close>); an application that refreshes in time is always answered live and never unregistered, as long as the tables installed carry whole checksums; one whose
      lease is over is unregistered once and disappears from every table (\<open>Gossip\<close>, \<open>Lifecycle\<close>).
    \<^item> Routing tables: every run of the table operations refines insertions and deletions on a set of triples
      (service, node, address), keeps the table well formed and the checksums right; nodes that see the same events,
      in whatever order they agree on per address, have the same table; the operations on shared slices compute what
      the operations on lists do; in every reachable state of a cluster each router was registered by a client at its node, or announced in a user
      event or installed in a table that a client made up.
    \<^item> The agent: configuration reading and merging, tags and their file, event scripts, logs (subscriptions, the gated
      writer, which can lose lines written at the same time, the log and event streams as interpretations of \<open>bounded_stream\<close>), start, reload, signals, exit codes,
      join retries and multicast discovery.
    \<^item> IPC: a session always ends, leaves nothing behind and answers only what was asked, without a panic unless an application is registered
      in the middle of a listing; without the key nothing
      happens; the client never panics under the interleavings of its users and its listener, unless a stream is deregistered just while a record for it is
      being handed over, and
      releases its handlers; a call over the wire is the direct call.
    \<^item> Streams end to end: what the caller of \<^verbatim>\<open>Stream\<close> or the user of \<^verbatim>\<open>monitor\<close> sees is in order and without
      repetition what the agent's filter let through (the monitor ends at an empty line), and what \<^verbatim>\<open>query\<close> reports is what serf answered, for every
      interleaving of handler, goroutine, wire, listener and caller (\<open>bounded_stream\<close> on the agent's side, \<open>channel_sink\<close>
      on the client's).
    \<^item> The process: the exit code of an agent is what the event that ends its wait decides, or 1 when the goroutine
      of the web server ends the process; the second can overtake a graceful leave.
    \<^item> Command line: each of the eleven commands run over the wire is the command run on the agent (locale \<open>link_simulation\<close>, interpreted on
      the wire and on the agent), and each tells every failure and shows it in the exit code; what a query reports, what the
      verdict of the reachability test means, and that \<^verbatim>\<open>sync\<close> copies a routing table.

  \<^bold>\<open>Bounds and termination.\<close> Loops over lists and maps are structural; loops that the environment keeps going
  (accepting, join retries, cutting brackets off an address) are \<open>partial_function\<close>s whose returning is
  stated, or runs over lists of steps. Fuel is not used. The simulation of the command line bounds the calls of one
  connection by 1000 (a command needs at most three), so that the 64-bit sequence number does not wrap; the
  statement for a single call asks for the number not to be the last one. Counters of the streaming
  commands are bounded by the length of what was received.

  \<^bold>\<open>Not modelled.\<close> The cli library's dispatcher, the web framework (gin, manners) and its shutdown of open
  connections, and the values Go's run-time system reports (all parameters), the metrics sinks beyond which of them
  are configured, the finalizer of the cache, the windows branch of script invocation beyond the choice of shell,
  synopses and help texts (a parameter of the commands), accessors that only return a field, the log lines of
  operations that are otherwise a call of serf, and the mocks and test
  helpers. Timing: clocks are arguments, and nothing is said of how long an operation takes. Data races of the
  code (unlocked reads of the routing table, \<^verbatim>\<open>UpdateRouters\<close>, which writes it under the read lock, the cache's map ranged over without a
  lock, the event list shared between the event loop and a stopping stream) are not given a semantics: a map or slice that
  is written while it is read is read at one moment.
\<close>

end
